theory Spec2Isabelle
  imports Complex_Main "HOL-Library.DAList"
begin

section \<open>Numbers and vectors\<close>

text \<open>
  The collision subsystem computes with JavaScript numbers. Finite values are modelled as
  \<^typ>\<open>real\<close>; the infinities that the source writes explicitly
  (\<^verbatim>\<open>Infinity\<close>, \<^verbatim>\<open>-Infinity\<close>) appear only where the source can produce them and are
  modelled by the type \<open>number\<close> further below. The operations are given twice: first with
  exact real arithmetic, and in the section on double arithmetic once more for
  \<^verbatim>\<open>OBB.intersects\<close> with every result rounded as IEEE 754 binary64 arithmetic rounds it.

  \<^verbatim>\<open>THREE.Vector3\<close> and \<^verbatim>\<open>THREE.Matrix3\<close> belong to the three.js library; the operations
  the collision code calls are written out here with the library's meaning.
\<close>

datatype Vector3 = Vector3 (vx: real) (vy: real) (vz: real)

text \<open>\<^verbatim>\<open>Matrix3.elements\<close> is stored column by column: the first three entries are the first column.\<close>

datatype Matrix3 = Matrix3 real real real  real real real  real real real

definition dot :: "Vector3 \<Rightarrow> Vector3 \<Rightarrow> real" where
  "dot a b = vx a * vx b + vy a * vy b + vz a * vz b"

definition cross :: "Vector3 \<Rightarrow> Vector3 \<Rightarrow> Vector3" where
  "cross a b = Vector3 (vy a * vz b - vz a * vy b)
                       (vz a * vx b - vx a * vz b)
                       (vx a * vy b - vy a * vx b)"

definition add_v :: "Vector3 \<Rightarrow> Vector3 \<Rightarrow> Vector3" where
  "add_v a b = Vector3 (vx a + vx b) (vy a + vy b) (vz a + vz b)"

definition sub_v :: "Vector3 \<Rightarrow> Vector3 \<Rightarrow> Vector3" where
  "sub_v a b = Vector3 (vx a - vx b) (vy a - vy b) (vz a - vz b)"

definition multiplyScalar :: "Vector3 \<Rightarrow> real \<Rightarrow> Vector3" where
  "multiplyScalar a s = Vector3 (vx a * s) (vy a * s) (vz a * s)"

definition negate :: "Vector3 \<Rightarrow> Vector3" where
  "negate a = Vector3 (- vx a) (- vy a) (- vz a)"

definition lengthSq :: "Vector3 \<Rightarrow> real" where
  "lengthSq a = vx a * vx a + vy a * vy a + vz a * vz a"

definition length_v :: "Vector3 \<Rightarrow> real" where
  "length_v a = sqrt (lengthSq a)"

text \<open>\<^verbatim>\<open>normalize()\<close> is \<^verbatim>\<open>divideScalar(this.length() || 1)\<close>, and
  \<^verbatim>\<open>divideScalar(s)\<close> is \<^verbatim>\<open>multiplyScalar(1 / s)\<close>.\<close>

definition normalize_v :: "Vector3 \<Rightarrow> Vector3" where
  "normalize_v a = multiplyScalar a (1 / (if length_v a = 0 then 1 else length_v a))"

fun applyMatrix3 :: "Vector3 \<Rightarrow> Matrix3 \<Rightarrow> Vector3" where
  "applyMatrix3 v (Matrix3 e0 e1 e2 e3 e4 e5 e6 e7 e8) =
     Vector3 (e0 * vx v + e3 * vy v + e6 * vz v)
             (e1 * vx v + e4 * vy v + e7 * vz v)
             (e2 * vx v + e5 * vy v + e8 * vz v)"

text \<open>\<^verbatim>\<open>getComponent(i)\<close> throws for an index other than 0, 1, 2.\<close>

datatype js_error = TypeError | RangeError

fun getComponent :: "Vector3 \<Rightarrow> nat \<Rightarrow> js_error + real" where
  "getComponent v i =
     (if i = 0 then Inr (vx v) else if i = 1 then Inr (vy v)
      else if i = 2 then Inr (vz v) else Inl RangeError)"

definition identity3 :: Matrix3 where
  "identity3 = Matrix3 1 0 0  0 1 0  0 0 1"

section \<open>Oriented bounding boxes (OBB.ts)\<close>

record OBB =
  center :: Vector3
  halfExtents :: Vector3
  orientation :: Matrix3

record OBBCollisionResult =
  isColliding :: bool
  penetrationDepth :: real
  separatingAxis :: Vector3
  contactPoint :: Vector3

record Projection =
  pmin :: real
  pmax :: real

definition getAxes :: "OBB \<Rightarrow> Vector3 list" where
  "getAxes b = [applyMatrix3 (Vector3 1 0 0) (orientation b),
                applyMatrix3 (Vector3 0 1 0) (orientation b),
                applyMatrix3 (Vector3 0 0 1) (orientation b)]"

definition projectOnAxis :: "OBB \<Rightarrow> Vector3 \<Rightarrow> Projection" where
  "projectOnAxis b axis =
     (let axes = getAxes b;
          centerProjection = dot (center b) axis;
          extent = \<bar>dot (axes ! 0) axis * vx (halfExtents b)\<bar> +
                   \<bar>dot (axes ! 1) axis * vy (halfExtents b)\<bar> +
                   \<bar>dot (axes ! 2) axis * vz (halfExtents b)\<bar>
      in \<lparr>pmin = centerProjection - extent, pmax = centerProjection + extent\<rparr>)"

text \<open>The tolerance \<^verbatim>\<open>1e-6\<close> of the two length filters.\<close>

definition epsilon :: real where
  "epsilon = 1 / 1000000"

text \<open>\<^verbatim>\<open>getCrossProductAxes\<close>: the two nested iterations, keeping a cross product only when its
  squared length is above the tolerance.\<close>

fun crossInner :: "Vector3 \<Rightarrow> Vector3 list \<Rightarrow> Vector3 list" where
  "crossInner axis1 [] = []"
| "crossInner axis1 (axis2 # rest) =
     (let c = cross axis1 axis2
      in if lengthSq c > epsilon then c # crossInner axis1 rest else crossInner axis1 rest)"

fun getCrossProductAxes :: "Vector3 list \<Rightarrow> Vector3 list \<Rightarrow> Vector3 list" where
  "getCrossProductAxes [] axes2 = []"
| "getCrossProductAxes (axis1 # rest) axes2 = crossInner axis1 axes2 @ getCrossProductAxes rest axes2"

text \<open>The overlap of the two projections on an axis, as computed in the loop body.\<close>

definition overlapOn :: "OBB \<Rightarrow> OBB \<Rightarrow> Vector3 \<Rightarrow> real" where
  "overlapOn a b axis =
     (let projection1 = projectOnAxis a axis;
          projection2 = projectOnAxis b axis
      in min (pmax projection1) (pmax projection2) - max (pmin projection1) (pmin projection2))"

text \<open>
  The loop over \<^verbatim>\<open>allAxes\<close>. The variables \<^verbatim>\<open>minPenetration\<close> and \<^verbatim>\<open>separatingAxis\<close> start as
  \<^verbatim>\<open>Infinity\<close> and \<^verbatim>\<open>null\<close> and are only ever assigned together, so their joint state is
  \<open>None\<close> or \<open>Some (minPenetration, separatingAxis)\<close>; a finite overlap is always below
  \<^verbatim>\<open>Infinity\<close>. The loop either returns early with the separating axis it found or runs
  to its end.
\<close>

datatype loop_exit = Separated Vector3 | Finished "(real \<times> Vector3) option"

fun axisLoop :: "OBB \<Rightarrow> OBB \<Rightarrow> Vector3 list \<Rightarrow> (real \<times> Vector3) option \<Rightarrow> loop_exit" where
  "axisLoop a b [] best = Finished best"
| "axisLoop a b (axis0 # rest) best =
     (if lengthSq axis0 < epsilon then axisLoop a b rest best
      else
        let axis = normalize_v axis0;
            overlap = overlapOn a b axis
        in if overlap \<le> 0 then Separated axis
           else if (case best of None \<Rightarrow> True | Some (minPenetration, _) \<Rightarrow> overlap < minPenetration)
                then axisLoop a b rest (Some (overlap, axis))
                else axisLoop a b rest best)"

definition calculateContactPoint :: "OBB \<Rightarrow> OBB \<Rightarrow> Vector3 \<Rightarrow> Vector3" where
  "calculateContactPoint a b sepAxis =
     (let thisProjection = projectOnAxis a sepAxis;
          otherProjection = projectOnAxis b sepAxis
      in if pmax thisProjection < pmax otherProjection
         then add_v (center a) (multiplyScalar sepAxis (pmax thisProjection - dot (center a) sepAxis))
         else add_v (center b) (multiplyScalar sepAxis (pmax otherProjection - dot (center b) sepAxis)))"

definition allAxes :: "OBB \<Rightarrow> OBB \<Rightarrow> Vector3 list" where
  "allAxes a b = getAxes a @ getAxes b @ getCrossProductAxes (getAxes a) (getAxes b)"

text \<open>
  \<^verbatim>\<open>intersects\<close>. When the loop ends without having tested any axis, \<^verbatim>\<open>separatingAxis\<close> is
  still \<^verbatim>\<open>null\<close> and \<^verbatim>\<open>calculateContactPoint\<close> dereferences it: a \<^verbatim>\<open>TypeError\<close>.
\<close>

definition intersects :: "OBB \<Rightarrow> OBB \<Rightarrow> js_error + OBBCollisionResult" where
  "intersects a b =
     (case axisLoop a b (allAxes a b) None of
        Separated axis \<Rightarrow>
          Inr \<lparr>isColliding = False, penetrationDepth = 0, separatingAxis = axis,
               contactPoint = Vector3 0 0 0\<rparr>
      | Finished None \<Rightarrow> Inl TypeError
      | Finished (Some (minPenetration, sepAxis)) \<Rightarrow>
          (let contact = calculateContactPoint a b sepAxis;
               centerDifference = sub_v (center b) (center a);
               sepAxis' = (if dot sepAxis centerDifference < 0 then negate sepAxis else sepAxis)
           in Inr \<lparr>isColliding = True, penetrationDepth = minPenetration,
                   separatingAxis = sepAxis', contactPoint = contact\<rparr>))"

text \<open>\<^verbatim>\<open>containsPoint\<close>: the loop over the three local axes.\<close>

fun containsLoop :: "OBB \<Rightarrow> Vector3 \<Rightarrow> nat list \<Rightarrow> js_error + bool" where
  "containsLoop b localPoint [] = Inr True"
| "containsLoop b localPoint (i # rest) =
     (case getComponent (halfExtents b) i of
        Inl e \<Rightarrow> Inl e
      | Inr h \<Rightarrow>
          (let projection = \<bar>dot localPoint (getAxes b ! i)\<bar>
           in if projection > h then Inr False else containsLoop b localPoint rest))"

definition containsPoint :: "OBB \<Rightarrow> Vector3 \<Rightarrow> js_error + bool" where
  "containsPoint b point = containsLoop b (sub_v point (center b)) [0, 1, 2]"

text \<open>The data-model invariant on orientations: the three local axes are orthonormal.\<close>

definition orthonormal :: "Matrix3 \<Rightarrow> bool" where
  "orthonormal m =
     (let a0 = applyMatrix3 (Vector3 1 0 0) m;
          a1 = applyMatrix3 (Vector3 0 1 0) m;
          a2 = applyMatrix3 (Vector3 0 0 1) m
      in dot a0 a0 = 1 \<and> dot a1 a1 = 1 \<and> dot a2 a2 = 1 \<and>
         dot a0 a1 = 0 \<and> dot a0 a2 = 0 \<and> dot a1 a2 = 0)"


text \<open>
  \<^verbatim>\<open>intersectsRay\<close> starts from \<^verbatim>\<open>tMin = -Infinity\<close> and \<^verbatim>\<open>tMax = Infinity\<close>, and the
  distance it returns is \<^verbatim>\<open>Infinity\<close> when no axis constrains the ray. The values a
  JavaScript number can take here: a finite real, an infinity, or \<^verbatim>\<open>NaN\<close> (from
  \<^verbatim>\<open>0 * Infinity\<close>). Comparisons with \<^verbatim>\<open>NaN\<close> are false.
\<close>

datatype number = NegInfinity | Finite real | PosInfinity | NaN

fun num_less :: "number \<Rightarrow> number \<Rightarrow> bool" where
  "num_less NaN _ = False"
| "num_less _ NaN = False"
| "num_less (Finite a) (Finite b) = (a < b)"
| "num_less NegInfinity NegInfinity = False"
| "num_less NegInfinity _ = True"
| "num_less _ NegInfinity = False"
| "num_less PosInfinity _ = False"
| "num_less _ PosInfinity = True"

fun num_le :: "number \<Rightarrow> number \<Rightarrow> bool" where
  "num_le NaN _ = False"
| "num_le _ NaN = False"
| "num_le a b = (\<not> num_less b a)"

definition num_greater :: "number \<Rightarrow> number \<Rightarrow> bool" where
  "num_greater a b = num_less b a"

text \<open>\<^verbatim>\<open>Math.max\<close> and \<^verbatim>\<open>Math.min\<close>.\<close>

fun num_max :: "number \<Rightarrow> number \<Rightarrow> number" where
  "num_max NaN _ = NaN"
| "num_max _ NaN = NaN"
| "num_max a b = (if num_less a b then b else a)"

fun num_min :: "number \<Rightarrow> number \<Rightarrow> number" where
  "num_min NaN _ = NaN"
| "num_min _ NaN = NaN"
| "num_min a b = (if num_less b a then b else a)"

fun num_times :: "number \<Rightarrow> number \<Rightarrow> number" where
  "num_times NaN _ = NaN"
| "num_times _ NaN = NaN"
| "num_times (Finite a) (Finite b) = Finite (a * b)"
| "num_times (Finite a) PosInfinity = (if a = 0 then NaN else if 0 < a then PosInfinity else NegInfinity)"
| "num_times (Finite a) NegInfinity = (if a = 0 then NaN else if 0 < a then NegInfinity else PosInfinity)"
| "num_times PosInfinity (Finite b) = (if b = 0 then NaN else if 0 < b then PosInfinity else NegInfinity)"
| "num_times NegInfinity (Finite b) = (if b = 0 then NaN else if 0 < b then NegInfinity else PosInfinity)"
| "num_times PosInfinity PosInfinity = PosInfinity"
| "num_times NegInfinity NegInfinity = PosInfinity"
| "num_times PosInfinity NegInfinity = NegInfinity"
| "num_times NegInfinity PosInfinity = NegInfinity"

fun num_plus :: "number \<Rightarrow> number \<Rightarrow> number" where
  "num_plus NaN _ = NaN"
| "num_plus _ NaN = NaN"
| "num_plus (Finite a) (Finite b) = Finite (a + b)"
| "num_plus PosInfinity NegInfinity = NaN"
| "num_plus NegInfinity PosInfinity = NaN"
| "num_plus PosInfinity _ = PosInfinity"
| "num_plus _ PosInfinity = PosInfinity"
| "num_plus NegInfinity _ = NegInfinity"
| "num_plus _ NegInfinity = NegInfinity"

record Ray =
  origin :: Vector3
  direction :: Vector3

text \<open>The hit point is \<^verbatim>\<open>origin + direction * distance\<close>; its coordinates are numbers in the
  above sense because the distance can be \<^verbatim>\<open>Infinity\<close>.\<close>

datatype NVector3 = NVector3 number number number

record RayHit =
  distance :: number
  point :: NVector3

definition rayPoint :: "Ray \<Rightarrow> number \<Rightarrow> NVector3" where
  "rayPoint ray d =
     NVector3 (num_plus (Finite (vx (origin ray))) (num_times (Finite (vx (direction ray))) d))
              (num_plus (Finite (vy (origin ray))) (num_times (Finite (vy (direction ray))) d))
              (num_plus (Finite (vz (origin ray))) (num_times (Finite (vz (direction ray))) d))"

text \<open>The slab loop of \<^verbatim>\<open>intersectsRay\<close>; \<open>None\<close> is the early \<^verbatim>\<open>return null\<close>.\<close>

fun slabLoop :: "OBB \<Rightarrow> Ray \<Rightarrow> Vector3 \<Rightarrow> nat list \<Rightarrow> number \<Rightarrow> number
                  \<Rightarrow> js_error + (number \<times> number) option" where
  "slabLoop b ray rayToCenter [] tMin tMax = Inr (Some (tMin, tMax))"
| "slabLoop b ray rayToCenter (i # rest) tMin tMax =
     (let axis = getAxes b ! i;
          rayDotAxis = dot (direction ray) axis;
          centerDotAxis = dot rayToCenter axis
      in case getComponent (halfExtents b) i of
           Inl e \<Rightarrow> Inl e
         | Inr halfExtent \<Rightarrow>
             if \<bar>rayDotAxis\<bar> < epsilon then
               (if \<bar>centerDotAxis\<bar> > halfExtent then Inr None
                else slabLoop b ray rayToCenter rest tMin tMax)
             else
               (let t1 = (centerDotAxis - halfExtent) / rayDotAxis;
                    t2 = (centerDotAxis + halfExtent) / rayDotAxis;
                    tNear = min t1 t2;
                    tFar = max t1 t2;
                    tMin' = num_max tMin (Finite tNear);
                    tMax' = num_min tMax (Finite tFar)
                in if num_greater tMin' tMax' then Inr None
                   else slabLoop b ray rayToCenter rest tMin' tMax'))"

definition intersectsRay :: "OBB \<Rightarrow> Ray \<Rightarrow> js_error + RayHit option" where
  "intersectsRay b ray =
     (case slabLoop b ray (sub_v (center b) (origin ray)) [0, 1, 2] NegInfinity PosInfinity of
        Inl e \<Rightarrow> Inl e
      | Inr None \<Rightarrow> Inr None
      | Inr (Some (tMin, tMax)) \<Rightarrow>
          (let d = (if num_greater tMin (Finite 0) then tMin else tMax)
           in if num_less d (Finite 0) then Inr None
              else Inr (Some \<lparr>distance = d, point = rayPoint ray d\<rparr>)))"


section \<open>Broad phase (AkashicCollisionSystem.ts)\<close>

text \<open>
  The source's \<^verbatim>\<open>AABB\<close> has the fields \<^verbatim>\<open>x\<close>, \<^verbatim>\<open>y\<close>, \<^verbatim>\<open>width\<close>, \<^verbatim>\<open>height\<close>; the overlap rectangle
  of a \<^verbatim>\<open>CollisionResult\<close> has the same four fields. \<^verbatim>\<open>bodies\<close> is a JavaScript \<^verbatim>\<open>Map\<close>: keys are
  unique and are iterated in insertion order, and \<^verbatim>\<open>set\<close> on a present key replaces the value
  in place. That is a distinct association list with \<^const>\<open>DAList.update\<close>.
\<close>

record AABB =
  aabb_x :: real
  aabb_y :: real
  aabb_width :: real
  aabb_height :: real

record CollisionResult =
  id1 :: string
  id2 :: string
  body1 :: AABB
  body2 :: AABB
  overlap :: AABB

record AkashicCollisionSystem =
  bodies :: "(string, AABB) alist"
  collisionResults :: "CollisionResult list"

definition newAkashicCollisionSystem :: AkashicCollisionSystem where
  "newAkashicCollisionSystem = \<lparr>bodies = DAList.empty, collisionResults = []\<rparr>"

definition createAABB :: "string \<Rightarrow> real \<Rightarrow> real \<Rightarrow> real \<Rightarrow> real
                          \<Rightarrow> AkashicCollisionSystem \<Rightarrow> AkashicCollisionSystem" where
  "createAABB ident x y width height s =
     s\<lparr>bodies := DAList.update ident
          \<lparr>aabb_x = x, aabb_y = y, aabb_width = width, aabb_height = height\<rparr> (bodies s)\<rparr>"

definition checkAABBCollision :: "AABB \<Rightarrow> AABB \<Rightarrow> AABB option" where
  "checkAABBCollision aabb1 aabb2 =
     (let overlapX = max 0 (min (aabb_x aabb1 + aabb_width aabb1) (aabb_x aabb2 + aabb_width aabb2)
                            - max (aabb_x aabb1) (aabb_x aabb2));
          overlapY = max 0 (min (aabb_y aabb1 + aabb_height aabb1) (aabb_y aabb2 + aabb_height aabb2)
                            - max (aabb_y aabb1) (aabb_y aabb2))
      in if overlapX > 0 \<and> overlapY > 0
         then Some \<lparr>aabb_x = max (aabb_x aabb1) (aabb_x aabb2),
                    aabb_y = max (aabb_y aabb1) (aabb_y aabb2),
                    aabb_width = overlapX, aabb_height = overlapY\<rparr>
         else None)"

text \<open>
  \<^verbatim>\<open>checkCollisions\<close>: the outer loop takes \<^verbatim>\<open>bodyIds[i]\<close>, the inner loop runs over the identifiers
  after it. \<^verbatim>\<open>this.bodies.get(id)!\<close> only asserts to the type checker that the body exists; on
  a missing body the following field access would throw.
\<close>

fun innerLoop :: "(string, AABB) alist \<Rightarrow> string \<Rightarrow> string list \<Rightarrow> CollisionResult list
                   \<Rightarrow> js_error + CollisionResult list" where
  "innerLoop bs i1 [] results = Inr results"
| "innerLoop bs i1 (i2 # rest) results =
     (case (DAList.lookup bs i1, DAList.lookup bs i2) of
        (Some b1, Some b2) \<Rightarrow>
          (case checkAABBCollision b1 b2 of
             Some ov \<Rightarrow>
               innerLoop bs i1 rest
                 (results @ [\<lparr>id1 = i1, id2 = i2, body1 = b1, body2 = b2, overlap = ov\<rparr>])
           | None \<Rightarrow> innerLoop bs i1 rest results)
      | _ \<Rightarrow> Inl TypeError)"

fun outerLoop :: "(string, AABB) alist \<Rightarrow> string list \<Rightarrow> CollisionResult list
                   \<Rightarrow> js_error + CollisionResult list" where
  "outerLoop bs [] results = Inr results"
| "outerLoop bs (i1 # rest) results =
     (case innerLoop bs i1 rest results of
        Inl e \<Rightarrow> Inl e
      | Inr results' \<Rightarrow> outerLoop bs rest results')"

definition checkCollisions :: "AkashicCollisionSystem
                                 \<Rightarrow> js_error + (CollisionResult list \<times> AkashicCollisionSystem)" where
  "checkCollisions s =
     (let bodyIds = map fst (DAList.impl_of (bodies s))
      in case outerLoop (bodies s) bodyIds [] of
           Inl e \<Rightarrow> Inl e
         | Inr results \<Rightarrow> Inr (results, s\<lparr>collisionResults := results\<rparr>))"

definition updateBody :: "string \<Rightarrow> real \<Rightarrow> real \<Rightarrow> AkashicCollisionSystem \<Rightarrow> AkashicCollisionSystem" where
  "updateBody ident x y s =
     (case DAList.lookup (bodies s) ident of
        Some body \<Rightarrow> s\<lparr>bodies := DAList.update ident (body\<lparr>aabb_x := x, aabb_y := y\<rparr>) (bodies s)\<rparr>
      | None \<Rightarrow> s)"

definition updateBodySize :: "string \<Rightarrow> real \<Rightarrow> real \<Rightarrow> AkashicCollisionSystem \<Rightarrow> AkashicCollisionSystem" where
  "updateBodySize ident width height s =
     (case DAList.lookup (bodies s) ident of
        Some body \<Rightarrow>
          s\<lparr>bodies := DAList.update ident (body\<lparr>aabb_width := width, aabb_height := height\<rparr>) (bodies s)\<rparr>
      | None \<Rightarrow> s)"

definition getBody :: "AkashicCollisionSystem \<Rightarrow> string \<Rightarrow> AABB option" where
  "getBody s ident = DAList.lookup (bodies s) ident"

definition removeBody :: "string \<Rightarrow> AkashicCollisionSystem \<Rightarrow> AkashicCollisionSystem" where
  "removeBody ident s = s\<lparr>bodies := DAList.delete ident (bodies s)\<rparr>"


section \<open>Scene objects of three.js\<close>

text \<open>
  Meshes and geometries are owned by the scene and are shared by reference, so they live in
  stores indexed by address. Of a mesh the collision code reads and writes \<^verbatim>\<open>position\<close>, reads
  \<^verbatim>\<open>matrixWorld\<close> and reaches the geometry's cached \<^verbatim>\<open>boundingBox\<close>. The world matrix of an
  object is affine (three.js composes it from position, rotation and scale; its bottom row is
  0, 0, 0, 1), so it is stored as its three axis columns and its translation column, and the
  perspective divide of \<^verbatim>\<open>applyMatrix4\<close> divides by 1.

  Two library functions are taken as parameters: \<^verbatim>\<open>BufferGeometry.computeBoundingBox\<close> (the box
  of the vertex data) and \<^verbatim>\<open>Box3.setFromObject\<close> (the world-space box of an object; it refreshes
  the object's world matrix and may fill the geometry's box cache). An empty \<^verbatim>\<open>Box3\<close>, which the
  library stores with infinite corners, is any box whose maximum lies below its minimum; only
  \<^verbatim>\<open>isEmpty\<close> looks at it.
\<close>

record Box3 =
  bmin :: Vector3
  bmax :: Vector3

datatype Matrix4 = Matrix4 Vector3 Vector3 Vector3 Vector3

record BufferGeometry =
  boundingBox :: "Box3 option"
  vertices :: "Vector3 list"

record Mesh =
  position :: Vector3
  quaternion :: "real \<times> real \<times> real \<times> real"
  mesh_scale :: Vector3
  matrixWorld :: Matrix4
  geometry :: nat

record three_lib =
  computeBoundingBox :: "Vector3 list \<Rightarrow> Box3"
  setFromObject :: "Mesh \<Rightarrow> (nat \<Rightarrow> BufferGeometry) \<Rightarrow> Box3 \<times> Mesh \<times> (nat \<Rightarrow> BufferGeometry)"

definition isEmpty :: "Box3 \<Rightarrow> bool" where
  "isEmpty bx \<longleftrightarrow> vx (bmax bx) < vx (bmin bx) \<or> vy (bmax bx) < vy (bmin bx) \<or> vz (bmax bx) < vz (bmin bx)"

definition getCenter :: "Box3 \<Rightarrow> Vector3" where
  "getCenter bx = (if isEmpty bx then Vector3 0 0 0 else multiplyScalar (add_v (bmin bx) (bmax bx)) (1 / 2))"

definition getSize :: "Box3 \<Rightarrow> Vector3" where
  "getSize bx = (if isEmpty bx then Vector3 0 0 0 else sub_v (bmax bx) (bmin bx))"

fun applyMatrix4 :: "Vector3 \<Rightarrow> Matrix4 \<Rightarrow> Vector3" where
  "applyMatrix4 v (Matrix4 c0 c1 c2 t) =
     Vector3 (vx c0 * vx v + vx c1 * vy v + vx c2 * vz v + vx t)
             (vy c0 * vx v + vy c1 * vy v + vy c2 * vz v + vy t)
             (vz c0 * vx v + vz c1 * vy v + vz c2 * vz v + vz t)"

fun setFromMatrix4 :: "Matrix4 \<Rightarrow> Matrix3" where
  "setFromMatrix4 (Matrix4 c0 c1 c2 t) =
     Matrix3 (vx c0) (vy c0) (vz c0)  (vx c1) (vy c1) (vz c1)  (vx c2) (vy c2) (vz c2)"

fun setFromMatrixScale :: "Matrix4 \<Rightarrow> Vector3" where
  "setFromMatrixScale (Matrix4 c0 c1 c2 t) = Vector3 (length_v c0) (length_v c1) (length_v c2)"

definition multiply_v :: "Vector3 \<Rightarrow> Vector3 \<Rightarrow> Vector3" where
  "multiply_v a b = Vector3 (vx a * vx b) (vy a * vy b) (vz a * vz b)"

text \<open>\<^verbatim>\<open>OBB.fromMesh\<close>; the second component is the geometry store with the box cache filled.\<close>

definition fromMesh :: "three_lib \<Rightarrow> Mesh \<Rightarrow> (nat \<Rightarrow> BufferGeometry) \<Rightarrow> OBB \<times> (nat \<Rightarrow> BufferGeometry)" where
  "fromMesh lib m geos =
     (let g = geos (geometry m);
          bx = (case boundingBox g of None \<Rightarrow> computeBoundingBox lib (vertices g) | Some bx \<Rightarrow> bx);
          geos' = geos(geometry m := g\<lparr>boundingBox := Some bx\<rparr>);
          c = getCenter bx;
          size = getSize bx;
          halfExt = multiplyScalar size (1 / 2);
          worldCenter = applyMatrix4 c (matrixWorld m);
          rotationMatrix = setFromMatrix4 (matrixWorld m);
          sc = setFromMatrixScale (matrixWorld m)
      in (\<lparr>center = worldCenter, halfExtents = multiply_v halfExt sc, orientation = rotationMatrix\<rparr>,
          geos'))"

section \<open>The pipeline (HybridCollisionSystem.ts)\<close>

datatype ShapeType = box | cylinder | triangular | sphere

text \<open>A \<^verbatim>\<open>CollisionObject\<close> is itself shared by reference between the registry and the
  collision records, so it lives in a store as well; it owns its OBB.\<close>

record CollisionObject =
  obj_id :: string
  mesh :: nat
  obb :: OBB
  shapeType :: ShapeType

record HybridCollisionResult =
  object1 :: nat
  object2 :: nat
  obbResult :: OBBCollisionResult
  hcr_contactPoint :: Vector3
  hcr_separatingAxis :: Vector3
  hcr_penetrationDepth :: real

text \<open>What \<^verbatim>\<open>createDebugMesh\<close> builds: a box of the OBB's size placed at its centre.\<close>

record DebugMesh =
  dbg_size :: Vector3
  dbg_position :: Vector3
  dbg_orientation :: Matrix3

definition createDebugMesh :: "OBB \<Rightarrow> DebugMesh" where
  "createDebugMesh b =
     \<lparr>dbg_size = Vector3 (vx (halfExtents b) * 2) (vy (halfExtents b) * 2) (vz (halfExtents b) * 2),
      dbg_position = center b, dbg_orientation = orientation b\<rparr>"

record World =
  meshes :: "nat \<Rightarrow> Mesh"
  geometries :: "nat \<Rightarrow> BufferGeometry"
  objs :: "nat \<Rightarrow> CollisionObject"
  nextObj :: nat
  objects :: "(string, nat) alist"
  akashicSystem :: AkashicCollisionSystem
  hybridResults :: "HybridCollisionResult list"
  debugMeshes :: "(string, DebugMesh) alist"
  showDebugOBB :: bool

text \<open>\<^verbatim>\<open>addObject(id, mesh, shapeType)\<close>; the mesh is given by its address.\<close>

definition addObject :: "three_lib \<Rightarrow> string \<Rightarrow> nat \<Rightarrow> ShapeType \<Rightarrow> World \<Rightarrow> World" where
  "addObject lib ident m shape w =
     (let (ob, geos1) = fromMesh lib (meshes w m) (geometries w);
          collisionObject = \<lparr>obj_id = ident, mesh = m, obb = ob, shapeType = shape\<rparr>;
          r = nextObj w;
          (bx, mesh', geos2) = setFromObject lib (meshes w m) geos1;
          c = getCenter bx;
          size = getSize bx;
          ak = createAABB ident (vx c - vx size / 2) (vz c - vz size / 2) (vx size) (vz size)
                 (akashicSystem w)
      in w\<lparr>meshes := (meshes w)(m := mesh'),
           geometries := geos2,
           objs := (objs w)(r := collisionObject),
           nextObj := Suc r,
           objects := DAList.update ident r (objects w),
           akashicSystem := ak,
           debugMeshes := (if showDebugOBB w then DAList.update ident (createDebugMesh ob) (debugMeshes w)
                           else debugMeshes w)\<rparr>)"

definition removeObject :: "string \<Rightarrow> World \<Rightarrow> World" where
  "removeObject ident w =
     w\<lparr>objects := DAList.delete ident (objects w),
       akashicSystem := removeBody ident (akashicSystem w),
       debugMeshes := DAList.delete ident (debugMeshes w)\<rparr>"

definition checkCollisionBetween :: "World \<Rightarrow> string \<Rightarrow> string \<Rightarrow> js_error + HybridCollisionResult option" where
  "checkCollisionBetween w i1 i2 =
     (case (DAList.lookup (objects w) i1, DAList.lookup (objects w) i2) of
        (Some o1, Some o2) \<Rightarrow>
          (case (getBody (akashicSystem w) i1, getBody (akashicSystem w) i2) of
             (Some aabb1, Some aabb2) \<Rightarrow>
               (let overlapX = max 0 (min (aabb_x aabb1 + aabb_width aabb1) (aabb_x aabb2 + aabb_width aabb2)
                                      - max (aabb_x aabb1) (aabb_x aabb2));
                    overlapZ = max 0 (min (aabb_y aabb1 + aabb_height aabb1) (aabb_y aabb2 + aabb_height aabb2)
                                      - max (aabb_y aabb1) (aabb_y aabb2))
                in if overlapX \<le> 0 \<or> overlapZ \<le> 0 then Inr None
                   else
                     (case intersects (obb (objs w o1)) (obb (objs w o2)) of
                        Inl e \<Rightarrow> Inl e
                      | Inr res \<Rightarrow>
                          if \<not> isColliding res then Inr None
                          else Inr (Some \<lparr>object1 = o1, object2 = o2, obbResult = res,
                                          hcr_contactPoint = contactPoint res,
                                          hcr_separatingAxis = separatingAxis res,
                                          hcr_penetrationDepth = penetrationDepth res\<rparr>)))
           | _ \<Rightarrow> Inr None)
      | _ \<Rightarrow> Inr None)"

text \<open>\<^verbatim>\<open>raycast(ray, maxDistance)\<close>: \<^verbatim>\<open>objects.forEach\<close> visits the registered objects in
  insertion order; \<^verbatim>\<open>closestHit\<close> is the loop's state.\<close>

record ObjectHit = RayHit +
  object :: nat

fun raycastLoop :: "(nat \<Rightarrow> CollisionObject) \<Rightarrow> Ray \<Rightarrow> number \<Rightarrow> nat list \<Rightarrow> ObjectHit option
                     \<Rightarrow> js_error + ObjectHit option" where
  "raycastLoop os ray maxDistance [] closestHit = Inr closestHit"
| "raycastLoop os ray maxDistance (r # rest) closestHit =
     (case intersectsRay (obb (os r)) ray of
        Inl e \<Rightarrow> Inl e
      | Inr None \<Rightarrow> raycastLoop os ray maxDistance rest closestHit
      | Inr (Some hit) \<Rightarrow>
          if num_le (distance hit) maxDistance \<and>
             (case closestHit of None \<Rightarrow> True | Some ch \<Rightarrow> num_less (distance hit) (distance ch))
          then raycastLoop os ray maxDistance rest
                 (Some \<lparr>distance = distance hit, point = point hit, object = r\<rparr>)
          else raycastLoop os ray maxDistance rest closestHit)"

definition raycast :: "World \<Rightarrow> Ray \<Rightarrow> number \<Rightarrow> js_error + ObjectHit option" where
  "raycast w ray maxDistance =
     raycastLoop (objs w) ray maxDistance (map snd (DAList.impl_of (objects w))) None"

text \<open>
  \<^verbatim>\<open>resolveCollision(collision, strength)\<close>: the four statements in the source's order; each
  one reads the stores as the previous one left them.
\<close>

definition positionSub :: "nat \<Rightarrow> Vector3 \<Rightarrow> World \<Rightarrow> World" where
  "positionSub m v w =
     w\<lparr>meshes := (meshes w)(m := (meshes w m)\<lparr>position := sub_v (position (meshes w m)) v\<rparr>)\<rparr>"

definition positionAdd :: "nat \<Rightarrow> Vector3 \<Rightarrow> World \<Rightarrow> World" where
  "positionAdd m v w =
     w\<lparr>meshes := (meshes w)(m := (meshes w m)\<lparr>position := add_v (position (meshes w m)) v\<rparr>)\<rparr>"

definition updateFromMesh :: "three_lib \<Rightarrow> nat \<Rightarrow> World \<Rightarrow> World" where
  "updateFromMesh lib r w =
     (let (newOBB, geos') = fromMesh lib (meshes w (mesh (objs w r))) (geometries w)
      in w\<lparr>geometries := geos', objs := (objs w)(r := (objs w r)\<lparr>obb := newOBB\<rparr>)\<rparr>)"

definition resolveCollision :: "three_lib \<Rightarrow> HybridCollisionResult \<Rightarrow> real \<Rightarrow> World \<Rightarrow> World" where
  "resolveCollision lib collision strength w =
     (let mass1 = 1; mass2 = 1;
          totalMass = mass1 + mass2;
          separationVector = multiplyScalar (separatingAxis (obbResult collision))
                               (penetrationDepth (obbResult collision) * strength);
          ratio1 = mass2 / totalMass;
          ratio2 = mass1 / totalMass;
          w1 = positionSub (mesh (objs w (object1 collision)))
                 (multiplyScalar separationVector ratio1) w;
          w2 = positionAdd (mesh (objs w1 (object2 collision)))
                 (multiplyScalar separationVector ratio2) w1;
          w3 = updateFromMesh lib (object1 collision) w2
      in updateFromMesh lib (object2 collision) w3)"


section \<open>Notions used by the properties\<close>

text \<open>The axes the loop of \<^verbatim>\<open>intersects\<close> projects on: the entries of \<^verbatim>\<open>allAxes\<close> that pass the
  loop's length filter, normalised.\<close>

definition tested :: "Vector3 list \<Rightarrow> Vector3 list" where
  "tested axs = map normalize_v (filter (\<lambda>v. \<not> lengthSq v < epsilon) axs)"

definition testedAxes :: "OBB \<Rightarrow> OBB \<Rightarrow> Vector3 list" where
  "testedAxes a b = tested (allAxes a b)"

definition comp :: "Vector3 \<Rightarrow> nat \<Rightarrow> real" where
  "comp v i = (if i = 0 then vx v else if i = 1 then vy v else vz v)"

definition largestHalfExtent :: "OBB \<Rightarrow> real" where
  "largestHalfExtent b = max (vx (halfExtents b)) (max (vy (halfExtents b)) (vz (halfExtents b)))"

definition nonNegativeExtents :: "OBB \<Rightarrow> bool" where
  "nonNegativeExtents b \<longleftrightarrow> 0 \<le> vx (halfExtents b) \<and> 0 \<le> vy (halfExtents b) \<and> 0 \<le> vz (halfExtents b)"

text \<open>A box with identity orientation.\<close>

definition axisAlignedBox :: "Vector3 \<Rightarrow> Vector3 \<Rightarrow> OBB" where
  "axisAlignedBox c h = \<lparr>center = c, halfExtents = h, orientation = identity3\<rparr>"

subsection \<open>Axis-aligned boxes\<close>





subsection \<open>Broad phase\<close>

text \<open>The pairs of positions \<open>i < j\<close> the nested iteration visits, in the order it visits them.\<close>

fun pairsOf :: "'a list \<Rightarrow> ('a \<times> 'a) list" where
  "pairsOf [] = []"
| "pairsOf (x # xs) = map (Pair x) xs @ pairsOf xs"

text \<open>Whether the loop body records a pair, and the record it appends.\<close>

definition colliding :: "(string, AABB) alist \<Rightarrow> string \<times> string \<Rightarrow> bool" where
  "colliding bs p \<longleftrightarrow>
     (case (DAList.lookup bs (fst p), DAList.lookup bs (snd p)) of
        (Some b1, Some b2) \<Rightarrow> checkAABBCollision b1 b2 \<noteq> None | _ \<Rightarrow> False)"

definition resultOf :: "(string, AABB) alist \<Rightarrow> string \<times> string \<Rightarrow> CollisionResult" where
  "resultOf bs p =
     (let b1 = the (DAList.lookup bs (fst p)); b2 = the (DAList.lookup bs (snd p))
      in \<lparr>id1 = fst p, id2 = snd p, body1 = b1, body2 = b2,
          overlap = the (checkAABBCollision b1 b2)\<rparr>)"

text \<open>Two overlapping bodies, registered in this order.\<close>

definition twoBodies :: AkashicCollisionSystem where
  "twoBodies = createAABB ''b'' 1 1 2 2 (createAABB ''a'' 0 0 2 2 newAkashicCollisionSystem)"

subsection \<open>Ray casting\<close>

text \<open>A hit distance is never \<^verbatim>\<open>NaN\<close> and never negative.\<close>

definition validDistance :: "number \<Rightarrow> bool" where
  "validDistance d \<longleftrightarrow> d = PosInfinity \<or> (\<exists>r. 0 \<le> r \<and> d = Finite r)"

text \<open>
  What \<^verbatim>\<open>raycast\<close> is to return for the objects \<open>V\<close>: nothing when no box of \<open>V\<close> is hit within
  \<open>maxDistance\<close>; otherwise an object of \<open>V\<close> with the distance and point \<^verbatim>\<open>intersectsRay\<close> gives
  for its box, within \<open>maxDistance\<close>, and no box of \<open>V\<close> is hit within \<open>maxDistance\<close> at a
  smaller distance.
\<close>

definition closestAmong :: "(nat \<Rightarrow> CollisionObject) \<Rightarrow> Ray \<Rightarrow> number \<Rightarrow> nat set \<Rightarrow> ObjectHit option \<Rightarrow> bool" where
  "closestAmong os ray maxDistance V res \<longleftrightarrow>
     (case res of
        None \<Rightarrow> (\<forall>r\<in>V. \<forall>h. intersectsRay (obb (os r)) ray = Inr (Some h) \<longrightarrow> \<not> num_le (distance h) maxDistance)
      | Some ch \<Rightarrow>
          object ch \<in> V \<and>
          intersectsRay (obb (os (object ch))) ray = Inr (Some \<lparr>distance = distance ch, point = point ch\<rparr>) \<and>
          num_le (distance ch) maxDistance \<and>
          (\<forall>r\<in>V. \<forall>h. intersectsRay (obb (os r)) ray = Inr (Some h) \<and> num_le (distance h) maxDistance
                 \<longrightarrow> num_le (distance ch) (distance h)))"

text \<open>The values \<^verbatim>\<open>tMin\<close> and \<^verbatim>\<open>tMax\<close> take in the slab loop.\<close>

definition lowerBound :: "number \<Rightarrow> bool" where
  "lowerBound t \<longleftrightarrow> t = NegInfinity \<or> (\<exists>r. t = Finite r)"

definition upperBound :: "number \<Rightarrow> bool" where
  "upperBound t \<longleftrightarrow> t = PosInfinity \<or> (\<exists>r. t = Finite r)"

subsection \<open>Example scenes\<close>

text \<open>
  An instance of the two library functions for meshes that are neither rotated nor scaled:
  the box of a vertex list, and the world box as the geometry's box moved to the mesh's
  position, the world matrix being refreshed to that translation.
\<close>

fun boxOfVertices :: "Vector3 list \<Rightarrow> Box3" where
  "boxOfVertices [] = \<lparr>bmin = Vector3 1 1 1, bmax = Vector3 (-1) (-1) (-1)\<rparr>"
| "boxOfVertices (v # vs) =
     foldl (\<lambda>bx p. \<lparr>bmin = Vector3 (min (vx (bmin bx)) (vx p)) (min (vy (bmin bx)) (vy p)) (min (vz (bmin bx)) (vz p)),
                     bmax = Vector3 (max (vx (bmax bx)) (vx p)) (max (vy (bmax bx)) (vy p)) (max (vz (bmax bx)) (vz p))\<rparr>)
           \<lparr>bmin = v, bmax = v\<rparr> vs"

definition translation :: "Vector3 \<Rightarrow> Matrix4" where
  "translation t = Matrix4 (Vector3 1 0 0) (Vector3 0 1 0) (Vector3 0 0 1) t"

definition demoLib :: three_lib where
  "demoLib =
     \<lparr>computeBoundingBox = boxOfVertices,
      setFromObject = (\<lambda>m geos.
        let g = geos (geometry m);
            bx = (case boundingBox g of None \<Rightarrow> boxOfVertices (vertices g) | Some bx \<Rightarrow> bx)
        in (\<lparr>bmin = add_v (bmin bx) (position m), bmax = add_v (bmax bx) (position m)\<rparr>,
            m\<lparr>matrixWorld := translation (position m)\<rparr>,
            geos(geometry m := g\<lparr>boundingBox := Some bx\<rparr>)))\<rparr>"

text \<open>A scene of cubes of edge 2: mesh \<open>n\<close> stands at \<open>(3n/2, 0, 0)\<close>; nothing is registered.\<close>

definition cubeMesh :: "nat \<Rightarrow> Mesh" where
  "cubeMesh n =
     \<lparr>position = Vector3 (3 * real n / 2) 0 0, quaternion = (0, 0, 0, 1), mesh_scale = Vector3 1 1 1,
      matrixWorld = translation (Vector3 (3 * real n / 2) 0 0), geometry = 0\<rparr>"

definition emptyWorld :: World where
  "emptyWorld =
     \<lparr>meshes = cubeMesh,
      geometries = (\<lambda>_. \<lparr>boundingBox = None, vertices = [Vector3 (-1) (-1) (-1), Vector3 1 1 1]\<rparr>),
      objs = (\<lambda>_. \<lparr>obj_id = [], mesh = 0, obb = axisAlignedBox (Vector3 0 0 0) (Vector3 0 0 0),
                    shapeType = box\<rparr>),
      nextObj = 0, objects = DAList.empty, akashicSystem = newAkashicCollisionSystem,
      hybridResults = [], debugMeshes = DAList.empty, showDebugOBB = False\<rparr>"

text \<open>The scene after registering the cube at the origin.\<close>

definition oneBoxWorld :: World where
  "oneBoxWorld = addObject demoLib ''box'' 0 box emptyWorld"

text \<open>The broad-phase rectangle \<^verbatim>\<open>addObject\<close> derives from the world box of a mesh.\<close>

definition footprint :: "Box3 \<Rightarrow> AABB" where
  "footprint bx =
     (let c = getCenter bx; size = getSize bx
      in \<lparr>aabb_x = vx c - vx size / 2, aabb_y = vz c - vz size / 2,
          aabb_width = vx size, aabb_height = vz size\<rparr>)"

text \<open>The scene after registering the cube at \<open>(3/2, 0, 0)\<close> as well.\<close>

definition twoBoxWorld :: World where
  "twoBoxWorld = addObject demoLib ''b'' 1 box oneBoxWorld"

text \<open>
  Collision objects are allocated at increasing addresses of the store \<open>objs\<close>, so that the
  object created by a call of \<^verbatim>\<open>addObject\<close> is distinct from every object registered before,
  as a newly created JavaScript object is. A store is fresh when every registered address lies
  below the next address to be allocated.
\<close>

definition freshStore :: "World \<Rightarrow> bool" where
  "freshStore w \<longleftrightarrow> (\<forall>(j, r) \<in> set (DAList.impl_of (objects w)). r < nextObj w)"

text \<open>The records \<^verbatim>\<open>checkCollisionBetween\<close> returns for the first cube against itself and for
  the two cubes.\<close>

definition selfCollision :: HybridCollisionResult where
  "selfCollision =
     \<lparr>object1 = 0, object2 = 0,
      obbResult = \<lparr>isColliding = True, penetrationDepth = 2, separatingAxis = Vector3 1 0 0,
                   contactPoint = Vector3 1 0 0\<rparr>,
      hcr_contactPoint = Vector3 1 0 0, hcr_separatingAxis = Vector3 1 0 0,
      hcr_penetrationDepth = 2\<rparr>"

definition pairCollision :: HybridCollisionResult where
  "pairCollision =
     \<lparr>object1 = 0, object2 = 1,
      obbResult = \<lparr>isColliding = True, penetrationDepth = 1 / 2, separatingAxis = Vector3 1 0 0,
                   contactPoint = Vector3 1 0 0\<rparr>,
      hcr_contactPoint = Vector3 1 0 0, hcr_separatingAxis = Vector3 1 0 0,
      hcr_penetrationDepth = 1 / 2\<rparr>"

subsection \<open>Candidate axes and two crossing rods\<close>

text \<open>
  The candidate axes in the words of the specification: the three axes of each box and the
  nine pairwise cross products, without those of squared length below the tolerance, each
  normalised.
\<close>

definition candidateAxes :: "OBB \<Rightarrow> OBB \<Rightarrow> Vector3 list" where
  "candidateAxes a b =
     map normalize_v
       (filter (\<lambda>v. \<not> lengthSq v < epsilon)
          (getAxes a @ getAxes b @ concat (map (\<lambda>x. map (cross x) (getAxes b)) (getAxes a))))"

text \<open>The radius of the projection of a box on an axis that need not be normalised.\<close>

definition extentOn :: "OBB \<Rightarrow> Vector3 \<Rightarrow> real" where
  "extentOn b v = \<bar>dot (getAxes b ! 0) v * vx (halfExtents b)\<bar> +
                  \<bar>dot (getAxes b ! 1) v * vy (halfExtents b)\<bar> +
                  \<bar>dot (getAxes b ! 2) v * vz (halfExtents b)\<bar>"

text \<open>
  Two long thin rods of half-length 10000 and half-thickness 1 whose long axes enclose the
  angle with sine 1/1000, the second rod lying 3 above the first along their common
  perpendicular. The cross product of the two long axes has squared length exactly 1/1000000.
\<close>

definition rodCos :: real where
  "rodCos = sqrt 999999 / 1000"

definition rodA :: OBB where
  "rodA = \<lparr>center = Vector3 0 0 0, halfExtents = Vector3 10000 1 1,
            orientation = Matrix3 1 0 0  0 (3/5) (4/5)  0 (-4/5) (3/5)\<rparr>"

definition rodB :: OBB where
  "rodB = \<lparr>center = Vector3 0 0 3, halfExtents = Vector3 10000 1 1,
            orientation = Matrix3 rodCos (1/1000) 0
                                  (-3/5000) (3/5 * rodCos) (4/5)
                                  (4/5000) (-4/5 * rodCos) (3/5)\<rparr>"

text \<open>The local axes of the two rods.\<close>

definition rodA0 :: Vector3 where "rodA0 = Vector3 1 0 0"
definition rodA1 :: Vector3 where "rodA1 = Vector3 0 (3/5) (4/5)"
definition rodA2 :: Vector3 where "rodA2 = Vector3 0 (-4/5) (3/5)"
definition rodB0 :: Vector3 where "rodB0 = Vector3 rodCos (1/1000) 0"
definition rodB1 :: Vector3 where "rodB1 = Vector3 (-3/5000) (3/5 * rodCos) (4/5)"
definition rodB2 :: Vector3 where "rodB2 = Vector3 (4/5000) (-4/5 * rodCos) (3/5)"

text \<open>The second rod lowered until the two rods touch along their common perpendicular.\<close>

definition rodC :: OBB where
  "rodC = rodB\<lparr>center := Vector3 0 0 (14/5)\<rparr>"


section \<open>Double arithmetic\<close>

text \<open>
  A JavaScript number is an IEEE 754 binary64 value, and every arithmetic operation and
  \<^verbatim>\<open>Math.sqrt\<close> return the exact result rounded to the nearest such value, ties to the even
  significand. The function \<open>rnd64\<close> is this rounding for a significand of 53 bits; the range
  of the exponent is not bounded, so that overflow to \<^verbatim>\<open>Infinity\<close> and the subnormal numbers
  are outside the model. The binade of a nonzero \<open>x\<close> is the integer \<open>e\<close> with
  \<open>2^e \<le> |x| < 2^(e+1)\<close>, and the values of that binade are the multiples of \<open>2^(e-52)\<close>.
\<close>

definition binade :: "real \<Rightarrow> int" where
  "binade x = \<lfloor>log 2 \<bar>x\<bar>\<rfloor>"

definition roundEven :: "real \<Rightarrow> int" where
  "roundEven y =
     (let f = \<lfloor>y\<rfloor>
      in if y - of_int f < 1 / 2 then f
         else if y - of_int f > 1 / 2 then f + 1
         else if even f then f else f + 1)"

definition ulp :: "real \<Rightarrow> real" where
  "ulp x = 2 powi (binade x - 52)"

definition rnd64 :: "real \<Rightarrow> real" where
  "rnd64 x = (if x = 0 then 0 else of_int (roundEven (x / ulp x)) * ulp x)"

text \<open>
  The operations of \<^verbatim>\<open>OBB.intersects\<close> once more, with the result of every arithmetic operation
  passed through a rounding function \<open>rnd\<close>, in the order in which the source and three.js
  evaluate them. With the identity for \<open>rnd\<close> these are the exact operations above; with
  \<open>rnd64\<close> they are the operations on doubles. \<^verbatim>\<open>Math.abs\<close>, \<^verbatim>\<open>Math.min\<close>, \<^verbatim>\<open>Math.max\<close>,
  negation and the comparisons are exact on doubles.
\<close>

definition dotR :: "(real \<Rightarrow> real) \<Rightarrow> Vector3 \<Rightarrow> Vector3 \<Rightarrow> real" where
  "dotR rnd a b = rnd (rnd (rnd (vx a * vx b) + rnd (vy a * vy b)) + rnd (vz a * vz b))"

definition crossR :: "(real \<Rightarrow> real) \<Rightarrow> Vector3 \<Rightarrow> Vector3 \<Rightarrow> Vector3" where
  "crossR rnd a b = Vector3 (rnd (rnd (vy a * vz b) - rnd (vz a * vy b)))
                            (rnd (rnd (vz a * vx b) - rnd (vx a * vz b)))
                            (rnd (rnd (vx a * vy b) - rnd (vy a * vx b)))"

definition add_vR :: "(real \<Rightarrow> real) \<Rightarrow> Vector3 \<Rightarrow> Vector3 \<Rightarrow> Vector3" where
  "add_vR rnd a b = Vector3 (rnd (vx a + vx b)) (rnd (vy a + vy b)) (rnd (vz a + vz b))"

definition sub_vR :: "(real \<Rightarrow> real) \<Rightarrow> Vector3 \<Rightarrow> Vector3 \<Rightarrow> Vector3" where
  "sub_vR rnd a b = Vector3 (rnd (vx a - vx b)) (rnd (vy a - vy b)) (rnd (vz a - vz b))"

definition multiplyScalarR :: "(real \<Rightarrow> real) \<Rightarrow> Vector3 \<Rightarrow> real \<Rightarrow> Vector3" where
  "multiplyScalarR rnd a s = Vector3 (rnd (vx a * s)) (rnd (vy a * s)) (rnd (vz a * s))"

definition lengthSqR :: "(real \<Rightarrow> real) \<Rightarrow> Vector3 \<Rightarrow> real" where
  "lengthSqR rnd a = rnd (rnd (rnd (vx a * vx a) + rnd (vy a * vy a)) + rnd (vz a * vz a))"

definition lengthR :: "(real \<Rightarrow> real) \<Rightarrow> Vector3 \<Rightarrow> real" where
  "lengthR rnd a = rnd (sqrt (lengthSqR rnd a))"

definition normalizeR :: "(real \<Rightarrow> real) \<Rightarrow> Vector3 \<Rightarrow> Vector3" where
  "normalizeR rnd a =
     multiplyScalarR rnd a (rnd (1 / (if lengthR rnd a = 0 then 1 else lengthR rnd a)))"

fun applyMatrix3R :: "(real \<Rightarrow> real) \<Rightarrow> Vector3 \<Rightarrow> Matrix3 \<Rightarrow> Vector3" where
  "applyMatrix3R rnd v (Matrix3 e0 e1 e2 e3 e4 e5 e6 e7 e8) =
     Vector3 (rnd (rnd (rnd (e0 * vx v) + rnd (e3 * vy v)) + rnd (e6 * vz v)))
             (rnd (rnd (rnd (e1 * vx v) + rnd (e4 * vy v)) + rnd (e7 * vz v)))
             (rnd (rnd (rnd (e2 * vx v) + rnd (e5 * vy v)) + rnd (e8 * vz v)))"

definition getAxesR :: "(real \<Rightarrow> real) \<Rightarrow> OBB \<Rightarrow> Vector3 list" where
  "getAxesR rnd b = [applyMatrix3R rnd (Vector3 1 0 0) (orientation b),
                     applyMatrix3R rnd (Vector3 0 1 0) (orientation b),
                     applyMatrix3R rnd (Vector3 0 0 1) (orientation b)]"

definition projectOnAxisR :: "(real \<Rightarrow> real) \<Rightarrow> OBB \<Rightarrow> Vector3 \<Rightarrow> Projection" where
  "projectOnAxisR rnd b axis =
     (let axes = getAxesR rnd b;
          centerProjection = dotR rnd (center b) axis;
          extent = rnd (rnd (\<bar>rnd (dotR rnd (axes ! 0) axis * vx (halfExtents b))\<bar> +
                             \<bar>rnd (dotR rnd (axes ! 1) axis * vy (halfExtents b))\<bar>) +
                        \<bar>rnd (dotR rnd (axes ! 2) axis * vz (halfExtents b))\<bar>)
      in \<lparr>pmin = rnd (centerProjection - extent), pmax = rnd (centerProjection + extent)\<rparr>)"

text \<open>The literal \<^verbatim>\<open>1e-6\<close> denotes the double nearest to 1/1000000.\<close>

definition epsilonR :: "(real \<Rightarrow> real) \<Rightarrow> real" where
  "epsilonR rnd = rnd epsilon"

fun crossInnerR :: "(real \<Rightarrow> real) \<Rightarrow> Vector3 \<Rightarrow> Vector3 list \<Rightarrow> Vector3 list" where
  "crossInnerR rnd axis1 [] = []"
| "crossInnerR rnd axis1 (axis2 # rest) =
     (let c = crossR rnd axis1 axis2
      in if lengthSqR rnd c > epsilonR rnd then c # crossInnerR rnd axis1 rest
         else crossInnerR rnd axis1 rest)"

fun getCrossProductAxesR :: "(real \<Rightarrow> real) \<Rightarrow> Vector3 list \<Rightarrow> Vector3 list \<Rightarrow> Vector3 list" where
  "getCrossProductAxesR rnd [] axes2 = []"
| "getCrossProductAxesR rnd (axis1 # rest) axes2 =
     crossInnerR rnd axis1 axes2 @ getCrossProductAxesR rnd rest axes2"

definition overlapOnR :: "(real \<Rightarrow> real) \<Rightarrow> OBB \<Rightarrow> OBB \<Rightarrow> Vector3 \<Rightarrow> real" where
  "overlapOnR rnd a b axis =
     (let projection1 = projectOnAxisR rnd a axis;
          projection2 = projectOnAxisR rnd b axis
      in rnd (min (pmax projection1) (pmax projection2) - max (pmin projection1) (pmin projection2)))"

fun axisLoopR :: "(real \<Rightarrow> real) \<Rightarrow> OBB \<Rightarrow> OBB \<Rightarrow> Vector3 list \<Rightarrow> (real \<times> Vector3) option
                   \<Rightarrow> loop_exit" where
  "axisLoopR rnd a b [] best = Finished best"
| "axisLoopR rnd a b (axis0 # rest) best =
     (if lengthSqR rnd axis0 < epsilonR rnd then axisLoopR rnd a b rest best
      else
        let axis = normalizeR rnd axis0;
            overlap = overlapOnR rnd a b axis
        in if overlap \<le> 0 then Separated axis
           else if (case best of None \<Rightarrow> True | Some (minPenetration, _) \<Rightarrow> overlap < minPenetration)
                then axisLoopR rnd a b rest (Some (overlap, axis))
                else axisLoopR rnd a b rest best)"

definition calculateContactPointR :: "(real \<Rightarrow> real) \<Rightarrow> OBB \<Rightarrow> OBB \<Rightarrow> Vector3 \<Rightarrow> Vector3" where
  "calculateContactPointR rnd a b sepAxis =
     (let thisProjection = projectOnAxisR rnd a sepAxis;
          otherProjection = projectOnAxisR rnd b sepAxis
      in if pmax thisProjection < pmax otherProjection
         then add_vR rnd (center a)
                (multiplyScalarR rnd sepAxis (rnd (pmax thisProjection - dotR rnd (center a) sepAxis)))
         else add_vR rnd (center b)
                (multiplyScalarR rnd sepAxis (rnd (pmax otherProjection - dotR rnd (center b) sepAxis))))"

definition allAxesR :: "(real \<Rightarrow> real) \<Rightarrow> OBB \<Rightarrow> OBB \<Rightarrow> Vector3 list" where
  "allAxesR rnd a b =
     getAxesR rnd a @ getAxesR rnd b @ getCrossProductAxesR rnd (getAxesR rnd a) (getAxesR rnd b)"

definition intersectsR :: "(real \<Rightarrow> real) \<Rightarrow> OBB \<Rightarrow> OBB \<Rightarrow> js_error + OBBCollisionResult" where
  "intersectsR rnd a b =
     (case axisLoopR rnd a b (allAxesR rnd a b) None of
        Separated axis \<Rightarrow>
          Inr \<lparr>isColliding = False, penetrationDepth = 0, separatingAxis = axis,
               contactPoint = Vector3 0 0 0\<rparr>
      | Finished None \<Rightarrow> Inl TypeError
      | Finished (Some (minPenetration, sepAxis)) \<Rightarrow>
          (let contact = calculateContactPointR rnd a b sepAxis;
               centerDifference = sub_vR rnd (center b) (center a);
               sepAxis' = (if dotR rnd sepAxis centerDifference < 0 then negate sepAxis else sepAxis)
           in Inr \<lparr>isColliding = True, penetrationDepth = minPenetration,
                   separatingAxis = sepAxis', contactPoint = contact\<rparr>))"

subsection \<open>Tested axes and extents in double arithmetic\<close>

text \<open>The axes the loop projects on, and the radius of the projection of a box on an axis, as
  computed with rounding.\<close>

definition testedR :: "(real \<Rightarrow> real) \<Rightarrow> Vector3 list \<Rightarrow> Vector3 list" where
  "testedR rnd axs = map (normalizeR rnd) (filter (\<lambda>v. \<not> lengthSqR rnd v < epsilonR rnd) axs)"

definition testedAxesR :: "(real \<Rightarrow> real) \<Rightarrow> OBB \<Rightarrow> OBB \<Rightarrow> Vector3 list" where
  "testedAxesR rnd a b = testedR rnd (allAxesR rnd a b)"

definition extentOnR :: "(real \<Rightarrow> real) \<Rightarrow> OBB \<Rightarrow> Vector3 \<Rightarrow> real" where
  "extentOnR rnd b v =
     rnd (rnd (\<bar>rnd (dotR rnd (getAxesR rnd b ! 0) v * vx (halfExtents b))\<bar> +
               \<bar>rnd (dotR rnd (getAxesR rnd b ! 1) v * vy (halfExtents b))\<bar>) +
          \<bar>rnd (dotR rnd (getAxesR rnd b ! 2) v * vz (halfExtents b))\<bar>)"

subsection \<open>Two axis-aligned boxes with decimal coordinates\<close>

text \<open>
  The doubles denoted by the literals \<^verbatim>\<open>0.3\<close> and \<^verbatim>\<open>0.1\<close>, and the doubles \<^verbatim>\<open>0.3 + 0.1\<close>,
  \<^verbatim>\<open>0.3 - 0.1\<close> and their difference as computed in double arithmetic.
\<close>

definition d03 :: real where "d03 = 5404319552844595 / 2 ^ 54"
definition d01 :: real where "d01 = 3602879701896397 / 2 ^ 55"
definition d04 :: real where "d04 = 3602879701896397 / 2 ^ 53"
definition d02 :: real where "d02 = 7205759403792793 / 2 ^ 55"
definition dhi :: real where "dhi = 7205759403792795 / 2 ^ 55"

text \<open>A cube of half-extent \<^verbatim>\<open>0.1\<close> centred at \<^verbatim>\<open>(0.3, 0.3, 0.3)\<close>, inside a cube of half-extent
  100 centred at the origin; both have the identity orientation.\<close>

definition smallBox :: OBB where
  "smallBox = axisAlignedBox (Vector3 d03 d03 d03) (Vector3 d01 d01 d01)"

definition bigBox :: OBB where
  "bigBox = axisAlignedBox (Vector3 0 0 0) (Vector3 100 100 100)"

subsection \<open>A rotated box without thickness\<close>

text \<open>
  The doubles nearest to 105/137 and 88/137, the cosine and sine of a rotation about the z axis
  (105, 88, 137 is a Pythagorean triple), and a box of half-extents \<open>(0, 1, 1)\<close> at the origin
  whose orientation is that rotation stored in doubles. The unit cube at the origin has the
  identity orientation.
\<close>

definition c64 :: real where "c64 = 6903327895969373 / 2 ^ 53"
definition s64 :: real where "s64 = 5785646236621951 / 2 ^ 53"

definition flatBox :: OBB where
  "flatBox = \<lparr>center = Vector3 0 0 0, halfExtents = Vector3 0 1 1,
              orientation = Matrix3 c64 s64 0  (- s64) c64 0  0 0 1\<rparr>"

definition unitCube :: OBB where
  "unitCube = axisAlignedBox (Vector3 0 0 0) (Vector3 1 1 1)"

section \<open>Properties\<close>

subsection \<open>The separating-axis loop\<close>

lemma tested_simps [simp]:
  "tested [] = []"
  "tested (v # vs) = (if lengthSq v < epsilon then tested vs else normalize_v v # tested vs)"
  by (simp_all add: tested_def)

lemma axisLoop_Separated_iff:
  "(\<exists>ax. axisLoop a b axs best = Separated ax) \<longleftrightarrow> (\<exists>u\<in>set (tested axs). overlapOn a b u \<le> 0)"
  by (induction axs arbitrary: best) (auto simp: Let_def)

lemma axisLoop_Finished_None:
  "axisLoop a b axs best = Finished None \<Longrightarrow> best = None \<and> tested axs = []"
  by (induction axs arbitrary: best) (fastforce simp: Let_def split: if_splits)+

lemma axisLoop_Finished_Some:
  "axisLoop a b axs best = Finished (Some (m, ax)) \<Longrightarrow>
     (\<forall>u\<in>set (tested axs). m \<le> overlapOn a b u) \<and>
     (\<forall>m0 ax0. best = Some (m0, ax0) \<longrightarrow> m \<le> m0) \<and>
     ((ax \<in> set (tested axs) \<and> m = overlapOn a b ax) \<or> best = Some (m, ax))"
proof (induction axs arbitrary: best)
  case Nil
  then show ?case by simp
next
  case (Cons v vs)
  show ?case
  proof (cases "lengthSq v < epsilon")
    case True
    with Cons show ?thesis by simp
  next
    case False
    let ?u = "normalize_v v"
    from Cons.prems False have pos: "\<not> overlapOn a b ?u \<le> 0"
      by (auto simp: Let_def split: if_splits)
    show ?thesis
    proof (cases "case best of None \<Rightarrow> True | Some (mp, _) \<Rightarrow> overlapOn a b ?u < mp")
      case True
      with Cons.prems False pos
      have "axisLoop a b vs (Some (overlapOn a b ?u, ?u)) = Finished (Some (m, ax))"
        by (simp add: Let_def)
      from Cons.IH[OF this] True False show ?thesis
        by (auto split: option.splits)
    next
      case nupd: False
      with Cons.prems False pos
      have "axisLoop a b vs best = Finished (Some (m, ax))"
        by (simp add: Let_def)
      from Cons.IH[OF this] nupd False show ?thesis
        by (auto split: option.splits)
    qed
  qed
qed

lemma testedAxes_tested: "testedAxes a b = tested (allAxes a b)"
  by (simp add: testedAxes_def)

lemma intersects_separated:
  assumes "\<exists>u\<in>set (testedAxes a b). overlapOn a b u \<le> 0"
  shows "\<exists>r. intersects a b = Inr r \<and> \<not> isColliding r \<and> penetrationDepth r = 0"
proof -
  from assms obtain ax where "axisLoop a b (allAxes a b) None = Separated ax"
    using axisLoop_Separated_iff[of a b "allAxes a b" None] by (auto simp: testedAxes_tested)
  then show ?thesis by (simp add: intersects_def)
qed

lemma intersects_overlapping:
  assumes ne: "testedAxes a b \<noteq> []"
    and pos: "\<forall>u\<in>set (testedAxes a b). 0 < overlapOn a b u"
  shows "\<exists>r. intersects a b = Inr r \<and> isColliding r \<and>
             penetrationDepth r = Min (overlapOn a b ` set (testedAxes a b))"
proof -
  have "\<not> (\<exists>ax. axisLoop a b (allAxes a b) None = Separated ax)"
    using pos axisLoop_Separated_iff[of a b "allAxes a b" None]
    by (auto simp: testedAxes_tested not_le)
  then obtain best where fin: "axisLoop a b (allAxes a b) None = Finished best"
    by (cases "axisLoop a b (allAxes a b) None") auto
  with ne axisLoop_Finished_None[of a b "allAxes a b" None]
  obtain m ax where best: "best = Some (m, ax)"
    by (cases best) (auto simp: testedAxes_tested)
  from axisLoop_Finished_Some[of a b "allAxes a b" None m ax] fin best
  have le: "\<forall>u\<in>set (testedAxes a b). m \<le> overlapOn a b u"
    and mem: "ax \<in> set (testedAxes a b)" "m = overlapOn a b ax"
    by (auto simp: testedAxes_tested)
  have "Min (overlapOn a b ` set (testedAxes a b)) = m"
    by (rule Min_eqI) (use le mem in auto)
  with fin best show ?thesis
    by (simp add: intersects_def Let_def)
qed

lemma intersects_no_axis:
  "testedAxes a b = [] \<Longrightarrow> intersects a b = Inl TypeError"
proof -
  assume e: "testedAxes a b = []"
  then have "\<not> (\<exists>ax. axisLoop a b (allAxes a b) None = Separated ax)"
    using axisLoop_Separated_iff[of a b "allAxes a b" None] by (simp add: testedAxes_tested)
  then obtain best where fin: "axisLoop a b (allAxes a b) None = Finished best"
    by (cases "axisLoop a b (allAxes a b) None") auto
  have "best = None"
  proof (cases best)
    case (Some p)
    obtain m ax where "p = (m, ax)" by (cases p)
    with Some fin axisLoop_Finished_Some[of a b "allAxes a b" None m ax] e
    show ?thesis by (simp add: testedAxes_tested)
  qed simp
  with fin show ?thesis by (simp add: intersects_def)
qed


subsection \<open>Boxes with orthonormal orientation\<close>

lemma dot_commute: "dot a b = dot b a"
  by (simp add: dot_def mult.commute)

lemma lengthSq_dot: "lengthSq v = dot v v"
  by (simp add: lengthSq_def dot_def)

lemma normalize_unit: "dot v v = 1 \<Longrightarrow> normalize_v v = v"
  by (cases v) (simp add: normalize_v_def length_v_def lengthSq_dot multiplyScalar_def)

lemma orthonormal_axes:
  assumes "orthonormal (orientation b)" "i < 3" "j < 3"
  shows "dot (getAxes b ! i) (getAxes b ! j) = (if i = j then 1 else 0)"
proof -
  from assms(2) have i: "i = 0 \<or> i = 1 \<or> i = 2" by auto
  from assms(3) have j: "j = 0 \<or> j = 1 \<or> j = 2" by auto
  let ?a0 = "applyMatrix3 (Vector3 1 0 0) (orientation b)"
  let ?a1 = "applyMatrix3 (Vector3 0 1 0) (orientation b)"
  let ?a2 = "applyMatrix3 (Vector3 0 0 1) (orientation b)"
  from assms(1) have o: "dot ?a0 ?a0 = 1" "dot ?a1 ?a1 = 1" "dot ?a2 ?a2 = 1"
    "dot ?a0 ?a1 = 0" "dot ?a0 ?a2 = 0" "dot ?a1 ?a2 = 0"
    by (simp_all add: orthonormal_def Let_def)
  then have o': "dot ?a1 ?a0 = 0" "dot ?a2 ?a0 = 0" "dot ?a2 ?a1 = 0"
    by (simp_all add: dot_commute)
  from i j o o' show ?thesis
    by (auto simp: getAxes_def)
qed

lemma own_axis_allAxes:
  "i < 3 \<Longrightarrow> getAxes a ! i \<in> set (allAxes a b)" "i < 3 \<Longrightarrow> getAxes b ! i \<in> set (allAxes a b)"
  by (auto simp: allAxes_def getAxes_def nth_Cons split: nat.splits)

lemma tested_mem: "v \<in> set axs \<Longrightarrow> \<not> lengthSq v < epsilon \<Longrightarrow> normalize_v v \<in> set (tested axs)"
  by (auto simp: tested_def)

lemma unit_axis_tested:
  assumes "v \<in> set (allAxes a b)" "dot v v = 1"
  shows "v \<in> set (testedAxes a b)"
proof -
  have "\<not> lengthSq v < epsilon" using assms(2) by (simp add: lengthSq_dot epsilon_def)
  from tested_mem[OF assms(1) this] normalize_unit[OF assms(2)]
  show ?thesis by (simp add: testedAxes_tested)
qed

lemma own_axis_tested:
  assumes "orthonormal (orientation a)" "i < 3"
  shows "getAxes a ! i \<in> set (testedAxes a b)" "getAxes a ! i \<in> set (testedAxes b a)"
  using unit_axis_tested own_axis_allAxes assms orthonormal_axes[OF assms(1) assms(2) assms(2)]
  by auto

lemma extent_own_axis:
  assumes "orthonormal (orientation a)" "i < 3"
  shows "pmax (projectOnAxis a (getAxes a ! i)) - pmin (projectOnAxis a (getAxes a ! i))
         = 2 * \<bar>comp (halfExtents a) i\<bar>"
proof -
  have d: "\<And>j. j < 3 \<Longrightarrow> dot (getAxes a ! j) (getAxes a ! i) = (if j = i then 1 else 0)"
    using orthonormal_axes[OF assms(1) _ assms(2)] by simp
  from assms(2) have "i = 0 \<or> i = 1 \<or> i = 2" by auto
  then show ?thesis
    using d[of 0] d[of 1] d[of 2]
    by (auto simp: projectOnAxis_def Let_def comp_def)
qed

lemma overlap_le_width:
  "overlapOn a b u \<le> pmax (projectOnAxis a u) - pmin (projectOnAxis a u)"
  "overlapOn a b u \<le> pmax (projectOnAxis b u) - pmin (projectOnAxis b u)"
  by (simp_all add: overlapOn_def Let_def)

lemma overlap_own_axis:
  assumes "orthonormal (orientation a)" "i < 3"
  shows "overlapOn a b (getAxes a ! i) \<le> 2 * \<bar>comp (halfExtents a) i\<bar>"
    and "overlapOn b a (getAxes a ! i) \<le> 2 * \<bar>comp (halfExtents a) i\<bar>"
  using overlap_le_width[of a b "getAxes a ! i"] overlap_le_width[of b a "getAxes a ! i"]
    extent_own_axis[OF assms] by simp_all


lemma orthonormal_identity3: "orthonormal identity3"
  by (simp add: orthonormal_def identity3_def dot_def)

lemma axisAlignedBox_simps [simp]:
  "center (axisAlignedBox c h) = c"
  "halfExtents (axisAlignedBox c h) = h"
  "orientation (axisAlignedBox c h) = identity3"
  by (simp_all add: axisAlignedBox_def)

lemma testedAxes_nonempty:
  "orthonormal (orientation a) \<Longrightarrow> testedAxes a b \<noteq> []"
  "orthonormal (orientation a) \<Longrightarrow> testedAxes b a \<noteq> []"
  using own_axis_tested[of a 0 b] by auto

lemma intersects_total:
  assumes "orthonormal (orientation a) \<or> orthonormal (orientation b)"
  shows "\<exists>r. intersects a b = Inr r \<and>
           (isColliding r \<longleftrightarrow> (\<forall>u\<in>set (testedAxes a b). 0 < overlapOn a b u)) \<and>
           penetrationDepth r = (if isColliding r then Min (overlapOn a b ` set (testedAxes a b)) else 0)"
proof (cases "\<forall>u\<in>set (testedAxes a b). 0 < overlapOn a b u")
  case True
  from assms have "testedAxes a b \<noteq> []" using testedAxes_nonempty by blast
  from intersects_overlapping[OF this True] True show ?thesis by auto
next
  case False
  then have "\<exists>u\<in>set (testedAxes a b). overlapOn a b u \<le> 0" by (auto simp: not_less)
  from intersects_separated[OF this] False show ?thesis by auto
qed

subsection \<open>Degenerate boxes and the penetration bound in exact arithmetic\<close>

lemma zero_extent_exact:
  assumes "orthonormal (orientation a)" and "orthonormal (orientation b)"
    and "vx (halfExtents a) = 0 \<or> vy (halfExtents a) = 0 \<or> vz (halfExtents a) = 0"
  shows "\<exists>r. intersects a b = Inr r \<and> \<not> isColliding r"
proof -
  have "\<exists>i<3. comp (halfExtents a) i = 0"
  proof -
    from assms(3) consider "comp (halfExtents a) 0 = 0" | "comp (halfExtents a) 1 = 0"
      | "comp (halfExtents a) 2 = 0"
      by (auto simp: comp_def)
    then show ?thesis
    proof cases
      case 1 then show ?thesis by (intro exI[of _ 0]) simp
    next
      case 2 then show ?thesis by (intro exI[of _ 1]) simp
    next
      case 3 then show ?thesis by (intro exI[of _ 2]) simp
    qed
  qed
  then obtain i where i: "i < 3" "comp (halfExtents a) i = 0" by blast
  from overlap_own_axis(1)[OF assms(1) i(1), of b] i(2)
  have "overlapOn a b (getAxes a ! i) \<le> 0" by simp
  with own_axis_tested(1)[OF assms(1) i(1), of b]
  have "\<exists>u\<in>set (testedAxes a b). overlapOn a b u \<le> 0" by blast
  from intersects_separated[OF this] show ?thesis by blast
qed

lemma penetration_bounds_exact:
  assumes oa: "orthonormal (orientation a)" and ob: "orthonormal (orientation b)"
    and na: "nonNegativeExtents a" and nb: "nonNegativeExtents b"
  shows "\<exists>r. intersects a b = Inr r \<and> 0 \<le> penetrationDepth r \<and>
           (\<not> isColliding r \<longrightarrow> penetrationDepth r = 0) \<and>
           (isColliding r \<longrightarrow> 0 < penetrationDepth r \<and>
              penetrationDepth r \<le> 2 * min (largestHalfExtent a) (largestHalfExtent b))"
proof -
  from intersects_total[of a b] oa obtain r where r: "intersects a b = Inr r"
    "isColliding r \<longleftrightarrow> (\<forall>u\<in>set (testedAxes a b). 0 < overlapOn a b u)"
    "penetrationDepth r = (if isColliding r then Min (overlapOn a b ` set (testedAxes a b)) else 0)"
    by blast
  let ?S = "overlapOn a b ` set (testedAxes a b)"
  have fin: "finite ?S" by simp
  have ne: "?S \<noteq> {}" using testedAxes_nonempty(1)[OF oa, of b] by simp
  have col: "0 < penetrationDepth r \<and>
             penetrationDepth r \<le> 2 * min (largestHalfExtent a) (largestHalfExtent b)"
    if c: "isColliding r"
  proof -
    from c r(3) have d: "penetrationDepth r = Min ?S" by simp
    from c r(2) have "\<forall>x\<in>?S. 0 < x" by auto
    then have pos: "0 < Min ?S" using fin ne by simp
    have "overlapOn a b (getAxes a ! 0) \<in> ?S" using own_axis_tested(1)[OF oa, of 0 b] by simp
    then have "Min ?S \<le> overlapOn a b (getAxes a ! 0)" using fin by simp
    also have "\<dots> \<le> 2 * \<bar>comp (halfExtents a) 0\<bar>" using overlap_own_axis(1)[OF oa, of 0 b] by simp
    also have "\<dots> \<le> 2 * largestHalfExtent a"
      using na by (simp add: comp_def nonNegativeExtents_def largestHalfExtent_def)
    finally have A: "Min ?S \<le> 2 * largestHalfExtent a" .
    have "overlapOn a b (getAxes b ! 0) \<in> ?S" using own_axis_tested(2)[OF ob, of 0 a] by simp
    then have "Min ?S \<le> overlapOn a b (getAxes b ! 0)" using fin by simp
    also have "\<dots> \<le> 2 * \<bar>comp (halfExtents b) 0\<bar>" using overlap_own_axis(2)[OF ob, of 0 a] by simp
    also have "\<dots> \<le> 2 * largestHalfExtent b"
      using nb by (simp add: comp_def nonNegativeExtents_def largestHalfExtent_def)
    finally have B: "Min ?S \<le> 2 * largestHalfExtent b" .
    from pos A B d show ?thesis by simp
  qed
  show ?thesis
  proof (cases "isColliding r")
    case True
    with col r(1) show ?thesis by auto
  next
    case False
    with r(1) r(3) show ?thesis by auto
  qed
qed


subsection \<open>Point containment and touching boxes\<close>

lemma getComponent_comp: "i < 3 \<Longrightarrow> getComponent v i = Inr (comp v i)"
  by (auto simp: comp_def)

lemma containsLoop_inside:
  assumes "\<forall>i\<in>set is. i < 3 \<and> \<bar>dot lp (getAxes b ! i)\<bar> \<le> comp (halfExtents b) i"
  shows "containsLoop b lp is = Inr True"
  using assms
proof (induction "is")
  case Nil
  show ?case by simp
next
  case (Cons i rest)
  then have "i < 3" "\<not> \<bar>dot lp (getAxes b ! i)\<bar> > comp (halfExtents b) i"
    "containsLoop b lp rest = Inr True" by auto
  then show ?case
    by (simp add: getComponent_comp Let_def del: getComponent.simps)
qed

lemma getAxes_identity:
  "orientation b = identity3 \<Longrightarrow> getAxes b = [Vector3 1 0 0, Vector3 0 1 0, Vector3 0 0 1]"
  by (simp add: getAxes_def identity3_def)


subsection \<open>Symmetry\<close>

lemma overlapOn_commute: "overlapOn a b u = overlapOn b a u"
  by (simp add: overlapOn_def Let_def min.commute max.commute)

lemma dot_negate: "dot x (negate u) = - dot x u"
  by (simp add: dot_def negate_def)

lemma projectOnAxis_negate:
  "pmin (projectOnAxis a (negate u)) = - pmax (projectOnAxis a u)"
  "pmax (projectOnAxis a (negate u)) = - pmin (projectOnAxis a u)"
  by (simp_all add: projectOnAxis_def Let_def dot_negate)

lemma overlapOn_negate: "overlapOn a b (negate u) = overlapOn a b u"
  by (simp add: overlapOn_def Let_def projectOnAxis_negate min_def max_def)

lemma cross_swap: "cross y x = negate (cross x y)"
  by (simp add: cross_def negate_def)

lemma lengthSq_negate: "lengthSq (negate v) = lengthSq v"
  by (simp add: lengthSq_def negate_def)

lemma normalize_negate: "normalize_v (negate v) = negate (normalize_v v)"
proof -
  have "length_v (negate v) = length_v v" by (simp add: length_v_def lengthSq_negate)
  then show ?thesis
    by (simp add: normalize_v_def multiplyScalar_def negate_def)
qed

lemma set_crossInner:
  "set (crossInner x ys) = {cross x y | y. y \<in> set ys \<and> lengthSq (cross x y) > epsilon}"
  by (induction ys) (auto simp: Let_def)

lemma set_getCrossProductAxes:
  "set (getCrossProductAxes xs ys) =
     {cross x y | x y. x \<in> set xs \<and> y \<in> set ys \<and> lengthSq (cross x y) > epsilon}"
  by (induction xs) (auto simp: set_crossInner)

lemma set_tested: "set (tested axs) = normalize_v ` {v \<in> set axs. \<not> lengthSq v < epsilon}"
  by (auto simp: tested_def)

lemma set_testedAxes:
  "set (testedAxes a b) =
     normalize_v ` ({v \<in> set (getAxes a) \<union> set (getAxes b). \<not> lengthSq v < epsilon} \<union>
                    {cross x y | x y. x \<in> set (getAxes a) \<and> y \<in> set (getAxes b) \<and>
                                      lengthSq (cross x y) > epsilon})"
  by (auto simp: testedAxes_def set_tested allAxes_def set_getCrossProductAxes)

lemma overlaps_swap_subset:
  "overlapOn b a ` set (testedAxes b a) \<subseteq> overlapOn a b ` set (testedAxes a b)"
proof
  fix t assume "t \<in> overlapOn b a ` set (testedAxes b a)"
  then obtain u where u: "u \<in> set (testedAxes b a)" and t: "t = overlapOn b a u" by blast
  from u consider v where "v \<in> set (getAxes a) \<union> set (getAxes b)" "\<not> lengthSq v < epsilon" "u = normalize_v v"
    | y x where "y \<in> set (getAxes b)" "x \<in> set (getAxes a)" "lengthSq (cross y x) > epsilon"
        "u = normalize_v (cross y x)"
    unfolding set_testedAxes by blast
  then show "t \<in> overlapOn a b ` set (testedAxes a b)"
  proof cases
    case 1
    then have "u \<in> set (testedAxes a b)" unfolding set_testedAxes by blast
    with t show ?thesis by (auto simp: overlapOn_commute[of b a])
  next
    case 2
    let ?w = "normalize_v (cross x y)"
    from 2 have "lengthSq (cross x y) > epsilon"
      by (simp add: cross_swap[of y x] lengthSq_negate)
    with 2 have "?w \<in> set (testedAxes a b)" unfolding set_testedAxes by blast
    moreover have "overlapOn a b ?w = t"
      using 2(4) t by (simp add: cross_swap[of y x] normalize_negate overlapOn_negate overlapOn_commute[of b a])
    ultimately show ?thesis by blast
  qed
qed

lemma overlaps_swap: "overlapOn b a ` set (testedAxes b a) = overlapOn a b ` set (testedAxes a b)"
  using overlaps_swap_subset[of a b] overlaps_swap_subset[of b a] by blast

text \<open>
  Claim C3. For boxes \<open>a\<close> and \<open>b\<close> with orthonormal orientations, \<^verbatim>\<open>a.intersects(b)\<close> and
  \<^verbatim>\<open>b.intersects(a)\<close> both return a result, the two results agree on \<^verbatim>\<open>isColliding\<close>, and their
  penetration depths are equal.
\<close>

theorem intersects_symmetric:
  assumes "orthonormal (orientation a)" and "orthonormal (orientation b)"
  shows "\<exists>r1 r2. intersects a b = Inr r1 \<and> intersects b a = Inr r2 \<and>
           isColliding r1 = isColliding r2 \<and> penetrationDepth r1 = penetrationDepth r2"
proof -
  from intersects_total[of a b] assms obtain r1 where r1: "intersects a b = Inr r1"
    "isColliding r1 \<longleftrightarrow> (\<forall>u\<in>set (testedAxes a b). 0 < overlapOn a b u)"
    "penetrationDepth r1 = (if isColliding r1 then Min (overlapOn a b ` set (testedAxes a b)) else 0)"
    by blast
  from intersects_total[of b a] assms obtain r2 where r2: "intersects b a = Inr r2"
    "isColliding r2 \<longleftrightarrow> (\<forall>u\<in>set (testedAxes b a). 0 < overlapOn b a u)"
    "penetrationDepth r2 = (if isColliding r2 then Min (overlapOn b a ` set (testedAxes b a)) else 0)"
    by blast
  have "isColliding r1 \<longleftrightarrow> (\<forall>t\<in>overlapOn a b ` set (testedAxes a b). 0 < t)"
    using r1(2) by auto
  also have "\<dots> \<longleftrightarrow> (\<forall>t\<in>overlapOn b a ` set (testedAxes b a). 0 < t)"
    by (simp only: overlaps_swap)
  also have "\<dots> \<longleftrightarrow> isColliding r2" using r2(2) by auto
  finally have c: "isColliding r1 = isColliding r2" .
  with r1(3) r2(3) have "penetrationDepth r1 = penetrationDepth r2"
    by (simp add: overlaps_swap[of a b])
  with c r1(1) r2(1) show ?thesis by blast
qed

theorem intersects_symmetric_witness:
  "\<exists>r1 r2. intersects (axisAlignedBox (Vector3 0 0 0) (Vector3 1 1 1))
                      (axisAlignedBox (Vector3 (3/2) 0 0) (Vector3 1 1 1)) = Inr r1 \<and>
           intersects (axisAlignedBox (Vector3 (3/2) 0 0) (Vector3 1 1 1))
                      (axisAlignedBox (Vector3 0 0 0) (Vector3 1 1 1)) = Inr r2 \<and>
           isColliding r1 = isColliding r2 \<and> penetrationDepth r1 = penetrationDepth r2"
  using intersects_symmetric[of "axisAlignedBox (Vector3 0 0 0) (Vector3 1 1 1)"
              "axisAlignedBox (Vector3 (3/2) 0 0) (Vector3 1 1 1)"]
  by (simp add: orthonormal_identity3)


subsection \<open>Axis-aligned boxes\<close>









subsection \<open>Broad phase\<close>

lemma innerLoop_eq:
  assumes "DAList.lookup bs i1 \<noteq> None" "\<forall>i\<in>set rest. DAList.lookup bs i \<noteq> None"
  shows "innerLoop bs i1 rest acc
           = Inr (acc @ map (resultOf bs) (filter (colliding bs) (map (Pair i1) rest)))"
  using assms
  by (induction rest arbitrary: acc) (auto simp: colliding_def resultOf_def Let_def split: option.splits)

lemma outerLoop_eq:
  assumes "\<forall>i\<in>set ids. DAList.lookup bs i \<noteq> None"
  shows "outerLoop bs ids acc = Inr (acc @ map (resultOf bs) (filter (colliding bs) (pairsOf ids)))"
  using assms
  by (induction ids arbitrary: acc) (simp_all add: innerLoop_eq)

lemma lookup_keys: "i \<in> set (map fst (DAList.impl_of bs)) \<Longrightarrow> DAList.lookup bs i \<noteq> None"
  by (simp add: DAList.lookup.rep_eq map_of_eq_None_iff)

lemma checkCollisions_eq:
  "checkCollisions s =
     (let rs = map (resultOf (bodies s)) (filter (colliding (bodies s))
                  (pairsOf (map fst (DAList.impl_of (bodies s)))))
      in Inr (rs, s\<lparr>collisionResults := rs\<rparr>))"
  using outerLoop_eq[of "map fst (DAList.impl_of (bodies s))" "bodies s" "[]"] lookup_keys[of _ "bodies s"]
  by (simp add: checkCollisions_def Let_def)

lemma pairsOf_mem: "(a, b) \<in> set (pairsOf xs) \<Longrightarrow> a \<in> set xs \<and> b \<in> set xs"
  by (induction xs) auto

lemma pairsOf_neq: "distinct xs \<Longrightarrow> (a, b) \<in> set (pairsOf xs) \<Longrightarrow> a \<noteq> b"
  by (induction xs) (auto dest: pairsOf_mem)

lemma pairsOf_unordered_distinct:
  "distinct xs \<Longrightarrow> distinct (map (\<lambda>p. {fst p, snd p}) (pairsOf xs))"
proof (induction xs)
  case Nil
  show ?case by simp
next
  case (Cons x xs)
  have 1: "distinct (map (\<lambda>p. {fst p, snd p}) (map (Pair x) xs))"
    using Cons.prems by (auto simp: distinct_map inj_on_def doubleton_eq_iff)
  have 2: "set (map (\<lambda>p. {fst p, snd p}) (map (Pair x) xs)) \<inter>
           set (map (\<lambda>p. {fst p, snd p}) (pairsOf xs)) = {}"
    using Cons.prems by (auto simp: doubleton_eq_iff dest: pairsOf_mem)
  from 1 2 Cons show ?case by simp
qed

lemma checkAABBCollision_positive:
  "checkAABBCollision b1 b2 = Some ov \<Longrightarrow> 0 < aabb_width ov \<and> 0 < aabb_height ov"
  by (auto simp: checkAABBCollision_def Let_def split: if_splits)

text \<open>
  Claim C10. \<^verbatim>\<open>checkCollisions\<close> of the broad phase always returns a list; no result pairs an
  identifier with itself, no unordered pair of identifiers occurs in two results (so never both
  \<open>(a, b)\<close> and \<open>(b, a)\<close>, and never \<open>(a, b)\<close> twice), and every result carries an overlap
  rectangle of strictly positive width and height.
\<close>

theorem broad_phase_pairs:
  "\<exists>rs. checkCollisions s = Inr (rs, s\<lparr>collisionResults := rs\<rparr>) \<and>
        (\<forall>r\<in>set rs. id1 r \<noteq> id2 r \<and> 0 < aabb_width (overlap r) \<and> 0 < aabb_height (overlap r)) \<and>
        distinct (map (\<lambda>r. {id1 r, id2 r}) rs)"
proof -
  let ?bs = "bodies s"
  let ?ids = "map fst (DAList.impl_of ?bs)"
  let ?ps = "filter (colliding ?bs) (pairsOf ?ids)"
  let ?rs = "map (resultOf ?bs) ?ps"
  have d: "distinct ?ids" by simp
  have eq: "checkCollisions s = Inr (?rs, s\<lparr>collisionResults := ?rs\<rparr>)"
    by (simp add: checkCollisions_eq Let_def)
  have each: "id1 r \<noteq> id2 r \<and> 0 < aabb_width (overlap r) \<and> 0 < aabb_height (overlap r)"
    if "r \<in> set ?rs" for r
  proof -
    from that obtain p where p: "p \<in> set (pairsOf ?ids)" "colliding ?bs p" "r = resultOf ?bs p"
      by auto
    from p(1) d have "fst p \<noteq> snd p" using pairsOf_neq[of ?ids "fst p" "snd p"] by simp
    moreover from p(2) obtain b1 b2 ov where "DAList.lookup ?bs (fst p) = Some b1"
      "DAList.lookup ?bs (snd p) = Some b2" "checkAABBCollision b1 b2 = Some ov"
      by (auto simp: colliding_def split: option.splits)
    ultimately show ?thesis
      using p(3) checkAABBCollision_positive by (simp add: resultOf_def)
  qed
  have ids: "(\<lambda>r. {id1 r, id2 r}) \<circ> resultOf ?bs = (\<lambda>p. {fst p, snd p})"
    by (rule ext) (simp add: resultOf_def Let_def)
  have m: "map (\<lambda>r. {id1 r, id2 r}) ?rs = map (\<lambda>p. {fst p, snd p}) ?ps"
    by (simp add: ids)
  have dd: "distinct (map (\<lambda>p. {fst p, snd p}) ?ps)"
    using pairsOf_unordered_distinct[OF d] by (simp add: distinct_map_filter)
  have "distinct (map (\<lambda>r. {id1 r, id2 r}) ?rs)"
    unfolding m by (rule dd)
  with eq each show ?thesis by blast
qed


lemma twoBodies_check:
  "checkCollisions twoBodies =
     Inr ([\<lparr>id1 = ''a'', id2 = ''b'',
            body1 = \<lparr>aabb_x = 0, aabb_y = 0, aabb_width = 2, aabb_height = 2\<rparr>,
            body2 = \<lparr>aabb_x = 1, aabb_y = 1, aabb_width = 2, aabb_height = 2\<rparr>,
            overlap = \<lparr>aabb_x = 1, aabb_y = 1, aabb_width = 1, aabb_height = 1\<rparr>\<rparr>],
          twoBodies\<lparr>collisionResults :=
            [\<lparr>id1 = ''a'', id2 = ''b'',
              body1 = \<lparr>aabb_x = 0, aabb_y = 0, aabb_width = 2, aabb_height = 2\<rparr>,
              body2 = \<lparr>aabb_x = 1, aabb_y = 1, aabb_width = 2, aabb_height = 2\<rparr>,
              overlap = \<lparr>aabb_x = 1, aabb_y = 1, aabb_width = 1, aabb_height = 1\<rparr>\<rparr>]\<rparr>)"
  by (simp add: checkCollisions_def twoBodies_def createAABB_def newAkashicCollisionSystem_def
      DAList.update.rep_eq DAList.empty.rep_eq checkAABBCollision_def Let_def)

theorem broad_phase_pairs_witness:
  "\<exists>rs. checkCollisions twoBodies = Inr (rs, twoBodies\<lparr>collisionResults := rs\<rparr>) \<and>
        length rs = 1 \<and>
        (\<forall>r\<in>set rs. id1 r \<noteq> id2 r \<and> 0 < aabb_width (overlap r) \<and> 0 < aabb_height (overlap r)) \<and>
        distinct (map (\<lambda>r. {id1 r, id2 r}) rs)"
  using broad_phase_pairs[of twoBodies] by (auto simp: twoBodies_check)


subsection \<open>Ray casting\<close>

lemma num_max_lower: "lowerBound t \<Longrightarrow> lowerBound (num_max t (Finite r))"
  by (auto simp: lowerBound_def split: if_splits)

lemma num_min_upper: "upperBound t \<Longrightarrow> upperBound (num_min t (Finite r))"
  by (auto simp: upperBound_def split: if_splits)

lemma slabLoop_bounds:
  assumes "\<forall>i\<in>set is. i < 3" "lowerBound tMin" "upperBound tMax"
  shows "\<exists>res. slabLoop b ray rc is tMin tMax = Inr res \<and>
               (\<forall>tm tM. res = Some (tm, tM) \<longrightarrow> lowerBound tm \<and> upperBound tM)"
  using assms
proof (induction "is" arbitrary: tMin tMax)
  case Nil
  then show ?case by simp
next
  case (Cons i rest)
  then have i: "getComponent (halfExtents b) i = Inr (comp (halfExtents b) i)"
    by (simp add: getComponent_comp del: getComponent.simps)
  from Cons.prems have rest: "\<forall>i\<in>set rest. i < 3" by simp
  note IH = Cons.IH[OF rest]
  show ?case
    using IH[OF Cons.prems(2,3)]
      IH[OF num_max_lower[OF Cons.prems(2)] num_min_upper[OF Cons.prems(3)]]
    by (simp add: i Let_def del: getComponent.simps)
qed

lemma intersectsRay_valid:
  "\<exists>res. intersectsRay b ray = Inr res \<and> (\<forall>h. res = Some h \<longrightarrow> validDistance (distance h))"
proof -
  from slabLoop_bounds[of "[0, 1, 2]" NegInfinity PosInfinity b ray "sub_v (center b) (origin ray)"]
  obtain res where res: "slabLoop b ray (sub_v (center b) (origin ray)) [0, 1, 2] NegInfinity PosInfinity = Inr res"
    "\<forall>tm tM. res = Some (tm, tM) \<longrightarrow> lowerBound tm \<and> upperBound tM"
    by (auto simp: lowerBound_def upperBound_def)
  show ?thesis
  proof (cases res)
    case None
    with res(1) show ?thesis by (simp add: intersectsRay_def)
  next
    case (Some p)
    obtain tm tM where p: "p = (tm, tM)" by (cases p)
    with Some res(2) have "lowerBound tm" "upperBound tM" by auto
    then show ?thesis
      using res(1) Some p
      by (auto simp: intersectsRay_def Let_def lowerBound_def upperBound_def validDistance_def
          num_greater_def)
  qed
qed

lemma valid_le_total:
  "validDistance a \<Longrightarrow> validDistance b \<Longrightarrow> num_less a b \<or> num_le b a"
  by (auto simp: validDistance_def)

lemma valid_less_le: "validDistance a \<Longrightarrow> validDistance b \<Longrightarrow> num_less a b \<Longrightarrow> num_le a b"
  by (auto simp: validDistance_def)

lemma valid_le_trans:
  "validDistance a \<Longrightarrow> validDistance b \<Longrightarrow> validDistance c \<Longrightarrow> num_le a b \<Longrightarrow> num_le b c \<Longrightarrow> num_le a c"
  by (auto simp: validDistance_def)

lemma valid_le_refl: "validDistance a \<Longrightarrow> num_le a a"
  by (auto simp: validDistance_def)


lemma intersectsRay_Some_valid:
  "intersectsRay b ray = Inr (Some h) \<Longrightarrow> validDistance (distance h)"
  using intersectsRay_valid[of b ray] by auto

lemma closestAmong_skip:
  assumes inv: "closestAmong os ray maxD V c"
    and no: "\<forall>h. intersectsRay (obb (os r)) ray = Inr (Some h) \<longrightarrow>
               \<not> num_le (distance h) maxD \<or>
               (\<exists>ch. c = Some ch \<and> \<not> num_less (distance h) (distance ch))"
  shows "closestAmong os ray maxD (insert r V) c"
proof (cases c)
  case None
  with inv no show ?thesis by (auto simp: closestAmong_def)
next
  case (Some ch)
  from inv Some have chv: "validDistance (distance ch)"
    using intersectsRay_Some_valid[of "obb (os (object ch))" ray "\<lparr>distance = distance ch, point = point ch\<rparr>"]
    by (simp add: closestAmong_def)
  have "num_le (distance ch) (distance h)"
    if "intersectsRay (obb (os r)) ray = Inr (Some h)" "num_le (distance h) maxD" for h
  proof -
    from no that Some have "\<not> num_less (distance h) (distance ch)" by auto
    with valid_le_total[OF intersectsRay_Some_valid[OF that(1)] chv] show ?thesis by blast
  qed
  with inv Some show ?thesis by (auto simp: closestAmong_def)
qed

lemma closestAmong_take:
  assumes inv: "closestAmong os ray maxD V c"
    and hit: "intersectsRay (obb (os r)) ray = Inr (Some h)"
    and le: "num_le (distance h) maxD"
    and better: "case c of None \<Rightarrow> True | Some ch \<Rightarrow> num_less (distance h) (distance ch)"
  shows "closestAmong os ray maxD (insert r V) (Some \<lparr>distance = distance h, point = point h, object = r\<rparr>)"
proof -
  have hv: "validDistance (distance h)" by (rule intersectsRay_Some_valid[OF hit])
  have others: "num_le (distance h) (distance h')"
    if "r' \<in> V" "intersectsRay (obb (os r')) ray = Inr (Some h')" "num_le (distance h') maxD" for r' h'
  proof (cases c)
    case None
    with inv that show ?thesis by (auto simp: closestAmong_def)
  next
    case (Some ch)
    from inv Some have chv: "validDistance (distance ch)"
      using intersectsRay_Some_valid[of "obb (os (object ch))" ray "\<lparr>distance = distance ch, point = point ch\<rparr>"]
      by (simp add: closestAmong_def)
    from inv Some that have 1: "num_le (distance ch) (distance h')" by (auto simp: closestAmong_def)
    from better Some have "num_less (distance h) (distance ch)" by simp
    then have 2: "num_le (distance h) (distance ch)" by (rule valid_less_le[OF hv chv])
    show ?thesis
      by (rule valid_le_trans[OF hv chv intersectsRay_Some_valid[OF that(2)] 2 1])
  qed
  have self: "num_le (distance h) (distance h')"
    if "intersectsRay (obb (os r)) ray = Inr (Some h')" for h'
    using that hit valid_le_refl[OF hv] by simp
  from hit le others self show ?thesis
    by (auto simp: closestAmong_def)
qed

lemma raycastLoop_closest:
  assumes "closestAmong os ray maxD V c"
  shows "\<exists>res. raycastLoop os ray maxD rs c = Inr res \<and> closestAmong os ray maxD (V \<union> set rs) res"
  using assms
proof (induction rs arbitrary: V c)
  case Nil
  then show ?case by simp
next
  case (Cons r rest)
  from intersectsRay_valid[of "obb (os r)" ray] obtain hr where hr: "intersectsRay (obb (os r)) ray = Inr hr"
    by blast
  have U: "insert r V \<union> set rest = V \<union> set (r # rest)" by auto
  show ?case
  proof (cases "\<exists>h. hr = Some h \<and> num_le (distance h) maxD \<and>
                  (case c of None \<Rightarrow> True | Some ch \<Rightarrow> num_less (distance h) (distance ch))")
    case True
    then obtain h where h: "hr = Some h" "num_le (distance h) maxD"
      "case c of None \<Rightarrow> True | Some ch \<Rightarrow> num_less (distance h) (distance ch)" by blast
    from closestAmong_take[OF Cons.prems _ h(2,3), of r] hr h(1)
    have "closestAmong os ray maxD (insert r V) (Some \<lparr>distance = distance h, point = point h, object = r\<rparr>)"
      by simp
    from Cons.IH[OF this] hr h show ?thesis by (simp add: U)
  next
    case False
    then have "\<forall>h. intersectsRay (obb (os r)) ray = Inr (Some h) \<longrightarrow>
               \<not> num_le (distance h) maxD \<or>
               (\<exists>ch. c = Some ch \<and> \<not> num_less (distance h) (distance ch))"
      using hr by (auto split: option.splits)
    from closestAmong_skip[OF Cons.prems this]
    have "closestAmong os ray maxD (insert r V) c" .
    from Cons.IH[OF this] hr False show ?thesis
      by (cases hr) (auto simp: U)
  qed
qed


lemma fromMesh_cube:
  "fst (fromMesh demoLib (cubeMesh n) (geometries emptyWorld))
     = axisAlignedBox (Vector3 (3 * real n / 2) 0 0) (Vector3 1 1 1)"
  by (simp add: fromMesh_def demoLib_def cubeMesh_def emptyWorld_def Let_def translation_def
      getCenter_def getSize_def isEmpty_def add_v_def sub_v_def multiplyScalar_def multiply_v_def
      length_v_def lengthSq_def axisAlignedBox_def identity3_def)

lemma oneBoxWorld_registry:
  "map snd (DAList.impl_of (objects oneBoxWorld)) = [0]"
  "obb (objs oneBoxWorld 0) = axisAlignedBox (Vector3 0 0 0) (Vector3 1 1 1)"
  using fromMesh_cube[of 0]
  by (simp_all add: oneBoxWorld_def addObject_def Let_def split_beta emptyWorld_def
      DAList.update.rep_eq DAList.empty.rep_eq)

lemma intersectsRay_scenario:
  "intersectsRay (axisAlignedBox (Vector3 0 0 0) (Vector3 1 1 1))
                 \<lparr>origin = Vector3 (-5) 0 0, direction = Vector3 1 0 0\<rparr>
     = Inr (Some \<lparr>distance = Finite 4, point = NVector3 (Finite (-1)) (Finite 0) (Finite 0)\<rparr>)"
  by (simp add: intersectsRay_def getAxes_identity sub_v_def dot_def epsilon_def Let_def
      num_greater_def rayPoint_def)

text \<open>
  Claim C7. \<^verbatim>\<open>raycast(ray, maxDistance)\<close> returns \<^verbatim>\<open>null\<close> when no registered box is hit within
  \<open>maxDistance\<close>, and otherwise a registered object together with the distance and point
  \<^verbatim>\<open>intersectsRay\<close> computes for its box, that distance being within \<open>maxDistance\<close> and minimal
  among the registered boxes hit within \<open>maxDistance\<close>. In particular, with a single registered
  box of half-extents (1, 1, 1) and identity orientation at the origin, the ray from (-5, 0, 0)
  with direction (1, 0, 0) hits at distance 4 in the point (-1, 0, 0).
\<close>

theorem raycast_closest_hit:
  "(\<exists>res. raycast w ray maxDistance = Inr res \<and>
          closestAmong (objs w) ray maxDistance (set (map snd (DAList.impl_of (objects w)))) res) \<and>
   (map snd (DAList.impl_of (objects w')) = [r] \<and>
    obb (objs w' r) = axisAlignedBox (Vector3 0 0 0) (Vector3 1 1 1) \<longrightarrow>
    raycast w' \<lparr>origin = Vector3 (-5) 0 0, direction = Vector3 1 0 0\<rparr> PosInfinity
      = Inr (Some \<lparr>distance = Finite 4, point = NVector3 (Finite (-1)) (Finite 0) (Finite 0),
                   object = r\<rparr>))"
proof (intro conjI impI)
  have "closestAmong (objs w) ray maxDistance {} None" by (simp add: closestAmong_def)
  from raycastLoop_closest[OF this, of "map snd (DAList.impl_of (objects w))"]
  show "\<exists>res. raycast w ray maxDistance = Inr res \<and>
          closestAmong (objs w) ray maxDistance (set (map snd (DAList.impl_of (objects w)))) res"
    by (simp add: raycast_def)
next
  assume "map snd (DAList.impl_of (objects w')) = [r] \<and>
    obb (objs w' r) = axisAlignedBox (Vector3 0 0 0) (Vector3 1 1 1)"
  then show "raycast w' \<lparr>origin = Vector3 (-5) 0 0, direction = Vector3 1 0 0\<rparr> PosInfinity
      = Inr (Some \<lparr>distance = Finite 4, point = NVector3 (Finite (-1)) (Finite 0) (Finite 0),
                   object = r\<rparr>)"
    by (simp add: raycast_def intersectsRay_scenario)
qed

theorem raycast_closest_hit_witness:
  "raycast oneBoxWorld \<lparr>origin = Vector3 (-5) 0 0, direction = Vector3 1 0 0\<rparr> PosInfinity
     = Inr (Some \<lparr>distance = Finite 4, point = NVector3 (Finite (-1)) (Finite 0) (Finite 0),
                  object = 0\<rparr>) \<and>
   closestAmong (objs oneBoxWorld) \<lparr>origin = Vector3 (-5) 0 0, direction = Vector3 1 0 0\<rparr> PosInfinity
     {0} (Some \<lparr>distance = Finite 4, point = NVector3 (Finite (-1)) (Finite 0) (Finite 0), object = 0\<rparr>)"
  using raycast_closest_hit[of oneBoxWorld "\<lparr>origin = Vector3 (-5) 0 0, direction = Vector3 1 0 0\<rparr>" PosInfinity
           oneBoxWorld 0]
  by (auto simp: oneBoxWorld_registry)


subsection \<open>Registration\<close>

lemma getBody_createAABB:
  "getBody (createAABB i x y wd h s) j =
     (if j = i then Some \<lparr>aabb_x = x, aabb_y = y, aabb_width = wd, aabb_height = h\<rparr> else getBody s j)"
  by (simp add: getBody_def createAABB_def DAList.lookup_update)

lemma addObject_effect:
  "DAList.lookup (objects (addObject lib ident m shape w)) ident = Some (nextObj w) \<and>
   objs (addObject lib ident m shape w) (nextObj w)
     = \<lparr>obj_id = ident, mesh = m, obb = fst (fromMesh lib (meshes w m) (geometries w)),
        shapeType = shape\<rparr> \<and>
   getBody (akashicSystem (addObject lib ident m shape w)) ident
     = Some (footprint (fst (setFromObject lib (meshes w m)
                               (snd (fromMesh lib (meshes w m) (geometries w)))))) \<and>
   (\<forall>j. j \<noteq> ident \<longrightarrow>
      DAList.lookup (objects (addObject lib ident m shape w)) j = DAList.lookup (objects w) j \<and>
      getBody (akashicSystem (addObject lib ident m shape w)) j = getBody (akashicSystem w) j)"
  by (simp add: addObject_def Let_def split_beta getBody_createAABB footprint_def)

lemma oneBoxWorld_meshes: "meshes oneBoxWorld = cubeMesh"
proof -
  have "cubeMesh 0 = \<lparr>position = Vector3 0 0 0, quaternion = (0, 0, 0, 1),
              mesh_scale = Vector3 1 1 1,
              matrixWorld = translation (Vector3 0 0 0), geometry = 0\<rparr>"
    by (simp add: cubeMesh_def)
  then have "cubeMesh(0 := \<lparr>position = Vector3 0 0 0, quaternion = (0, 0, 0, 1),
              mesh_scale = Vector3 1 1 1,
              matrixWorld = translation (Vector3 0 0 0), geometry = 0\<rparr>) = cubeMesh"
    by (metis fun_upd_triv)
  then show ?thesis
    by (simp add: oneBoxWorld_def addObject_def Let_def split_beta emptyWorld_def demoLib_def
      cubeMesh_def fromMesh_def)
qed

lemma oneBoxWorld_geometries:
  "geometries oneBoxWorld n =
     \<lparr>boundingBox = (if n = 0 then Some \<lparr>bmin = Vector3 (-1) (-1) (-1), bmax = Vector3 1 1 1\<rparr> else None),
      vertices = [Vector3 (-1) (-1) (-1), Vector3 1 1 1]\<rparr>"
  by (simp add: oneBoxWorld_def addObject_def Let_def split_beta emptyWorld_def demoLib_def
      cubeMesh_def fromMesh_def)

lemma fromMesh_cube_cached:
  "fst (fromMesh demoLib (cubeMesh n) (geometries oneBoxWorld))
     = axisAlignedBox (Vector3 (3 * real n / 2) 0 0) (Vector3 1 1 1)"
  by (simp add: fromMesh_def oneBoxWorld_geometries demoLib_def cubeMesh_def Let_def translation_def
      getCenter_def getSize_def isEmpty_def add_v_def sub_v_def multiplyScalar_def multiply_v_def
      length_v_def lengthSq_def axisAlignedBox_def identity3_def)

lemma footprint_cube:
  "footprint (fst (setFromObject demoLib (cubeMesh n) (snd (fromMesh demoLib (cubeMesh n) geos))))
     = \<lparr>aabb_x = 3 * real n / 2 - 1, aabb_y = -1, aabb_width = 2, aabb_height = 2\<rparr>"
  if "vertices (geos 0) = [Vector3 (-1) (-1) (-1), Vector3 1 1 1]"
     "boundingBox (geos 0) = None \<or> boundingBox (geos 0) = Some \<lparr>bmin = Vector3 (-1) (-1) (-1), bmax = Vector3 1 1 1\<rparr>"
  using that
  by (auto simp: footprint_def fromMesh_def demoLib_def cubeMesh_def Let_def
      getCenter_def getSize_def isEmpty_def add_v_def sub_v_def multiplyScalar_def)

text \<open>
  The claim as stated fails: registering a second cube under the identifier of the first one
  signals nothing and replaces both the OBB and the broad-phase rectangle kept for it.
\<close>

theorem addObject_duplicate_counterexample:
  "DAList.lookup (objects oneBoxWorld) ''box'' = Some 0 \<and>
   obb (objs oneBoxWorld 0) = axisAlignedBox (Vector3 0 0 0) (Vector3 1 1 1) \<and>
   getBody (akashicSystem oneBoxWorld) ''box''
     = Some \<lparr>aabb_x = -1, aabb_y = -1, aabb_width = 2, aabb_height = 2\<rparr> \<and>
   DAList.lookup (objects (addObject demoLib ''box'' 1 box oneBoxWorld)) ''box'' = Some 1 \<and>
   obb (objs (addObject demoLib ''box'' 1 box oneBoxWorld) 1)
     = axisAlignedBox (Vector3 (3/2) 0 0) (Vector3 1 1 1) \<and>
   getBody (akashicSystem (addObject demoLib ''box'' 1 box oneBoxWorld)) ''box''
     = Some \<lparr>aabb_x = 1/2, aabb_y = -1, aabb_width = 2, aabb_height = 2\<rparr>"
proof -
  have 1: "nextObj emptyWorld = 0" "nextObj oneBoxWorld = 1"
    by (simp_all add: oneBoxWorld_def addObject_def Let_def split_beta emptyWorld_def)
  have a: "getBody (akashicSystem oneBoxWorld) ''box''
     = Some \<lparr>aabb_x = -1, aabb_y = -1, aabb_width = 2, aabb_height = 2\<rparr>"
    unfolding oneBoxWorld_def
    using addObject_effect[of demoLib "''box''" 0 box emptyWorld]
      footprint_cube[of "geometries emptyWorld" 0]
    by (simp add: emptyWorld_def)
  have b: "DAList.lookup (objects oneBoxWorld) ''box'' = Some 0"
    unfolding oneBoxWorld_def
    using addObject_effect[of demoLib "''box''" 0 box emptyWorld] 1 by simp
  have c: "obb (objs oneBoxWorld 0) = axisAlignedBox (Vector3 0 0 0) (Vector3 1 1 1)"
    by (rule oneBoxWorld_registry)
  from addObject_effect[of demoLib "''box''" 1 box oneBoxWorld]
    footprint_cube[of "geometries oneBoxWorld" 1] fromMesh_cube_cached[of 1]
  have d: "DAList.lookup (objects (addObject demoLib ''box'' 1 box oneBoxWorld)) ''box'' = Some 1 \<and>
   obb (objs (addObject demoLib ''box'' 1 box oneBoxWorld) 1)
     = axisAlignedBox (Vector3 (3/2) 0 0) (Vector3 1 1 1) \<and>
   getBody (akashicSystem (addObject demoLib ''box'' 1 box oneBoxWorld)) ''box''
     = Some \<lparr>aabb_x = 1/2, aabb_y = -1, aabb_width = 2, aabb_height = 2\<rparr>"
    by (simp add: 1 oneBoxWorld_meshes oneBoxWorld_geometries)
  from a b c d show ?thesis by simp
qed

lemma oneBoxWorld_body:
  "getBody (akashicSystem oneBoxWorld) ''box''
     = Some \<lparr>aabb_x = -1, aabb_y = -1, aabb_width = 2, aabb_height = 2\<rparr>"
  "DAList.lookup (objects oneBoxWorld) ''box'' = Some 0"
  "nextObj oneBoxWorld = 1"
  unfolding oneBoxWorld_def
  using addObject_effect[of demoLib "''box''" 0 box emptyWorld]
    footprint_cube[of "geometries emptyWorld" 0]
  by (simp_all add: emptyWorld_def addObject_def Let_def split_beta)

lemma freshStore_lookup:
  "freshStore w \<longleftrightarrow> (\<forall>j r. DAList.lookup (objects w) j = Some r \<longrightarrow> r < nextObj w)"
  by (auto simp: freshStore_def lookup.rep_eq)

lemma freshStore_emptyWorld: "freshStore emptyWorld"
  by (simp add: freshStore_lookup emptyWorld_def)

lemma freshStore_addObject:
  assumes "freshStore w"
  shows "freshStore (addObject lib ident m shape w)"
proof -
  have "objects (addObject lib ident m shape w) = DAList.update ident (nextObj w) (objects w)"
    "nextObj (addObject lib ident m shape w) = Suc (nextObj w)"
    by (simp_all add: addObject_def Let_def split_beta)
  with assms show ?thesis
    by (auto simp: freshStore_lookup DAList.lookup_update less_Suc_eq split: if_splits)
qed

lemma freshStore_removeObject:
  "freshStore w \<Longrightarrow> freshStore (removeObject ident w)"
  by (auto simp: freshStore_lookup removeObject_def split: if_splits)

lemma freshStore_resolveCollision:
  "freshStore w \<Longrightarrow> freshStore (resolveCollision lib c s w)"
  by (simp add: freshStore_lookup resolveCollision_def Let_def split_beta positionSub_def
      positionAdd_def updateFromMesh_def)

lemma freshStore_oneBoxWorld: "freshStore oneBoxWorld"
  unfolding oneBoxWorld_def by (rule freshStore_addObject) (rule freshStore_emptyWorld)

text \<open>
  Claim C2, amended. \<^verbatim>\<open>addObject(id, mesh, shapeKind)\<close> signals no error, whether or not \<open>id\<close> is
  registered: afterwards \<open>id\<close> is registered with a newly allocated collision object holding the
  OBB computed from the given mesh and with the broad-phase rectangle of that mesh, replacing any
  earlier registration of \<open>id\<close>. No other stored collision object is written, and every other
  identifier keeps its registry entry and its broad-phase rectangle; in a fresh store every other
  registered identifier therefore keeps its collision object, with its OBB, and the store stays
  fresh.
\<close>

theorem addObject_replaces:
  "(let w' = addObject lib ident m shape w
    in DAList.lookup (objects w') ident = Some (nextObj w) \<and>
       objs w' (nextObj w)
         = \<lparr>obj_id = ident, mesh = m, obb = fst (fromMesh lib (meshes w m) (geometries w)),
            shapeType = shape\<rparr> \<and>
       getBody (akashicSystem w') ident
         = Some (footprint (fst (setFromObject lib (meshes w m)
                                   (snd (fromMesh lib (meshes w m) (geometries w)))))) \<and>
       (\<forall>j. j \<noteq> ident \<longrightarrow>
          DAList.lookup (objects w') j = DAList.lookup (objects w) j \<and>
          getBody (akashicSystem w') j = getBody (akashicSystem w) j) \<and>
       (\<forall>r. r \<noteq> nextObj w \<longrightarrow> objs w' r = objs w r) \<and>
       (freshStore w \<longrightarrow>
          (\<forall>j r. j \<noteq> ident \<and> DAList.lookup (objects w) j = Some r \<longrightarrow>
             DAList.lookup (objects w') j = Some r \<and> objs w' r = objs w r) \<and>
          freshStore w'))"
proof -
  let ?w' = "addObject lib ident m shape w"
  let ?geos1 = "snd (fromMesh lib (meshes w m) (geometries w))"
  let ?bx = "fst (setFromObject lib (meshes w m) ?geos1)"
  have registry: "objects ?w' = DAList.update ident (nextObj w) (objects w)"
    by (simp add: addObject_def Let_def split_beta)
  have store: "objs ?w' = (objs w)(nextObj w :=
      \<lparr>obj_id = ident, mesh = m, obb = fst (fromMesh lib (meshes w m) (geometries w)),
        shapeType = shape\<rparr>)"
    by (simp add: addObject_def Let_def split_beta)
  have broad: "akashicSystem ?w' =
      createAABB ident (vx (getCenter ?bx) - vx (getSize ?bx) / 2)
        (vz (getCenter ?bx) - vz (getSize ?bx) / 2) (vx (getSize ?bx)) (vz (getSize ?bx))
        (akashicSystem w)"
    by (simp add: addObject_def Let_def split_beta)
  have unconditional:
    "DAList.lookup (objects ?w') ident = Some (nextObj w) \<and>
       objs ?w' (nextObj w)
         = \<lparr>obj_id = ident, mesh = m, obb = fst (fromMesh lib (meshes w m) (geometries w)),
            shapeType = shape\<rparr> \<and>
       getBody (akashicSystem ?w') ident
         = Some (footprint (fst (setFromObject lib (meshes w m)
                                   (snd (fromMesh lib (meshes w m) (geometries w)))))) \<and>
       (\<forall>j. j \<noteq> ident \<longrightarrow>
          DAList.lookup (objects ?w') j = DAList.lookup (objects w) j \<and>
          getBody (akashicSystem ?w') j = getBody (akashicSystem w) j) \<and>
       (\<forall>r. r \<noteq> nextObj w \<longrightarrow> objs ?w' r = objs w r)"
    unfolding registry store broad
    by (simp add: getBody_createAABB footprint_def Let_def)
  have others: "DAList.lookup (objects ?w') j = Some r \<and> objs ?w' r = objs w r"
    if "freshStore w" "j \<noteq> ident" "DAList.lookup (objects w) j = Some r" for j r
  proof -
    from that have "r < nextObj w" by (auto simp: freshStore_lookup)
    with that show ?thesis unfolding registry store by simp
  qed
  from unconditional others freshStore_addObject[of w lib ident m shape]
  show ?thesis unfolding Let_def by blast
qed

theorem addObject_replaces_witness:
  "freshStore oneBoxWorld \<and>
   DAList.lookup (objects oneBoxWorld) ''box'' = Some 0 \<and>
   DAList.lookup (objects (addObject demoLib ''b'' 1 box oneBoxWorld)) ''b'' = Some 1 \<and>
   DAList.lookup (objects (addObject demoLib ''b'' 1 box oneBoxWorld)) ''box'' = Some 0 \<and>
   obb (objs (addObject demoLib ''b'' 1 box oneBoxWorld) 0)
     = axisAlignedBox (Vector3 0 0 0) (Vector3 1 1 1) \<and>
   getBody (akashicSystem (addObject demoLib ''b'' 1 box oneBoxWorld)) ''box''
     = Some \<lparr>aabb_x = -1, aabb_y = -1, aabb_width = 2, aabb_height = 2\<rparr> \<and>
   freshStore (addObject demoLib ''b'' 1 box oneBoxWorld)"
proof -
  have ne: "''box'' \<noteq> ''b''" by simp
  note r = addObject_replaces[of demoLib "''b''" 1 box oneBoxWorld, unfolded Let_def]
  from r have a: "DAList.lookup (objects (addObject demoLib ''b'' 1 box oneBoxWorld)) ''b'' = Some 1"
    by (simp add: oneBoxWorld_body)
  from r ne have b: "getBody (akashicSystem (addObject demoLib ''b'' 1 box oneBoxWorld)) ''box''
     = Some \<lparr>aabb_x = -1, aabb_y = -1, aabb_width = 2, aabb_height = 2\<rparr>"
    by (simp add: oneBoxWorld_body)
  from r freshStore_oneBoxWorld
  have c: "(\<forall>j r. j \<noteq> ''b'' \<and> DAList.lookup (objects oneBoxWorld) j = Some r \<longrightarrow>
             DAList.lookup (objects (addObject demoLib ''b'' 1 box oneBoxWorld)) j = Some r \<and>
             objs (addObject demoLib ''b'' 1 box oneBoxWorld) r = objs oneBoxWorld r)"
    and d: "freshStore (addObject demoLib ''b'' 1 box oneBoxWorld)"
    by blast+
  from c ne oneBoxWorld_body(2)
  have e: "DAList.lookup (objects (addObject demoLib ''b'' 1 box oneBoxWorld)) ''box'' = Some 0 \<and>
     objs (addObject demoLib ''b'' 1 box oneBoxWorld) 0 = objs oneBoxWorld 0"
    by blast
  from a b d e freshStore_oneBoxWorld oneBoxWorld_body(2) oneBoxWorld_registry show ?thesis
    by simp
qed


subsection \<open>Collision resolution\<close>

lemma fromMesh_cache:
  "fst (fromMesh lib m (snd (fromMesh lib m0 geos))) = fst (fromMesh lib m geos)"
  by (simp add: fromMesh_def Let_def split: option.splits)

lemma multiplyScalar_twice: "multiplyScalar (multiplyScalar v a) b = multiplyScalar v (a * b)"
  by (simp add: multiplyScalar_def mult.assoc)

lemma intersects_cubes:
  "intersects (axisAlignedBox (Vector3 0 0 0) (Vector3 1 1 1)) (axisAlignedBox (Vector3 0 0 0) (Vector3 1 1 1))
     = Inr \<lparr>isColliding = True, penetrationDepth = 2, separatingAxis = Vector3 1 0 0,
            contactPoint = Vector3 1 0 0\<rparr>"
  "intersects (axisAlignedBox (Vector3 0 0 0) (Vector3 1 1 1)) (axisAlignedBox (Vector3 (3/2) 0 0) (Vector3 1 1 1))
     = Inr \<lparr>isColliding = True, penetrationDepth = 1 / 2, separatingAxis = Vector3 1 0 0,
            contactPoint = Vector3 1 0 0\<rparr>"
  by (simp_all add: intersects_def allAxes_def getAxes_identity overlapOn_def projectOnAxis_def
      normalize_v_def length_v_def lengthSq_def epsilon_def dot_def multiplyScalar_def Let_def
      cross_def calculateContactPoint_def sub_v_def add_v_def)

lemma twoBoxWorld_state:
  "DAList.lookup (objects twoBoxWorld) ''box'' = Some 0"
  "DAList.lookup (objects twoBoxWorld) ''b'' = Some 1"
  "getBody (akashicSystem twoBoxWorld) ''box''
     = Some \<lparr>aabb_x = -1, aabb_y = -1, aabb_width = 2, aabb_height = 2\<rparr>"
  "getBody (akashicSystem twoBoxWorld) ''b''
     = Some \<lparr>aabb_x = 1 / 2, aabb_y = -1, aabb_width = 2, aabb_height = 2\<rparr>"
  "objs twoBoxWorld 0 = \<lparr>obj_id = ''box'', mesh = 0, obb = axisAlignedBox (Vector3 0 0 0) (Vector3 1 1 1),
                          shapeType = box\<rparr>"
  "objs twoBoxWorld 1 = \<lparr>obj_id = ''b'', mesh = 1, obb = axisAlignedBox (Vector3 (3/2) 0 0) (Vector3 1 1 1),
                          shapeType = box\<rparr>"
proof -
  have o0: "objs oneBoxWorld 0 = \<lparr>obj_id = ''box'', mesh = 0,
              obb = axisAlignedBox (Vector3 0 0 0) (Vector3 1 1 1), shapeType = box\<rparr>"
    using addObject_effect[of demoLib "''box''" 0 box emptyWorld] fromMesh_cube[of 0]
    by (simp add: oneBoxWorld_def emptyWorld_def)
  have ne: "''box'' \<noteq> ''b''" by simp
  note eff = addObject_effect[of demoLib "''b''" 1 box oneBoxWorld, unfolded oneBoxWorld_body(3),
      folded twoBoxWorld_def]
  from eff ne show "DAList.lookup (objects twoBoxWorld) ''box'' = Some 0"
    by (simp add: oneBoxWorld_body)
  from eff show "DAList.lookup (objects twoBoxWorld) ''b'' = Some 1" by simp
  from eff ne show "getBody (akashicSystem twoBoxWorld) ''box''
     = Some \<lparr>aabb_x = -1, aabb_y = -1, aabb_width = 2, aabb_height = 2\<rparr>"
    by (simp add: oneBoxWorld_body)
  from eff footprint_cube[of "geometries oneBoxWorld" 1]
  show "getBody (akashicSystem twoBoxWorld) ''b''
     = Some \<lparr>aabb_x = 1 / 2, aabb_y = -1, aabb_width = 2, aabb_height = 2\<rparr>"
    by (simp add: oneBoxWorld_meshes oneBoxWorld_geometries)
  from eff fromMesh_cube_cached[of 1]
  show "objs twoBoxWorld 1 = \<lparr>obj_id = ''b'', mesh = 1,
          obb = axisAlignedBox (Vector3 (3/2) 0 0) (Vector3 1 1 1), shapeType = box\<rparr>"
    by (simp add: oneBoxWorld_meshes)
  have "objs twoBoxWorld 0 = objs oneBoxWorld 0"
    by (simp add: twoBoxWorld_def addObject_def Let_def split_beta oneBoxWorld_body(3))
  with o0 show "objs twoBoxWorld 0 = \<lparr>obj_id = ''box'', mesh = 0,
          obb = axisAlignedBox (Vector3 0 0 0) (Vector3 1 1 1), shapeType = box\<rparr>"
    by simp
qed

lemma twoBoxWorld_second:
  "objs twoBoxWorld (Suc 0) = \<lparr>obj_id = ''b'', mesh = 1,
     obb = axisAlignedBox (Vector3 (3/2) 0 0) (Vector3 1 1 1), shapeType = box\<rparr>"
  using twoBoxWorld_state(6) by simp

lemma twoBoxWorld_meshes: "meshes twoBoxWorld = cubeMesh"
proof -
  have "cubeMesh 1 = (cubeMesh 1)\<lparr>matrixWorld := translation (position (cubeMesh 1))\<rparr>"
    by (simp add: cubeMesh_def)
  then have "cubeMesh(1 := (cubeMesh 1)\<lparr>matrixWorld := translation (position (cubeMesh 1))\<rparr>) = cubeMesh"
    by (metis fun_upd_triv)
  then show ?thesis
    by (simp add: twoBoxWorld_def addObject_def Let_def split_beta demoLib_def oneBoxWorld_meshes)
qed

lemma checkCollisionBetween_examples:
  "checkCollisionBetween oneBoxWorld ''box'' ''box'' = Inr (Some selfCollision)"
  "checkCollisionBetween twoBoxWorld ''box'' ''b'' = Inr (Some pairCollision)"
  by (simp_all add: checkCollisionBetween_def oneBoxWorld_body oneBoxWorld_registry twoBoxWorld_state
      twoBoxWorld_second intersects_cubes selfCollision_def pairCollision_def)

text \<open>
  The claim as stated fails for a record whose two objects are one: \<^verbatim>\<open>checkCollisionBetween\<close>
  with the same identifier twice returns such a record, the claim asks for the mesh to move by
  (-1, 0, 0), and the two corrections cancel.
\<close>

theorem resolveCollision_alias_counterexample:
  "checkCollisionBetween oneBoxWorld ''box'' ''box'' = Inr (Some selfCollision) \<and>
   mesh (objs oneBoxWorld (object1 selfCollision)) = 0 \<and>
   multiplyScalar (separatingAxis (obbResult selfCollision))
                  (- (1 / 2) * penetrationDepth (obbResult selfCollision) * 1) = Vector3 (-1) 0 0 \<and>
   position (meshes oneBoxWorld 0) = Vector3 0 0 0 \<and>
   position (meshes (resolveCollision demoLib selfCollision 1 oneBoxWorld) 0) = Vector3 0 0 0"
proof -
  have "objs oneBoxWorld 0 = \<lparr>obj_id = ''box'', mesh = 0,
              obb = axisAlignedBox (Vector3 0 0 0) (Vector3 1 1 1), shapeType = box\<rparr>"
    using addObject_effect[of demoLib "''box''" 0 box emptyWorld] fromMesh_cube[of 0]
    by (simp add: oneBoxWorld_def emptyWorld_def)
  then show ?thesis
    by (simp add: checkCollisionBetween_examples selfCollision_def multiplyScalar_def
        resolveCollision_def Let_def split_beta positionSub_def positionAdd_def updateFromMesh_def
        oneBoxWorld_meshes cubeMesh_def sub_v_def add_v_def)
qed

lemma resolveCollision_effect:
  assumes "mesh (objs w (object1 c)) \<noteq> mesh (objs w (object2 c))"
  shows "(let o1 = object1 c; o2 = object2 c; m1 = mesh (objs w o1); m2 = mesh (objs w o2);
              v = multiplyScalar (separatingAxis (obbResult c)) (penetrationDepth (obbResult c) * s * (1 / 2));
              w' = resolveCollision lib c s w
          in meshes w' m1 = (meshes w m1)\<lparr>position := sub_v (position (meshes w m1)) v\<rparr> \<and>
             meshes w' m2 = (meshes w m2)\<lparr>position := add_v (position (meshes w m2)) v\<rparr> \<and>
             (\<forall>m. m \<noteq> m1 \<and> m \<noteq> m2 \<longrightarrow> meshes w' m = meshes w m) \<and>
             objs w' o1 = (objs w o1)\<lparr>obb := fst (fromMesh lib (meshes w' m1) (geometries w))\<rparr> \<and>
             objs w' o2 = (objs w o2)\<lparr>obb := fst (fromMesh lib (meshes w' m2) (geometries w))\<rparr> \<and>
             (\<forall>r. r \<noteq> o1 \<and> r \<noteq> o2 \<longrightarrow> objs w' r = objs w r) \<and>
             objects w' = objects w \<and> akashicSystem w' = akashicSystem w)"
proof -
  from assms have distinct_objects: "object1 c \<noteq> object2 c" by auto
  show ?thesis
    using assms distinct_objects
    by (simp add: resolveCollision_def Let_def split_beta positionSub_def positionAdd_def
        updateFromMesh_def fromMesh_cache multiplyScalar_twice)
qed

text \<open>
  Claim C8, amended. For a collision record whose two objects have different meshes,
  \<^verbatim>\<open>resolveCollision(record, s)\<close> moves the mesh of \<^verbatim>\<open>object1\<close> by \<open>-0.5 d s n\<close> and the mesh of
  \<^verbatim>\<open>object2\<close> by \<open>+0.5 d s n\<close>, where \<open>d\<close> and \<open>n\<close> are the penetration depth and separating axis
  of the record's OBB result, changing nothing else of the two meshes; of the two collision
  objects it writes at most the OBB; every other mesh and every other collision object is
  unchanged, and so are the registry and the broad phase. Which OBB the two objects hold
  afterwards is not part of the statement.
\<close>

theorem resolveCollision_frame:
  assumes "mesh (objs w (object1 c)) \<noteq> mesh (objs w (object2 c))"
  shows "(let o1 = object1 c; o2 = object2 c; m1 = mesh (objs w o1); m2 = mesh (objs w o2);
              v = multiplyScalar (separatingAxis (obbResult c)) (penetrationDepth (obbResult c) * s * (1 / 2));
              w' = resolveCollision lib c s w
          in meshes w' m1 = (meshes w m1)\<lparr>position := sub_v (position (meshes w m1)) v\<rparr> \<and>
             meshes w' m2 = (meshes w m2)\<lparr>position := add_v (position (meshes w m2)) v\<rparr> \<and>
             (\<forall>m. m \<noteq> m1 \<and> m \<noteq> m2 \<longrightarrow> meshes w' m = meshes w m) \<and>
             (\<exists>ob. objs w' o1 = (objs w o1)\<lparr>obb := ob\<rparr>) \<and>
             (\<exists>ob. objs w' o2 = (objs w o2)\<lparr>obb := ob\<rparr>) \<and>
             (\<forall>r. r \<noteq> o1 \<and> r \<noteq> o2 \<longrightarrow> objs w' r = objs w r) \<and>
             objects w' = objects w \<and> akashicSystem w' = akashicSystem w)"
  using resolveCollision_effect[OF assms, of s lib] unfolding Let_def by blast

theorem resolveCollision_frame_witness:
  "position (meshes (resolveCollision demoLib pairCollision 1 twoBoxWorld) 0) = Vector3 (- 1 / 4) 0 0 \<and>
   position (meshes (resolveCollision demoLib pairCollision 1 twoBoxWorld) 1) = Vector3 (7 / 4) 0 0 \<and>
   meshes (resolveCollision demoLib pairCollision 1 twoBoxWorld) 2 = meshes twoBoxWorld 2 \<and>
   obj_id (objs (resolveCollision demoLib pairCollision 1 twoBoxWorld) 0) = ''box'' \<and>
   mesh (objs (resolveCollision demoLib pairCollision 1 twoBoxWorld) 1) = 1 \<and>
   objs (resolveCollision demoLib pairCollision 1 twoBoxWorld) 2 = objs twoBoxWorld 2 \<and>
   objects (resolveCollision demoLib pairCollision 1 twoBoxWorld) = objects twoBoxWorld"
proof -
  have m: "mesh (objs twoBoxWorld (object1 pairCollision)) = 0"
    "mesh (objs twoBoxWorld (object2 pairCollision)) = 1"
    by (simp_all add: pairCollision_def twoBoxWorld_state twoBoxWorld_second)
  then have "mesh (objs twoBoxWorld (object1 pairCollision)) \<noteq> mesh (objs twoBoxWorld (object2 pairCollision))"
    by simp
  from resolveCollision_frame[OF this, of 1 demoLib] m show ?thesis
    by (auto simp: Let_def pairCollision_def twoBoxWorld_meshes cubeMesh_def multiplyScalar_def
        sub_v_def add_v_def twoBoxWorld_state twoBoxWorld_second)
qed

text \<open>
  The OBB written by \<^verbatim>\<open>updateFromMesh\<close> is computed from the world matrix of the mesh, which the
  change of the position does not touch: in the scene of the two cubes the meshes move to
  \<open>-1/4\<close> and \<open>7/4\<close> while the centres of the two OBBs stay at \<open>0\<close> and \<open>3/2\<close>.
\<close>

lemma fromMesh_position:
  "fst (fromMesh lib (m\<lparr>position := p\<rparr>) geos) = fst (fromMesh lib m geos)"
  by (simp add: fromMesh_def Let_def split: option.splits)

lemma twoBoxWorld_geometries:
  "geometries twoBoxWorld n =
     \<lparr>boundingBox = (if n = 0 then Some \<lparr>bmin = Vector3 (-1) (-1) (-1), bmax = Vector3 1 1 1\<rparr> else None),
      vertices = [Vector3 (-1) (-1) (-1), Vector3 1 1 1]\<rparr>"
  by (simp add: twoBoxWorld_def addObject_def Let_def split_beta demoLib_def
      cubeMesh_def fromMesh_def oneBoxWorld_geometries oneBoxWorld_meshes)

lemma fromMesh_cube_twoBoxWorld:
  "fst (fromMesh demoLib (cubeMesh n) (geometries twoBoxWorld))
     = axisAlignedBox (Vector3 (3 * real n / 2) 0 0) (Vector3 1 1 1)"
  by (simp add: fromMesh_def twoBoxWorld_geometries demoLib_def cubeMesh_def Let_def translation_def
      getCenter_def getSize_def isEmpty_def add_v_def sub_v_def multiplyScalar_def multiply_v_def
      length_v_def lengthSq_def axisAlignedBox_def identity3_def)

lemma resolveCollision_stale_refresh:
  "position (meshes (resolveCollision demoLib pairCollision 1 twoBoxWorld) 0) = Vector3 (- 1 / 4) 0 0 \<and>
   position (meshes (resolveCollision demoLib pairCollision 1 twoBoxWorld) 1) = Vector3 (7 / 4) 0 0 \<and>
   center (obb (objs (resolveCollision demoLib pairCollision 1 twoBoxWorld) 0)) = Vector3 0 0 0 \<and>
   center (obb (objs (resolveCollision demoLib pairCollision 1 twoBoxWorld) 1)) = Vector3 (3 / 2) 0 0"
proof -
  have m: "mesh (objs twoBoxWorld (object1 pairCollision)) = 0"
    "mesh (objs twoBoxWorld (object2 pairCollision)) = 1"
    by (simp_all add: pairCollision_def twoBoxWorld_state twoBoxWorld_second)
  then have "mesh (objs twoBoxWorld (object1 pairCollision)) \<noteq> mesh (objs twoBoxWorld (object2 pairCollision))"
    by simp
  from resolveCollision_effect[OF this, of 1 demoLib] m show ?thesis
    by (simp add: Let_def pairCollision_def twoBoxWorld_meshes multiplyScalar_def
        twoBoxWorld_state twoBoxWorld_second fromMesh_position fromMesh_cube_twoBoxWorld
        axisAlignedBox_def)
       (simp add: cubeMesh_def sub_v_def add_v_def)
qed


subsection \<open>The axes the loop tests\<close>

lemma projectOnAxis_extent:
  "pmin (projectOnAxis b v) = dot (center b) v - extentOn b v"
  "pmax (projectOnAxis b v) = dot (center b) v + extentOn b v"
  by (simp_all add: projectOnAxis_def extentOn_def Let_def)

lemma dot_multiplyScalar: "dot x (multiplyScalar v k) = k * dot x v"
  by (simp add: dot_def multiplyScalar_def algebra_simps)

lemma extentOn_scale: "0 \<le> k \<Longrightarrow> extentOn b (multiplyScalar v k) = k * extentOn b v"
  by (simp add: extentOn_def dot_multiplyScalar abs_mult algebra_simps)

lemma overlapOn_scale:
  assumes "0 < k"
  shows "overlapOn a b (multiplyScalar v k) = k * overlapOn a b v"
proof -
  have k: "0 \<le> k" using assms by simp
  have "min (k * x) (k * y) - max (k * z) (k * w) = k * (min x y - max z w)" for x y z w :: real
    using assms by (simp add: min_def max_def algebra_simps)
  then show ?thesis
    by (simp add: overlapOn_def Let_def projectOnAxis_extent dot_multiplyScalar extentOn_scale[OF k]
        right_diff_distrib[symmetric] distrib_left[symmetric])
qed

lemma overlapOn_normalize_pos:
  assumes "0 < lengthSq v"
  shows "0 < overlapOn a b (normalize_v v) \<longleftrightarrow> 0 < overlapOn a b v"
proof -
  have l: "0 < length_v v" using assms by (simp add: length_v_def)
  then have "normalize_v v = multiplyScalar v (1 / length_v v)" by (simp add: normalize_v_def)
  moreover have "0 < 1 / length_v v" using l by simp
  ultimately show ?thesis
    using overlapOn_scale[of "1 / length_v v" a b v] l by (simp add: zero_less_divide_iff)
qed

lemma overlapOn_pos:
  assumes "\<bar>dot (center b) v - dot (center a) v\<bar> < extentOn a v + extentOn b v"
    and "0 < extentOn a v" and "0 < extentOn b v"
  shows "0 < overlapOn a b v"
  using assms by (simp add: overlapOn_def Let_def projectOnAxis_extent min_def max_def abs_if split: if_splits)


lemma rodCos_sq: "rodCos * rodCos = 999999 / 1000000"
  by (simp add: rodCos_def)

lemma rodCos_bounds: "999999 / 1000000 < rodCos" "rodCos < 1"
proof -
  have "sqrt ((999999 / 1000) ^ 2) < sqrt 999999" by (subst real_sqrt_less_iff) (simp add: power2_eq_square)
  then show "999999 / 1000000 < rodCos" by (simp add: rodCos_def)
  have "sqrt 999999 < sqrt (1000 ^ 2)" by (subst real_sqrt_less_iff) simp
  then show "rodCos < 1" by (simp add: rodCos_def)
qed

lemma rodCos_abs [simp]: "\<bar>rodCos\<bar> = rodCos"
  using rodCos_bounds by simp

lemma getAxes_rods:
  "getAxes rodA = [Vector3 1 0 0, Vector3 0 (3/5) (4/5), Vector3 0 (-4/5) (3/5)]"
  "getAxes rodB = [Vector3 rodCos (1/1000) 0, Vector3 (-3/5000) (3/5 * rodCos) (4/5),
                   Vector3 (4/5000) (-4/5 * rodCos) (3/5)]"
  by (simp_all add: getAxes_def rodA_def rodB_def)

lemma orthonormal_rods: "orthonormal (orientation rodA)" "orthonormal (orientation rodB)"
proof -
  show "orthonormal (orientation rodA)"
    by (simp add: orthonormal_def rodA_def dot_def)
  have "rodCos * (rodCos * 9) = 9 * (rodCos * rodCos)" "rodCos * (rodCos * 16) = 16 * (rodCos * rodCos)"
    "rodCos * (rodCos * 12) = 12 * (rodCos * rodCos)"
    by simp_all
  then show "orthonormal (orientation rodB)"
    by (simp add: orthonormal_def rodB_def dot_def rodCos_sq)
qed

lemma rods_fields:
  "center rodA = Vector3 0 0 0" "halfExtents rodA = Vector3 10000 1 1"
  "center rodB = Vector3 0 0 3" "halfExtents rodB = Vector3 10000 1 1"
  by (simp_all add: rodA_def rodB_def)

lemma dot_rods:
  "dot (getAxes rodA ! 0) (Vector3 p q r) = p"
  "dot (getAxes rodA ! 1) (Vector3 p q r) = 3/5 * q + 4/5 * r"
  "dot (getAxes rodA ! 2) (Vector3 p q r) = - (4/5) * q + 3/5 * r"
  "dot (getAxes rodB ! 0) (Vector3 p q r) = rodCos * p + q / 1000"
  "dot (getAxes rodB ! 1) (Vector3 p q r) = - (3/5000) * p + 3/5 * rodCos * q + 4/5 * r"
  "dot (getAxes rodB ! 2) (Vector3 p q r) = 4/5000 * p - 4/5 * rodCos * q + 3/5 * r"
  by (simp_all add: getAxes_rods dot_def)

lemma extentOn_rods:
  "extentOn rodA (Vector3 p q r) = \<bar>p\<bar> * 10000 + \<bar>3/5 * q + 4/5 * r\<bar> + \<bar>- (4/5) * q + 3/5 * r\<bar>"
  "extentOn rodB (Vector3 p q r) =
     \<bar>rodCos * p + q / 1000\<bar> * 10000 + \<bar>- (3/5000) * p + 3/5 * rodCos * q + 4/5 * r\<bar>
       + \<bar>4/5000 * p - 4/5 * rodCos * q + 3/5 * r\<bar>"
proof -
  have c: "\<bar>x * 10000\<bar> = \<bar>x\<bar> * 10000" for x :: real by (simp add: abs_mult)
  show "extentOn rodA (Vector3 p q r) = \<bar>p\<bar> * 10000 + \<bar>3/5 * q + 4/5 * r\<bar> + \<bar>- (4/5) * q + 3/5 * r\<bar>"
    unfolding extentOn_def dot_rods rods_fields Vector3.sel c mult_1_right by (rule refl)
  show "extentOn rodB (Vector3 p q r) =
     \<bar>rodCos * p + q / 1000\<bar> * 10000 + \<bar>- (3/5000) * p + 3/5 * rodCos * q + 4/5 * r\<bar>
       + \<bar>4/5000 * p - 4/5 * rodCos * q + 3/5 * r\<bar>"
    unfolding extentOn_def dot_rods rods_fields Vector3.sel c mult_1_right by (rule refl)
qed

lemma sum_abs_pos:
  fixes x y z :: real
  assumes "x \<noteq> 0 \<or> y \<noteq> 0 \<or> z \<noteq> 0"
  shows "0 < \<bar>x\<bar> * 10000 + \<bar>y\<bar> + \<bar>z\<bar>"
  using assms by arith

lemma rods_center: "dot (center rodB) (Vector3 p q r) - dot (center rodA) (Vector3 p q r) = 3 * r"
  by (simp add: rods_fields dot_def)

lemma rod_axis_pos:
  assumes big: "3 * \<bar>r\<bar> < \<bar>p\<bar> * 10000 + \<bar>rodCos * p + q / 1000\<bar> * 10000"
    and posA: "p \<noteq> 0 \<or> 3/5 * q + 4/5 * r \<noteq> 0 \<or> - (4/5) * q + 3/5 * r \<noteq> 0"
    and posB: "rodCos * p + q / 1000 \<noteq> 0 \<or> - (3/5000) * p + 3/5 * rodCos * q + 4/5 * r \<noteq> 0
               \<or> 4/5000 * p - 4/5 * rodCos * q + 3/5 * r \<noteq> 0"
  shows "0 < overlapOn rodA rodB (Vector3 p q r)"
proof (rule overlapOn_pos)
  have t: "\<bar>3 * r\<bar> = 3 * \<bar>r\<bar>" by simp
  show "\<bar>dot (center rodB) (Vector3 p q r) - dot (center rodA) (Vector3 p q r)\<bar>
          < extentOn rodA (Vector3 p q r) + extentOn rodB (Vector3 p q r)"
    unfolding rods_center extentOn_rods t using big by linarith
  show "0 < extentOn rodA (Vector3 p q r)"
    unfolding extentOn_rods by (rule sum_abs_pos[OF posA])
  show "0 < extentOn rodB (Vector3 p q r)"
    unfolding extentOn_rods by (rule sum_abs_pos[OF posB])
qed


lemma rodCos_sq': "rodCos * (rodCos * x) = 999999 / 1000000 * x"
  using rodCos_sq by (simp add: mult.assoc[symmetric])

lemma rods_own_overlap_0: "0 < overlapOn rodA rodB (Vector3 1 0 0)"
  by (rule rod_axis_pos) (use rodCos_bounds in \<open>simp_all add: rodCos_sq rodCos_sq'\<close>)

lemma rods_own_overlap_1: "0 < overlapOn rodA rodB (Vector3 0 (3/5) (4/5))"
  by (rule rod_axis_pos) (use rodCos_bounds in \<open>simp_all add: rodCos_sq rodCos_sq'\<close>)

lemma rods_own_overlap_2: "0 < overlapOn rodA rodB (Vector3 0 (-4/5) (3/5))"
  by (rule rod_axis_pos) (use rodCos_bounds in \<open>simp_all add: rodCos_sq rodCos_sq'\<close>)

lemma rods_own_overlap_3: "0 < overlapOn rodA rodB (Vector3 rodCos (1/1000) 0)"
  by (rule rod_axis_pos) (use rodCos_bounds in \<open>simp_all add: rodCos_sq rodCos_sq'\<close>)

lemma rods_own_overlap_4: "0 < overlapOn rodA rodB (Vector3 (-3/5000) (3/5 * rodCos) (4/5))"
  by (rule rod_axis_pos) (use rodCos_bounds in \<open>simp_all add: rodCos_sq rodCos_sq'\<close>)

lemma rods_own_overlap_5: "0 < overlapOn rodA rodB (Vector3 (4/5000) (-4/5 * rodCos) (3/5))"
  by (rule rod_axis_pos) (use rodCos_bounds in \<open>simp_all add: rodCos_sq rodCos_sq'\<close>)

lemma rods_cross_overlap_0: "0 < overlapOn rodA rodB (Vector3 0 (-4/5) (3/5 * rodCos))"
  by (rule rod_axis_pos) (use rodCos_bounds in \<open>simp_all add: rodCos_sq rodCos_sq' algebra_simps\<close>)

lemma rods_cross_overlap_1: "0 < overlapOn rodA rodB (Vector3 0 (-3/5) (-4/5 * rodCos))"
  by (rule rod_axis_pos) (use rodCos_bounds in \<open>simp_all add: rodCos_sq rodCos_sq' algebra_simps\<close>)

lemma rods_cross_overlap_2: "0 < overlapOn rodA rodB (Vector3 (-4/5000) (4/5 * rodCos) (-3/5 * rodCos))"
  by (rule rod_axis_pos) (use rodCos_bounds in \<open>simp_all add: rodCos_sq rodCos_sq' algebra_simps\<close>)

lemma rods_cross_overlap_3: "0 < overlapOn rodA rodB (Vector3 (9/25 + 16/25 * rodCos) (16/25000) (-12/25000))"
  by (rule rod_axis_pos) (use rodCos_bounds in \<open>simp_all add: rodCos_sq rodCos_sq' algebra_simps\<close>)

lemma rods_cross_overlap_4: "0 < overlapOn rodA rodB (Vector3 (-3/5000) (3/5 * rodCos) (4/5 * rodCos))"
  by (rule rod_axis_pos) (use rodCos_bounds in \<open>simp_all add: rodCos_sq rodCos_sq' algebra_simps\<close>)

lemma rods_cross_overlap_5: "0 < overlapOn rodA rodB (Vector3 (- (16/25) - 9/25 * rodCos) (-9/25000) (-12/25000))"
  by (rule rod_axis_pos) (use rodCos_bounds in \<open>simp_all add: rodCos_sq rodCos_sq' algebra_simps\<close>)

lemma rods_cross:
  "cross (Vector3 1 0 0) (Vector3 rodCos (1/1000) 0) = Vector3 0 0 (1/1000)"
  "cross (Vector3 1 0 0) (Vector3 (-3/5000) (3/5 * rodCos) (4/5)) = Vector3 0 (-4/5) (3/5 * rodCos)"
  "cross (Vector3 1 0 0) (Vector3 (4/5000) (-4/5 * rodCos) (3/5)) = Vector3 0 (-3/5) (-4/5 * rodCos)"
  "cross (Vector3 0 (3/5) (4/5)) (Vector3 rodCos (1/1000) 0) = Vector3 (-4/5000) (4/5 * rodCos) (-3/5 * rodCos)"
  "cross (Vector3 0 (3/5) (4/5)) (Vector3 (-3/5000) (3/5 * rodCos) (4/5))
     = Vector3 (12/25 - 12/25 * rodCos) (-12/25000) (9/25000)"
  "cross (Vector3 0 (3/5) (4/5)) (Vector3 (4/5000) (-4/5 * rodCos) (3/5))
     = Vector3 (9/25 + 16/25 * rodCos) (16/25000) (-12/25000)"
  "cross (Vector3 0 (-4/5) (3/5)) (Vector3 rodCos (1/1000) 0) = Vector3 (-3/5000) (3/5 * rodCos) (4/5 * rodCos)"
  "cross (Vector3 0 (-4/5) (3/5)) (Vector3 (-3/5000) (3/5 * rodCos) (4/5))
     = Vector3 (- (16/25) - 9/25 * rodCos) (-9/25000) (-12/25000)"
  "cross (Vector3 0 (-4/5) (3/5)) (Vector3 (4/5000) (-4/5 * rodCos) (3/5))
     = Vector3 (12/25 * rodCos - 12/25) (12/25000) (16/25000)"
  by (simp_all add: cross_def)


lemma rods_dropped:
  "\<not> lengthSq (Vector3 0 0 (1/1000)) > epsilon"
  "\<not> lengthSq (Vector3 (12/25 - 12/25 * rodCos) (-12/25000) (9/25000)) > epsilon"
  "\<not> lengthSq (Vector3 (12/25 * rodCos - 12/25) (12/25000) (16/25000)) > epsilon"
proof -
  show "\<not> lengthSq (Vector3 0 0 (1/1000)) > epsilon"
    by (simp add: lengthSq_def epsilon_def)
  have sq: "(1 - rodCos) * (1 - rodCos) = 1999999 / 1000000 - 2 * rodCos"
    using rodCos_sq by (simp add: algebra_simps)
  have small: "(1 - rodCos) * (1 - rodCos) < 1 / 1000000"
    unfolding sq using rodCos_bounds(1) by simp
  have 1: "(12/25 - 12/25 * rodCos) * (12/25 - 12/25 * rodCos) = 144/625 * ((1 - rodCos) * (1 - rodCos))"
    by (simp add: algebra_simps)
  have 2: "(12/25 * rodCos - 12/25) * (12/25 * rodCos - 12/25) = 144/625 * ((1 - rodCos) * (1 - rodCos))"
    by (simp add: algebra_simps)
  show "\<not> lengthSq (Vector3 (12/25 - 12/25 * rodCos) (-12/25000) (9/25000)) > epsilon"
    unfolding lengthSq_def Vector3.sel 1 epsilon_def using small by simp
  show "\<not> lengthSq (Vector3 (12/25 * rodCos - 12/25) (12/25000) (16/25000)) > epsilon"
    unfolding lengthSq_def Vector3.sel 2 epsilon_def using small by simp
qed

lemma getAxes_rods_named:
  "getAxes rodA = [rodA0, rodA1, rodA2]" "getAxes rodB = [rodB0, rodB1, rodB2]"
  unfolding getAxes_rods rodA0_def rodA1_def rodA2_def rodB0_def rodB1_def rodB2_def by (rule refl)+

lemma rods_named_own_A0: "0 < overlapOn rodA rodB rodA0"
  unfolding rodA0_def by (rule rods_own_overlap_0)

lemma rods_named_own_B0: "0 < overlapOn rodA rodB rodB0"
  unfolding rodB0_def by (rule rods_own_overlap_3)

lemma rods_named_own_A1: "0 < overlapOn rodA rodB rodA1"
  unfolding rodA1_def by (rule rods_own_overlap_1)

lemma rods_named_own_B1: "0 < overlapOn rodA rodB rodB1"
  unfolding rodB1_def by (rule rods_own_overlap_4)

lemma rods_named_own_A2: "0 < overlapOn rodA rodB rodA2"
  unfolding rodA2_def by (rule rods_own_overlap_2)

lemma rods_named_own_B2: "0 < overlapOn rodA rodB rodB2"
  unfolding rodB2_def by (rule rods_own_overlap_5)

lemma rods_pair_0_0: "lengthSq (cross rodA0 rodB0) > epsilon \<longrightarrow> 0 < overlapOn rodA rodB (cross rodA0 rodB0)"
  unfolding rodA0_def rodB0_def rods_cross using rods_dropped(1) by blast

lemma rods_pair_0_1: "lengthSq (cross rodA0 rodB1) > epsilon \<longrightarrow> 0 < overlapOn rodA rodB (cross rodA0 rodB1)"
  unfolding rodA0_def rodB1_def rods_cross by (intro impI) (rule rods_cross_overlap_0)

lemma rods_pair_0_2: "lengthSq (cross rodA0 rodB2) > epsilon \<longrightarrow> 0 < overlapOn rodA rodB (cross rodA0 rodB2)"
  unfolding rodA0_def rodB2_def rods_cross by (intro impI) (rule rods_cross_overlap_1)

lemma rods_pair_1_0: "lengthSq (cross rodA1 rodB0) > epsilon \<longrightarrow> 0 < overlapOn rodA rodB (cross rodA1 rodB0)"
  unfolding rodA1_def rodB0_def rods_cross by (intro impI) (rule rods_cross_overlap_2)

lemma rods_pair_1_1: "lengthSq (cross rodA1 rodB1) > epsilon \<longrightarrow> 0 < overlapOn rodA rodB (cross rodA1 rodB1)"
  unfolding rodA1_def rodB1_def rods_cross using rods_dropped(2) by blast

lemma rods_pair_1_2: "lengthSq (cross rodA1 rodB2) > epsilon \<longrightarrow> 0 < overlapOn rodA rodB (cross rodA1 rodB2)"
  unfolding rodA1_def rodB2_def rods_cross by (intro impI) (rule rods_cross_overlap_3)

lemma rods_pair_2_0: "lengthSq (cross rodA2 rodB0) > epsilon \<longrightarrow> 0 < overlapOn rodA rodB (cross rodA2 rodB0)"
  unfolding rodA2_def rodB0_def rods_cross by (intro impI) (rule rods_cross_overlap_4)

lemma rods_pair_2_1: "lengthSq (cross rodA2 rodB1) > epsilon \<longrightarrow> 0 < overlapOn rodA rodB (cross rodA2 rodB1)"
  unfolding rodA2_def rodB1_def rods_cross by (intro impI) (rule rods_cross_overlap_5)

lemma rods_pair_2_2: "lengthSq (cross rodA2 rodB2) > epsilon \<longrightarrow> 0 < overlapOn rodA rodB (cross rodA2 rodB2)"
  unfolding rodA2_def rodB2_def rods_cross using rods_dropped(3) by blast

lemma rods_all_tested_overlap:
  "\<forall>u\<in>set (testedAxes rodA rodB). 0 < overlapOn rodA rodB u"
proof
  fix u assume "u \<in> set (testedAxes rodA rodB)"
  then obtain v where u: "u = normalize_v v"
    and v: "(v \<in> set (getAxes rodA) \<union> set (getAxes rodB) \<and> \<not> lengthSq v < epsilon) \<or>
            (\<exists>x y. v = cross x y \<and> x \<in> set (getAxes rodA) \<and> y \<in> set (getAxes rodB) \<and>
                   lengthSq (cross x y) > epsilon)"
    unfolding set_testedAxes by blast
  have eps: "0 < epsilon" by (simp add: epsilon_def)
  from v have len: "0 < lengthSq v" using eps by auto
  from v have "0 < overlapOn rodA rodB v"
  proof
    assume "v \<in> set (getAxes rodA) \<union> set (getAxes rodB) \<and> \<not> lengthSq v < epsilon"
    then show ?thesis
      using rods_named_own_A0 rods_named_own_A1 rods_named_own_A2
        rods_named_own_B0 rods_named_own_B1 rods_named_own_B2
      by (auto simp: getAxes_rods_named)
  next
    assume "\<exists>x y. v = cross x y \<and> x \<in> set (getAxes rodA) \<and> y \<in> set (getAxes rodB) \<and>
                   lengthSq (cross x y) > epsilon"
    then show ?thesis
      using rods_pair_0_0 rods_pair_0_1 rods_pair_0_2 rods_pair_1_0 rods_pair_1_1 rods_pair_1_2
        rods_pair_2_0 rods_pair_2_1 rods_pair_2_2
      by (auto simp: getAxes_rods_named)
  qed
  with overlapOn_normalize_pos[OF len] u show "0 < overlapOn rodA rodB u" by simp
qed

lemma rods_candidate:
  "Vector3 0 0 1 \<in> set (candidateAxes rodA rodB)" "overlapOn rodA rodB (Vector3 0 0 1) = - (1/5)"
proof -
  have c: "cross rodA0 rodB0 = Vector3 0 0 (1/1000)"
    unfolding rodA0_def rodB0_def by (rule rods_cross(1))
  have n: "normalize_v (cross rodA0 rodB0) = Vector3 0 0 1"
    unfolding c
    by (simp add: normalize_v_def length_v_def lengthSq_def multiplyScalar_def real_sqrt_divide)
  have f: "\<not> lengthSq (cross rodA0 rodB0) < epsilon"
    unfolding c by (simp add: lengthSq_def epsilon_def)
  have m: "cross rodA0 rodB0 \<in>
      set (getAxes rodA @ getAxes rodB @ concat (map (\<lambda>x. map (cross x) (getAxes rodB)) (getAxes rodA)))"
    by (simp add: getAxes_rods_named)
  have "normalize_v (cross rodA0 rodB0) \<in> set (candidateAxes rodA rodB)"
    unfolding candidateAxes_def set_map set_filter by (rule imageI) (use m f in simp)
  with n show "Vector3 0 0 1 \<in> set (candidateAxes rodA rodB)" by simp
  show "overlapOn rodA rodB (Vector3 0 0 1) = - (1/5)"
    by (simp add: overlapOn_def Let_def projectOnAxis_extent extentOn_rods rods_fields dot_def)
qed

text \<open>
  The claim as stated fails where a cross product has squared length exactly the tolerance:
  \<^verbatim>\<open>getCrossProductAxes\<close> keeps a cross product only when its squared length is above the
  tolerance, so the loop never sees it. For the two rods the normalised cross product of the
  long axes is a candidate in the sense of the claim and separates the rods (overlap -1/5),
  yet \<^verbatim>\<open>intersects\<close> reports a collision.
\<close>

theorem sat_candidate_boundary_counterexample:
  "orthonormal (orientation rodA) \<and> orthonormal (orientation rodB) \<and>
   Vector3 0 0 1 \<in> set (candidateAxes rodA rodB) \<and> overlapOn rodA rodB (Vector3 0 0 1) \<le> 0 \<and>
   (case intersects rodA rodB of Inl e \<Rightarrow> False | Inr res \<Rightarrow> isColliding res)"
proof -
  from intersects_total[of rodA rodB] orthonormal_rods rods_all_tested_overlap
  obtain res where "intersects rodA rodB = Inr res" "isColliding res" by blast
  then show ?thesis
    using orthonormal_rods rods_candidate by simp
qed


lemma getAxes_unit:
  assumes "orthonormal (orientation a)" "v \<in> set (getAxes a)"
  shows "dot v v = 1"
proof -
  have "length (getAxes a) = 3" by (simp add: getAxes_def)
  with assms(2) obtain i where "i < 3" "v = getAxes a ! i"
    by (metis in_set_conv_nth)
  with orthonormal_axes[OF assms(1), of i i] show ?thesis by simp
qed

lemma orthonormal_tested_set:
  assumes "orthonormal (orientation a)" "orthonormal (orientation b)"
  shows "set (testedAxes a b) =
           set (getAxes a) \<union> set (getAxes b) \<union>
           normalize_v ` {cross x y | x y. x \<in> set (getAxes a) \<and> y \<in> set (getAxes b) \<and>
                                         lengthSq (cross x y) > epsilon}"
proof -
  have unit: "dot v v = 1" if "v \<in> set (getAxes a) \<union> set (getAxes b)" for v
    using that getAxes_unit[OF assms(1)] getAxes_unit[OF assms(2)] by blast
  have "normalize_v ` {v \<in> set (getAxes a) \<union> set (getAxes b). \<not> lengthSq v < epsilon}
          = set (getAxes a) \<union> set (getAxes b)"
  proof (intro set_eqI iffI)
    fix u assume "u \<in> normalize_v ` {v \<in> set (getAxes a) \<union> set (getAxes b). \<not> lengthSq v < epsilon}"
    then obtain v where "v \<in> set (getAxes a) \<union> set (getAxes b)" "u = normalize_v v" by blast
    with unit[of v] normalize_unit[of v] show "u \<in> set (getAxes a) \<union> set (getAxes b)" by simp
  next
    fix u assume u: "u \<in> set (getAxes a) \<union> set (getAxes b)"
    from unit[OF u] have "\<not> lengthSq u < epsilon" "normalize_v u = u"
      by (simp_all add: lengthSq_dot epsilon_def normalize_unit)
    with u show "u \<in> normalize_v ` {v \<in> set (getAxes a) \<union> set (getAxes b). \<not> lengthSq v < epsilon}"
      by (metis (mono_tags, lifting) image_eqI mem_Collect_eq)
  qed
  then show ?thesis
    unfolding set_testedAxes image_Un by simp
qed

text \<open>
  Claim C1, amended. For boxes with orthonormal orientations \<^verbatim>\<open>intersects\<close> returns a result; it
  reports no collision exactly when some tested axis has overlap
  \<open>min(max1, max2) - max(min1, min2) \<le> 0\<close>, and when it reports a collision the penetration
  depth is the minimum of the overlaps on the tested axes, all of which are strictly positive.
  The tested axes are the three axes of each box and the normalised pairwise cross products
  whose squared length is strictly above 1/1000000 (a cross product of squared length exactly
  1/1000000 is not tested).
\<close>

theorem sat_tested_axes:
  assumes "orthonormal (orientation a)" and "orthonormal (orientation b)"
  shows "\<exists>r. intersects a b = Inr r \<and>
           (\<not> isColliding r \<longleftrightarrow> (\<exists>u\<in>set (testedAxes a b). overlapOn a b u \<le> 0)) \<and>
           (isColliding r \<longrightarrow> 0 < penetrationDepth r \<and>
              penetrationDepth r = Min (overlapOn a b ` set (testedAxes a b))) \<and>
           set (testedAxes a b) =
             set (getAxes a) \<union> set (getAxes b) \<union>
             normalize_v ` {cross x y | x y. x \<in> set (getAxes a) \<and> y \<in> set (getAxes b) \<and>
                                           lengthSq (cross x y) > epsilon}"
proof -
  from intersects_total[of a b] assms(1) obtain r where r: "intersects a b = Inr r"
    "isColliding r \<longleftrightarrow> (\<forall>u\<in>set (testedAxes a b). 0 < overlapOn a b u)"
    "penetrationDepth r = (if isColliding r then Min (overlapOn a b ` set (testedAxes a b)) else 0)"
    by blast
  let ?S = "overlapOn a b ` set (testedAxes a b)"
  have ne: "?S \<noteq> {}" using testedAxes_nonempty(1)[OF assms(1), of b] by simp
  have 1: "\<not> isColliding r \<longleftrightarrow> (\<exists>u\<in>set (testedAxes a b). overlapOn a b u \<le> 0)"
    using r(2) by (auto simp: not_less)
  have 2: "0 < penetrationDepth r \<and> penetrationDepth r = Min ?S" if c: "isColliding r"
  proof -
    from c r(2) have "\<forall>x\<in>?S. 0 < x" by auto
    then have "0 < Min ?S" using ne by simp
    with c r(3) show ?thesis by simp
  qed
  from r(1) 1 2 orthonormal_tested_set[OF assms] show ?thesis by blast
qed

lemma intersects_cubes_overlapping:
  "intersects (axisAlignedBox (Vector3 0 0 0) (Vector3 1 1 1)) (axisAlignedBox (Vector3 (3/2) 0 0) (Vector3 1 1 1))
     = Inr \<lparr>isColliding = True, penetrationDepth = 1 / 2, separatingAxis = Vector3 1 0 0,
            contactPoint = Vector3 1 0 0\<rparr>"
  by (rule intersects_cubes(2))

theorem sat_tested_axes_witness:
  "Min (overlapOn (axisAlignedBox (Vector3 0 0 0) (Vector3 1 1 1))
                  (axisAlignedBox (Vector3 (3/2) 0 0) (Vector3 1 1 1)) `
        set (testedAxes (axisAlignedBox (Vector3 0 0 0) (Vector3 1 1 1))
                        (axisAlignedBox (Vector3 (3/2) 0 0) (Vector3 1 1 1)))) = 1 / 2 \<and>
   \<not> (\<exists>u\<in>set (testedAxes (axisAlignedBox (Vector3 0 0 0) (Vector3 1 1 1))
                           (axisAlignedBox (Vector3 (3/2) 0 0) (Vector3 1 1 1))).
        overlapOn (axisAlignedBox (Vector3 0 0 0) (Vector3 1 1 1))
                  (axisAlignedBox (Vector3 (3/2) 0 0) (Vector3 1 1 1)) u \<le> 0)"
proof -
  let ?a = "axisAlignedBox (Vector3 0 0 0) (Vector3 1 1 1)"
  let ?b = "axisAlignedBox (Vector3 (3/2) 0 0) (Vector3 1 1 1)"
  have o: "orthonormal (orientation ?a)" "orthonormal (orientation ?b)"
    by (simp_all add: orthonormal_identity3)
  from sat_tested_axes[OF o] obtain r where rr: "intersects ?a ?b = Inr r \<and>
    (\<not> isColliding r \<longleftrightarrow> (\<exists>u\<in>set (testedAxes ?a ?b). overlapOn ?a ?b u \<le> 0)) \<and>
    (isColliding r \<longrightarrow> 0 < penetrationDepth r \<and>
       penetrationDepth r = Min (overlapOn ?a ?b ` set (testedAxes ?a ?b))) \<and>
    set (testedAxes ?a ?b) =
             set (getAxes ?a) \<union> set (getAxes ?b) \<union>
             normalize_v ` {cross x y | x y. x \<in> set (getAxes ?a) \<and> y \<in> set (getAxes ?b) \<and>
                                           lengthSq (cross x y) > epsilon}" ..
  note r = rr[THEN conjunct1] rr[THEN conjunct2, THEN conjunct1]
    rr[THEN conjunct2, THEN conjunct2, THEN conjunct1]
  from r(1) have "Inr r = (Inr \<lparr>isColliding = True, penetrationDepth = 1 / 2,
      separatingAxis = Vector3 1 0 0, contactPoint = Vector3 1 0 0\<rparr> :: js_error + OBBCollisionResult)"
    by (simp only: intersects_cubes_overlapping)
  then have req: "r = \<lparr>isColliding = True, penetrationDepth = 1 / 2,
      separatingAxis = Vector3 1 0 0, contactPoint = Vector3 1 0 0\<rparr>"
    by (simp only: sum.inject)
  have c: "isColliding r" and d: "penetrationDepth r = 1 / 2"
    unfolding req by simp_all
  from r(2) c have n: "\<not> (\<exists>u\<in>set (testedAxes ?a ?b). overlapOn ?a ?b u \<le> 0)" by blast
  from r(3) c d have "Min (overlapOn ?a ?b ` set (testedAxes ?a ?b)) = 1 / 2" by simp
  with n show ?thesis by blast
qed

subsection \<open>Touching boxes\<close>

lemma overlapOn_pos_iff:
  "0 < overlapOn a b v \<longleftrightarrow>
     \<bar>dot (center b) v - dot (center a) v\<bar> < extentOn a v + extentOn b v \<and>
     0 < extentOn a v \<and> 0 < extentOn b v"
  by (auto simp: overlapOn_def Let_def projectOnAxis_extent min_def max_def abs_if split: if_splits)

lemma rodC_fields:
  "getAxes rodC = getAxes rodB" "halfExtents rodC = halfExtents rodB"
  "center rodC = Vector3 0 0 (14/5)" "orientation rodC = orientation rodB"
  by (simp_all add: rodC_def getAxes_def)

lemma rodC_axes:
  "testedAxes rodA rodC = testedAxes rodA rodB" "candidateAxes rodA rodC = candidateAxes rodA rodB"
  "extentOn rodC v = extentOn rodB v"
  by (simp_all add: testedAxes_def allAxes_def candidateAxes_def extentOn_def rodC_fields)

lemma rodC_overlap:
  assumes "0 < overlapOn rodA rodB v"
  shows "0 < overlapOn rodA rodC v"
proof -
  have "\<bar>dot (center rodC) v - dot (center rodA) v\<bar> \<le> \<bar>dot (center rodB) v - dot (center rodA) v\<bar>"
    by (cases v) (simp add: rodC_fields rods_fields dot_def)
  with assms show ?thesis
    unfolding overlapOn_pos_iff rodC_axes by linarith
qed

lemma rodC_touching:
  "overlapOn rodA rodC (Vector3 0 0 1) = 0"
  by (simp add: overlapOn_def Let_def projectOnAxis_extent extentOn_rods rods_fields dot_def
      rodC_axes rodC_fields)

text \<open>
  The claim as stated fails for the candidate axes of the specification: with the second rod
  at height 14/5 the projections of the two rods on the normalised cross product of the long
  axes touch (overlap exactly 0), but that cross product has squared length exactly the
  tolerance and is never tested; all tested axes overlap and \<^verbatim>\<open>intersects\<close> reports a collision.
\<close>

theorem touching_candidate_counterexample:
  "orthonormal (orientation rodA) \<and> orthonormal (orientation rodC) \<and>
   Vector3 0 0 1 \<in> set (candidateAxes rodA rodC) \<and> overlapOn rodA rodC (Vector3 0 0 1) = 0 \<and>
   (case intersects rodA rodC of Inl e \<Rightarrow> False | Inr res \<Rightarrow> isColliding res)"
proof -
  have "\<forall>u\<in>set (testedAxes rodA rodC). 0 < overlapOn rodA rodC u"
    using rods_all_tested_overlap rodC_overlap unfolding rodC_axes by blast
  with intersects_total[of rodA rodC] orthonormal_rods(1)
  obtain res where "intersects rodA rodC = Inr res" "isColliding res" by blast
  then show ?thesis
    using orthonormal_rods rods_candidate(1) rodC_touching by (simp add: rodC_axes rodC_fields)
qed


text \<open>
  Claim C9, amended. \<^verbatim>\<open>containsPoint\<close> includes the boundary and \<^verbatim>\<open>intersects\<close> excludes it: a
  point whose offset from the centre, measured along each local axis of a box with orthonormal
  orientation, is within the half-extent and reaches it exactly on some axis is contained in
  the box; two boxes whose projections have overlap exactly 0 on some axis tested by the loop
  are reported as not colliding. For orthonormal orientations the tested axes are the three
  axes of each box and the normalised pairwise cross products whose squared length is strictly
  above 1/1000000; a cross product of squared length exactly 1/1000000 is not tested.
\<close>

theorem contains_inclusive_intersects_exclusive:
  "(orthonormal (orientation b) \<and>
    (\<forall>i\<in>{0, 1, 2}. \<bar>dot (sub_v p (center b)) (getAxes b ! i)\<bar> \<le> comp (halfExtents b) i) \<and>
    (\<exists>i\<in>{0, 1, 2}. \<bar>dot (sub_v p (center b)) (getAxes b ! i)\<bar> = comp (halfExtents b) i)
      \<longrightarrow> containsPoint b p = Inr True) \<and>
   ((\<exists>u\<in>set (testedAxes a c). overlapOn a c u = 0)
      \<longrightarrow> (\<exists>r. intersects a c = Inr r \<and> \<not> isColliding r)) \<and>
   (orthonormal (orientation a) \<and> orthonormal (orientation c)
      \<longrightarrow> set (testedAxes a c) =
             set (getAxes a) \<union> set (getAxes c) \<union>
             normalize_v ` {cross x y | x y. x \<in> set (getAxes a) \<and> y \<in> set (getAxes c) \<and>
                                           lengthSq (cross x y) > epsilon})"
proof (intro conjI impI)
  assume "orthonormal (orientation b) \<and>
    (\<forall>i\<in>{0, 1, 2}. \<bar>dot (sub_v p (center b)) (getAxes b ! i)\<bar> \<le> comp (halfExtents b) i) \<and>
    (\<exists>i\<in>{0, 1, 2}. \<bar>dot (sub_v p (center b)) (getAxes b ! i)\<bar> = comp (halfExtents b) i)"
  then have "\<forall>i\<in>set [0, 1, 2]. i < 3 \<and> \<bar>dot (sub_v p (center b)) (getAxes b ! i)\<bar> \<le> comp (halfExtents b) i"
    by simp
  from containsLoop_inside[OF this] show "containsPoint b p = Inr True"
    by (simp add: containsPoint_def)
next
  assume "\<exists>u\<in>set (testedAxes a c). overlapOn a c u = 0"
  then obtain u where "u \<in> set (testedAxes a c)" "overlapOn a c u \<le> 0" by force
  then have "\<exists>u\<in>set (testedAxes a c). overlapOn a c u \<le> 0" by blast
  from intersects_separated[OF this] show "\<exists>r. intersects a c = Inr r \<and> \<not> isColliding r"
    by blast
next
  assume "orthonormal (orientation a) \<and> orthonormal (orientation c)"
  then have oa: "orthonormal (orientation a)" and oc: "orthonormal (orientation c)" by simp_all
  show "set (testedAxes a c) =
             set (getAxes a) \<union> set (getAxes c) \<union>
             normalize_v ` {cross x y | x y. x \<in> set (getAxes a) \<and> y \<in> set (getAxes c) \<and>
                                           lengthSq (cross x y) > epsilon}"
    by (rule orthonormal_tested_set[OF oa oc])
qed

theorem contains_inclusive_intersects_exclusive_witness:
  "containsPoint (axisAlignedBox (Vector3 0 0 0) (Vector3 1 1 1)) (Vector3 1 0 0) = Inr True \<and>
   (\<exists>r. intersects (axisAlignedBox (Vector3 0 0 0) (Vector3 1 1 1))
                    (axisAlignedBox (Vector3 2 0 0) (Vector3 1 1 1)) = Inr r \<and> \<not> isColliding r) \<and>
   set (getAxes (axisAlignedBox (Vector3 0 0 0) (Vector3 1 1 1)))
     \<subseteq> set (testedAxes (axisAlignedBox (Vector3 0 0 0) (Vector3 1 1 1))
                           (axisAlignedBox (Vector3 2 0 0) (Vector3 1 1 1)))"
proof -
  let ?a = "axisAlignedBox (Vector3 0 0 0) (Vector3 1 1 1)"
  let ?c = "axisAlignedBox (Vector3 2 0 0) (Vector3 1 1 1)"
  have ax: "getAxes ?a ! 0 = Vector3 1 0 0" by (simp add: getAxes_identity)
  have "getAxes ?a ! 0 \<in> set (testedAxes ?a ?c)"
    by (rule own_axis_tested) (simp_all add: orthonormal_identity3)
  moreover have "overlapOn ?a ?c (Vector3 1 0 0) = 0"
    by (simp add: overlapOn_def projectOnAxis_def getAxes_identity dot_def)
  ultimately have h2: "\<exists>u\<in>set (testedAxes ?a ?c). overlapOn ?a ?c u = 0"
    using ax by auto
  have h1: "orthonormal (orientation ?a) \<and>
    (\<forall>i\<in>{0, 1, 2}. \<bar>dot (sub_v (Vector3 1 0 0) (center ?a)) (getAxes ?a ! i)\<bar> \<le> comp (halfExtents ?a) i) \<and>
    (\<exists>i\<in>{0, 1, 2}. \<bar>dot (sub_v (Vector3 1 0 0) (center ?a)) (getAxes ?a ! i)\<bar> = comp (halfExtents ?a) i)"
    by (simp add: orthonormal_identity3 getAxes_identity dot_def sub_v_def comp_def)
  have h3: "orthonormal (orientation ?a) \<and> orthonormal (orientation ?c)"
    by (simp add: orthonormal_identity3)
  note r = contains_inclusive_intersects_exclusive[of ?a "Vector3 1 0 0" ?a ?c]
  from r[THEN conjunct1] h1 have 1: "containsPoint ?a (Vector3 1 0 0) = Inr True" by (rule mp)
  from r[THEN conjunct2, THEN conjunct1] h2
  have 2: "\<exists>r. intersects ?a ?c = Inr r \<and> \<not> isColliding r" by (rule mp)
  from r[THEN conjunct2, THEN conjunct2] h3
  have "set (testedAxes ?a ?c) =
             set (getAxes ?a) \<union> set (getAxes ?c) \<union>
             normalize_v ` {cross x y | x y. x \<in> set (getAxes ?a) \<and> y \<in> set (getAxes ?c) \<and>
                                           lengthSq (cross x y) > epsilon}" by (rule mp)
  then have 3: "set (getAxes ?a) \<subseteq> set (testedAxes ?a ?c)" by (simp only: Un_upper1 Un_assoc)
  from 1 2 3 show ?thesis by (intro conjI)
qed


subsection \<open>Rounding to the nearest double\<close>

lemma roundEven_near:
  assumes "\<bar>y - of_int m\<bar> < 1 / 2"
  shows "roundEven y = m"
proof -
  have "\<lfloor>y\<rfloor> = m \<or> \<lfloor>y\<rfloor> = m - 1" using assms by linarith
  then show ?thesis
  proof
    assume f: "\<lfloor>y\<rfloor> = m"
    with assms have "y - of_int m < 1 / 2" by linarith
    with f show ?thesis by (simp add: roundEven_def)
  next
    assume f: "\<lfloor>y\<rfloor> = m - 1"
    from assms have "y - (of_int m - 1) > 1 / 2" by linarith
    then have "y - of_int (m - 1) > 1 / 2" by simp
    with f show ?thesis by (simp add: roundEven_def Let_def del: of_int_diff)
  qed
qed

lemma roundEven_of_int [simp]: "roundEven (of_int m) = m"
  by (rule roundEven_near) simp

lemma roundEven_minus: "roundEven (- y) = - roundEven y"
proof (cases "y = of_int \<lfloor>y\<rfloor>")
  case True
  then obtain m where "y = of_int m" by metis
  then have "- y = of_int (- m)" by simp
  then show ?thesis using \<open>y = of_int m\<close> by (simp only: roundEven_of_int)
next
  case False
  then have fl: "\<lfloor>- y\<rfloor> = - \<lfloor>y\<rfloor> - 1"
    by (metis ceiling_altdef ceiling_def add.inverse_inverse minus_diff_eq uminus_add_conv_diff)
  let ?f = "\<lfloor>y\<rfloor>"
  have d: "- y - of_int (- ?f - 1) = 1 - (y - of_int ?f)" by simp
  have e: "even (- ?f - 1) \<longleftrightarrow> odd ?f" by simp
  show ?thesis
    unfolding roundEven_def Let_def fl d e
    by (auto simp: not_less)
qed


lemma binade_minus [simp]: "binade (- x) = binade x"
  by (simp add: binade_def)

lemma ulp_minus [simp]: "ulp (- x) = ulp x"
  by (simp add: ulp_def)

lemma ulp_pos [simp]: "0 < ulp x"
  by (simp add: ulp_def)

lemma ulp_nonneg [simp]: "0 \<le> ulp x"
  using ulp_pos[of x] by (rule less_imp_le)

lemma rnd64_minus: "rnd64 (- x) = - rnd64 x"
  by (simp add: rnd64_def roundEven_minus)

lemma rnd64_0 [simp]: "rnd64 0 = 0"
  by (simp add: rnd64_def)

lemma powr_powi: "2 powr real_of_int e = (2::real) powi e"
  by (simp add: powr_real_of_int')

lemma binade_bounds:
  assumes "x \<noteq> 0"
  shows "2 powi binade x \<le> \<bar>x\<bar>" "\<bar>x\<bar> < 2 powi (binade x + 1)"
proof -
  from assms have p: "0 < \<bar>x\<bar>" by simp
  have "\<lfloor>log 2 \<bar>x\<bar>\<rfloor> = binade x" by (simp add: binade_def)
  with floor_log_eq_powr_iff[OF p, of 2 "binade x"]
  have "2 powr real_of_int (binade x) \<le> \<bar>x\<bar> \<and> \<bar>x\<bar> < 2 powr real_of_int (binade x + 1)"
    by (simp del: of_int_add)
  then show "2 powi binade x \<le> \<bar>x\<bar>" "\<bar>x\<bar> < 2 powi (binade x + 1)"
    unfolding powr_powi by simp_all
qed

lemma binade_eqI:
  assumes "2 powi e \<le> \<bar>x\<bar>" "\<bar>x\<bar> < 2 powi (e + 1)"
  shows "binade x = e"
proof -
  have "(0::real) < 2 powi e" by simp
  with assms(1) have p: "0 < \<bar>x\<bar>" by linarith
  have "2 powr real_of_int e \<le> \<bar>x\<bar> \<and> \<bar>x\<bar> < 2 powr real_of_int (e + 1)"
    unfolding powr_powi using assms by simp
  with floor_log_eq_powr_iff[OF p, of 2 e] show ?thesis by (simp add: binade_def del: of_int_add)
qed


lemma roundEven_ge_floor: "\<lfloor>y\<rfloor> \<le> roundEven y"
  by (simp add: roundEven_def Let_def)

lemma scaled_bounds:
  assumes "x \<noteq> 0"
  shows "2 ^ 52 \<le> \<bar>x\<bar> / ulp x" "\<bar>x\<bar> / ulp x < 2 ^ 53"
proof -
  have u: "ulp x = 2 powi binade x / 2 ^ 52"
    by (simp add: ulp_def power_int_diff)
  have p: "(0::real) < 2 powi binade x" by simp
  from binade_bounds(1)[OF assms] p show "2 ^ 52 \<le> \<bar>x\<bar> / ulp x"
    unfolding u by (simp add: field_simps)
  have "(2::real) powi (binade x + 1) = 2 * 2 powi binade x"
    by (simp add: power_int_add)
  with binade_bounds(2)[OF assms] p show "\<bar>x\<bar> / ulp x < 2 ^ 53"
    unfolding u by (simp add: field_simps)
qed

lemma rnd64_pos:
  assumes "0 < x"
  shows "0 < rnd64 x"
proof -
  from assms have nz: "x \<noteq> 0" by simp
  from scaled_bounds(1)[OF nz] assms have "2 ^ 52 \<le> x / ulp x" by simp
  then have "(2 ^ 52 :: int) \<le> \<lfloor>x / ulp x\<rfloor>" by (simp add: le_floor_iff)
  moreover have "(0::int) < 2 ^ 52" by simp
  ultimately have "0 < roundEven (x / ulp x)"
    using roundEven_ge_floor[of "x / ulp x"] by linarith
  then show ?thesis using nz by (simp add: rnd64_def)
qed

lemma rnd64_neg: "x < 0 \<Longrightarrow> rnd64 x < 0"
  using rnd64_pos[of "- x"] by (simp add: rnd64_minus)

lemma rnd64_pos_iff [simp]: "0 < rnd64 x \<longleftrightarrow> 0 < x"
proof (cases "0 < x")
  case True
  then show ?thesis using rnd64_pos[of x] by simp
next
  case False
  then have "x = 0 \<or> x < 0" by linarith
  then have "rnd64 x \<le> 0" using rnd64_neg[of x] by auto
  with False show ?thesis by simp
qed

lemma rnd64_neg_iff [simp]: "rnd64 x < 0 \<longleftrightarrow> x < 0"
  using rnd64_pos_iff[of "- x"] by (simp add: rnd64_minus)

lemma rnd64_zero_iff [simp]: "rnd64 x = 0 \<longleftrightarrow> x = 0"
  using rnd64_pos_iff[of x] rnd64_neg_iff[of x] by (metis less_irrefl linorder_neqE_linordered_idom rnd64_0)

lemma rnd64_nonneg_iff [simp]: "0 \<le> rnd64 x \<longleftrightarrow> 0 \<le> x"
  using rnd64_neg_iff[of x] by (simp add: not_less[symmetric] del: rnd64_neg_iff)

lemma rnd64_nonpos_iff [simp]: "rnd64 x \<le> 0 \<longleftrightarrow> x \<le> 0"
  using rnd64_pos_iff[of x] by (simp add: not_less[symmetric] del: rnd64_pos_iff)

lemma rnd64_eval:
  assumes "2 powi e \<le> \<bar>x\<bar>" "\<bar>x\<bar> < 2 powi (e + 1)"
  shows "rnd64 x = of_int (roundEven (x / 2 powi (e - 52))) * 2 powi (e - 52)"
proof -
  have "(0::real) < 2 powi e" by simp
  with assms(1) have "0 < \<bar>x\<bar>" by linarith
  then have "x \<noteq> 0" by simp
  moreover have "binade x = e" by (rule binade_eqI[OF assms])
  ultimately show ?thesis by (simp add: rnd64_def ulp_def)
qed

lemma rnd64_eval_small:
  assumes "1 / 2 ^ n \<le> \<bar>x\<bar>" "\<bar>x\<bar> < 2 / 2 ^ n"
  shows "rnd64 x = of_int (roundEven (x * 2 ^ (n + 52))) / 2 ^ (n + 52)"
proof -
  have a: "(2::real) powi (- int n) = 1 / 2 ^ n"
    by (simp add: power_int_minus field_simps)
  have "(2::real) powi (1 + (- int n)) = 2 powi 1 * 2 powi (- int n)"
    by (rule power_int_add) simp
  then have b: "(2::real) powi (- int n + 1) = 2 / 2 ^ n"
    unfolding a by (simp add: add.commute)
  have c: "(2::real) powi (- int n - 52) = 1 / 2 ^ (n + 52)"
  proof -
    have "- int n - 52 = - int (n + 52)" by simp
    then show ?thesis by (simp only: power_int_minus power_int_of_nat inverse_eq_divide)
  qed
  from rnd64_eval[of "- int n" x] assms show ?thesis
    unfolding a b c by simp
qed

lemma rnd64_eval_large:
  assumes "2 ^ n \<le> \<bar>x\<bar>" "\<bar>x\<bar> < 2 * 2 ^ n" "n \<le> 52"
  shows "rnd64 x = of_int (roundEven (x * 2 ^ (52 - n))) / 2 ^ (52 - n)"
proof -
  have a: "(2::real) powi (int n) = 2 ^ n" by simp
  have b: "(2::real) powi (int n + 1) = 2 * 2 ^ n" by (simp add: power_int_add)
  have c: "(2::real) powi (int n - 52) = 1 / 2 ^ (52 - n)"
  proof -
    have "int n - 52 = - int (52 - n)" using assms(3) by simp
    then show ?thesis by (simp only: power_int_minus power_int_of_nat inverse_eq_divide)
  qed
  from rnd64_eval[of "int n" x] assms(1,2) show ?thesis
    unfolding a b c by simp
qed

lemma rnd64_near_small:
  assumes "1 / 2 ^ n \<le> \<bar>x\<bar>" "\<bar>x\<bar> < 2 / 2 ^ n" "\<bar>x * 2 ^ (n + 52) - of_int m\<bar> < 1 / 2"
  shows "rnd64 x = of_int m / 2 ^ (n + 52)"
  using rnd64_eval_small[OF assms(1,2)] roundEven_near[OF assms(3)] by simp

lemma roundEven_le: "roundEven y \<le> \<lfloor>y\<rfloor> + 1"
  by (simp add: roundEven_def Let_def)

lemma roundEven_mono:
  assumes "y1 \<le> y2"
  shows "roundEven y1 \<le> roundEven y2"
proof (cases "\<lfloor>y1\<rfloor> = \<lfloor>y2\<rfloor>")
  case True
  with assms show ?thesis by (auto simp: roundEven_def Let_def)
next
  case False
  with floor_mono[OF assms] have "\<lfloor>y1\<rfloor> + 1 \<le> \<lfloor>y2\<rfloor>" by simp
  with roundEven_le[of y1] roundEven_ge_floor[of y2] show ?thesis by linarith
qed

lemma binade_mono:
  assumes "0 < x" "x \<le> y"
  shows "binade x \<le> binade y"
proof -
  from assms have "log 2 \<bar>x\<bar> \<le> log 2 \<bar>y\<bar>" by simp
  then show ?thesis unfolding binade_def by (rule floor_mono)
qed

lemma rnd64_lower:
  assumes "0 < x"
  shows "2 powi binade x \<le> rnd64 x"
proof -
  from assms have nz: "x \<noteq> 0" by simp
  from scaled_bounds(1)[OF nz] assms have "2 ^ 52 \<le> x / ulp x" by simp
  then have "(2 ^ 52 :: int) \<le> \<lfloor>x / ulp x\<rfloor>" by (simp add: le_floor_iff)
  with roundEven_ge_floor[of "x / ulp x"] have "2 ^ 52 \<le> roundEven (x / ulp x)" by linarith
  then have "(2 ^ 52 :: real) \<le> of_int (roundEven (x / ulp x))"
    by (metis of_int_le_iff of_int_numeral of_int_power)
  then have "2 ^ 52 * ulp x \<le> of_int (roundEven (x / ulp x)) * ulp x"
    by (rule mult_right_mono) simp
  moreover have "2 ^ 52 * ulp x = 2 powi binade x"
    by (simp add: ulp_def power_int_diff)
  moreover have "rnd64 x = of_int (roundEven (x / ulp x)) * ulp x"
    using nz by (simp add: rnd64_def)
  ultimately show ?thesis by linarith
qed

lemma rnd64_upper:
  assumes "0 < x"
  shows "rnd64 x \<le> 2 powi (binade x + 1)"
proof -
  from assms have nz: "x \<noteq> 0" by simp
  from scaled_bounds(2)[OF nz] assms have "x / ulp x < 2 ^ 53" by simp
  then have "\<lfloor>x / ulp x\<rfloor> < (2 ^ 53 :: int)" by (simp add: floor_less_iff)
  with roundEven_le[of "x / ulp x"] have "roundEven (x / ulp x) \<le> 2 ^ 53" by linarith
  then have "of_int (roundEven (x / ulp x)) \<le> (2 ^ 53 :: real)"
    by (metis of_int_le_iff of_int_numeral of_int_power)
  then have "of_int (roundEven (x / ulp x)) * ulp x \<le> 2 ^ 53 * ulp x"
    by (rule mult_right_mono) simp
  moreover have "2 ^ 53 * ulp x = 2 powi (binade x + 1)"
    by (simp add: ulp_def power_int_diff power_int_add)
  moreover have "rnd64 x = of_int (roundEven (x / ulp x)) * ulp x"
    using nz by (simp add: rnd64_def)
  ultimately show ?thesis by linarith
qed

lemma rnd64_mono_pos:
  assumes "0 < x" "x \<le> y"
  shows "rnd64 x \<le> rnd64 y"
proof (cases "binade x = binade y")
  case True
  then have u: "ulp y = ulp x" by (simp add: ulp_def)
  from assms(2) have "x / ulp x \<le> y / ulp x" by (rule divide_right_mono) simp
  then have "roundEven (x / ulp x) \<le> roundEven (y / ulp x)" by (rule roundEven_mono)
  then have "(of_int (roundEven (x / ulp x)) :: real) \<le> of_int (roundEven (y / ulp x))" by simp
  then have "of_int (roundEven (x / ulp x)) * ulp x \<le> of_int (roundEven (y / ulp x)) * ulp x"
    by (rule mult_right_mono) simp
  moreover have "rnd64 x = of_int (roundEven (x / ulp x)) * ulp x"
    "rnd64 y = of_int (roundEven (y / ulp x)) * ulp x"
    using assms u by (simp_all add: rnd64_def)
  ultimately show ?thesis by linarith
next
  case False
  with binade_mono[OF assms] have "binade x + 1 \<le> binade y" by simp
  then have "(2::real) powi (binade x + 1) \<le> 2 powi binade y"
    by (rule power_int_increasing) simp
  with rnd64_upper[OF assms(1)] rnd64_lower[of y] assms show ?thesis by simp
qed

lemma rnd64_mono: "mono rnd64"
proof (rule monoI)
  fix x y :: real assume le: "x \<le> y"
  consider "0 < x" | "x \<le> 0" "0 \<le> y" | "y < 0" using le by linarith
  then show "rnd64 x \<le> rnd64 y"
  proof cases
    case 1
    then show ?thesis using le by (rule rnd64_mono_pos)
  next
    case 2
    then have "rnd64 x \<le> 0" "0 \<le> rnd64 y" by simp_all
    then show ?thesis by linarith
  next
    case 3
    with le have "0 < - y" "- y \<le> - x" by simp_all
    from rnd64_mono_pos[OF this] show ?thesis by (simp add: rnd64_minus)
  qed
qed


subsection \<open>The loop in double arithmetic\<close>

lemma exact_operations:
  "dotR (\<lambda>x. x) = dot" "crossR (\<lambda>x. x) = cross" "add_vR (\<lambda>x. x) = add_v" "sub_vR (\<lambda>x. x) = sub_v"
  "multiplyScalarR (\<lambda>x. x) = multiplyScalar" "lengthSqR (\<lambda>x. x) = lengthSq"
  "lengthR (\<lambda>x. x) = length_v" "normalizeR (\<lambda>x. x) = normalize_v" "epsilonR (\<lambda>x. x) = epsilon"
  by (simp_all add: fun_eq_iff dotR_def dot_def crossR_def cross_def add_vR_def add_v_def
      sub_vR_def sub_v_def multiplyScalarR_def multiplyScalar_def lengthSqR_def lengthSq_def
      lengthR_def length_v_def normalizeR_def normalize_v_def epsilonR_def)

lemma exact_applyMatrix3: "applyMatrix3R (\<lambda>x. x) v m = applyMatrix3 v m"
  by (cases m) simp

lemma exact_getAxes: "getAxesR (\<lambda>x. x) b = getAxes b"
  by (simp add: getAxesR_def getAxes_def exact_applyMatrix3)

lemma exact_projectOnAxis: "projectOnAxisR (\<lambda>x. x) b v = projectOnAxis b v"
  by (simp add: projectOnAxisR_def projectOnAxis_def exact_getAxes exact_operations)

lemma exact_overlapOn: "overlapOnR (\<lambda>x. x) a b v = overlapOn a b v"
  by (simp add: overlapOnR_def overlapOn_def exact_projectOnAxis)

lemma exact_crossInner: "crossInnerR (\<lambda>x. x) x ys = crossInner x ys"
  by (induction ys) (simp_all add: exact_operations Let_def)

lemma exact_getCrossProductAxes: "getCrossProductAxesR (\<lambda>x. x) xs ys = getCrossProductAxes xs ys"
  by (induction xs) (simp_all add: exact_crossInner)

lemma exact_axisLoop: "axisLoopR (\<lambda>x. x) a b axs best = axisLoop a b axs best"
  by (induction axs arbitrary: best) (simp_all add: exact_operations exact_overlapOn Let_def)

lemma exact_calculateContactPoint:
  "calculateContactPointR (\<lambda>x. x) a b v = calculateContactPoint a b v"
  by (simp add: calculateContactPointR_def calculateContactPoint_def exact_projectOnAxis
      exact_operations Let_def)

lemma exact_intersects: "intersectsR (\<lambda>x. x) a b = intersects a b"
  by (simp add: intersectsR_def intersects_def exact_axisLoop allAxesR_def allAxes_def exact_getAxes
      exact_getCrossProductAxes exact_calculateContactPoint exact_operations Let_def
      split: loop_exit.splits option.splits)

lemma testedR_simps [simp]:
  "testedR rnd [] = []"
  "testedR rnd (v # vs) =
     (if lengthSqR rnd v < epsilonR rnd then testedR rnd vs else normalizeR rnd v # testedR rnd vs)"
  by (simp_all add: testedR_def)

lemma axisLoopR_Separated_iff:
  "(\<exists>ax. axisLoopR rnd a b axs best = Separated ax)
     \<longleftrightarrow> (\<exists>u\<in>set (testedR rnd axs). overlapOnR rnd a b u \<le> 0)"
  by (induction axs arbitrary: best) (auto simp: Let_def)

lemma axisLoopR_Finished_None:
  "axisLoopR rnd a b axs best = Finished None \<Longrightarrow> best = None \<and> testedR rnd axs = []"
  by (induction axs arbitrary: best) (fastforce simp: Let_def split: if_splits)+

lemma axisLoopR_Finished_Some:
  "axisLoopR rnd a b axs best = Finished (Some (m, ax)) \<Longrightarrow>
     (\<forall>u\<in>set (testedR rnd axs). m \<le> overlapOnR rnd a b u) \<and>
     (\<forall>m0 ax0. best = Some (m0, ax0) \<longrightarrow> m \<le> m0) \<and>
     ((ax \<in> set (testedR rnd axs) \<and> m = overlapOnR rnd a b ax) \<or> best = Some (m, ax))"
proof (induction axs arbitrary: best)
  case Nil
  then show ?case by simp
next
  case (Cons v vs)
  show ?case
  proof (cases "lengthSqR rnd v < epsilonR rnd")
    case True
    with Cons show ?thesis by simp
  next
    case False
    let ?u = "normalizeR rnd v"
    from Cons.prems False have pos: "\<not> overlapOnR rnd a b ?u \<le> 0"
      by (auto simp: Let_def split: if_splits)
    show ?thesis
    proof (cases "case best of None \<Rightarrow> True | Some (mp, _) \<Rightarrow> overlapOnR rnd a b ?u < mp")
      case True
      with Cons.prems False pos
      have "axisLoopR rnd a b vs (Some (overlapOnR rnd a b ?u, ?u)) = Finished (Some (m, ax))"
        by (simp add: Let_def)
      from Cons.IH[OF this] True False show ?thesis
        by (auto split: option.splits)
    next
      case nupd: False
      with Cons.prems False pos
      have "axisLoopR rnd a b vs best = Finished (Some (m, ax))"
        by (simp add: Let_def)
      from Cons.IH[OF this] nupd False show ?thesis
        by (auto split: option.splits)
    qed
  qed
qed

lemma intersectsR_separated:
  assumes "\<exists>u\<in>set (testedAxesR rnd a b). overlapOnR rnd a b u \<le> 0"
  shows "\<exists>r. intersectsR rnd a b = Inr r \<and> \<not> isColliding r \<and> penetrationDepth r = 0"
proof -
  from assms obtain ax where "axisLoopR rnd a b (allAxesR rnd a b) None = Separated ax"
    using axisLoopR_Separated_iff[of rnd a b "allAxesR rnd a b" None] by (auto simp: testedAxesR_def)
  then show ?thesis by (simp add: intersectsR_def)
qed

lemma intersectsR_overlapping:
  assumes ne: "testedAxesR rnd a b \<noteq> []"
    and pos: "\<forall>u\<in>set (testedAxesR rnd a b). 0 < overlapOnR rnd a b u"
  shows "\<exists>r. intersectsR rnd a b = Inr r \<and> isColliding r \<and>
             penetrationDepth r = Min (overlapOnR rnd a b ` set (testedAxesR rnd a b))"
proof -
  have "\<not> (\<exists>ax. axisLoopR rnd a b (allAxesR rnd a b) None = Separated ax)"
    using pos axisLoopR_Separated_iff[of rnd a b "allAxesR rnd a b" None]
    by (auto simp: testedAxesR_def not_le)
  then obtain best where fin: "axisLoopR rnd a b (allAxesR rnd a b) None = Finished best"
    by (cases "axisLoopR rnd a b (allAxesR rnd a b) None") auto
  with ne axisLoopR_Finished_None[of rnd a b "allAxesR rnd a b" None]
  obtain m ax where best: "best = Some (m, ax)"
    by (cases best) (auto simp: testedAxesR_def)
  from axisLoopR_Finished_Some[of rnd a b "allAxesR rnd a b" None m ax] fin best
  have le: "\<forall>u\<in>set (testedAxesR rnd a b). m \<le> overlapOnR rnd a b u"
    and mem: "ax \<in> set (testedAxesR rnd a b)" "m = overlapOnR rnd a b ax"
    by (auto simp: testedAxesR_def)
  have "Min (overlapOnR rnd a b ` set (testedAxesR rnd a b)) = m"
    by (rule Min_eqI) (use le mem in auto)
  with fin best show ?thesis
    by (simp add: intersectsR_def Let_def)
qed

lemma intersectsR_total:
  assumes "testedAxesR rnd a b \<noteq> []"
  shows "\<exists>r. intersectsR rnd a b = Inr r \<and>
           (isColliding r \<longleftrightarrow> (\<forall>u\<in>set (testedAxesR rnd a b). 0 < overlapOnR rnd a b u)) \<and>
           penetrationDepth r =
             (if isColliding r then Min (overlapOnR rnd a b ` set (testedAxesR rnd a b)) else 0)"
proof (cases "\<forall>u\<in>set (testedAxesR rnd a b). 0 < overlapOnR rnd a b u")
  case True
  from intersectsR_overlapping[OF assms True] True show ?thesis by auto
next
  case False
  then have "\<exists>u\<in>set (testedAxesR rnd a b). overlapOnR rnd a b u \<le> 0" by (auto simp: not_less)
  from intersectsR_separated[OF this] False show ?thesis by auto
qed

lemma projectOnAxisR_extent:
  "pmin (projectOnAxisR rnd b v) = rnd (dotR rnd (center b) v - extentOnR rnd b v)"
  "pmax (projectOnAxisR rnd b v) = rnd (dotR rnd (center b) v + extentOnR rnd b v)"
  by (simp_all add: projectOnAxisR_def extentOnR_def Let_def)

lemma overlapR_le_width:
  assumes "mono rnd"
  shows "overlapOnR rnd a b u \<le> rnd (pmax (projectOnAxisR rnd a u) - pmin (projectOnAxisR rnd a u))"
    and "overlapOnR rnd a b u \<le> rnd (pmax (projectOnAxisR rnd b u) - pmin (projectOnAxisR rnd b u))"
  unfolding overlapOnR_def Let_def by (rule monoD[OF assms], simp)+

subsection \<open>A box without thickness, in double arithmetic\<close>

lemma own_axis_allAxesR:
  "i < 3 \<Longrightarrow> getAxesR rnd a ! i \<in> set (allAxesR rnd a b)"
  "i < 3 \<Longrightarrow> getAxesR rnd b ! i \<in> set (allAxesR rnd a b)"
  by (auto simp: allAxesR_def getAxesR_def nth_Cons split: nat.splits)

lemma testedR_mem:
  "v \<in> set axs \<Longrightarrow> \<not> lengthSqR rnd v < epsilonR rnd \<Longrightarrow> normalizeR rnd v \<in> set (testedR rnd axs)"
  by (auto simp: testedR_def)

lemma flat_extentR:
  assumes r0: "rnd 0 = 0" and i: "i < 3" and h: "comp (halfExtents a) i = 0"
    and d: "\<forall>j<3. j \<noteq> i \<longrightarrow> dotR rnd (getAxesR rnd a ! j) u = 0"
  shows "extentOnR rnd a u = 0"
proof -
  from i have "i = 0 \<or> i = 1 \<or> i = 2" by auto
  then show ?thesis
    using h d r0 by (auto simp: extentOnR_def comp_def)
qed

lemma flat_overlapR:
  assumes r0: "rnd 0 = 0" and rneg: "\<forall>x\<le>0. rnd x \<le> 0"
    and e: "extentOnR rnd a u = 0"
  shows "overlapOnR rnd a b u \<le> 0" "overlapOnR rnd b a u \<le> 0"
proof -
  let ?p = "rnd (dotR rnd (center a) u)"
  have p: "pmin (projectOnAxisR rnd a u) = ?p" "pmax (projectOnAxisR rnd a u) = ?p"
    by (simp_all add: projectOnAxisR_extent e)
  have "min ?p y - max ?p x \<le> 0" "min y ?p - max x ?p \<le> 0" for x y by simp_all
  with rneg show "overlapOnR rnd a b u \<le> 0" "overlapOnR rnd b a u \<le> 0"
    by (simp_all add: overlapOnR_def Let_def p)
qed

lemma zero_extent_rounded:
  assumes r0: "rnd 0 = 0" and rneg: "\<forall>x\<le>0. rnd x \<le> 0"
    and i: "i < 3" and h: "comp (halfExtents a) i = 0"
    and t: "\<not> lengthSqR rnd (getAxesR rnd a ! i) < epsilonR rnd"
    and d: "\<forall>j<3. j \<noteq> i \<longrightarrow>
              dotR rnd (getAxesR rnd a ! j) (normalizeR rnd (getAxesR rnd a ! i)) = 0"
  shows "\<exists>r. intersectsR rnd a b = Inr r \<and> \<not> isColliding r"
    and "\<exists>r. intersectsR rnd b a = Inr r \<and> \<not> isColliding r"
proof -
  let ?u = "normalizeR rnd (getAxesR rnd a ! i)"
  have e: "extentOnR rnd a ?u = 0" by (rule flat_extentR[OF r0 i h d])
  have "?u \<in> set (testedAxesR rnd a b)" "?u \<in> set (testedAxesR rnd b a)"
    unfolding testedAxesR_def by (rule testedR_mem[OF own_axis_allAxesR(1)[OF i] t],
        rule testedR_mem[OF own_axis_allAxesR(2)[OF i] t])
  with flat_overlapR[OF r0 rneg e, of b]
  have "\<exists>u\<in>set (testedAxesR rnd a b). overlapOnR rnd a b u \<le> 0"
    "\<exists>u\<in>set (testedAxesR rnd b a). overlapOnR rnd b a u \<le> 0"
    by blast+
  then show "\<exists>r. intersectsR rnd a b = Inr r \<and> \<not> isColliding r"
    "\<exists>r. intersectsR rnd b a = Inr r \<and> \<not> isColliding r"
    using intersectsR_separated by blast+
qed

subsection \<open>The penetration depth in double arithmetic\<close>

lemma depth_rounded:
  assumes "testedAxesR rnd a b \<noteq> []"
  shows "\<exists>r. intersectsR rnd a b = Inr r \<and> 0 \<le> penetrationDepth r \<and>
           (\<not> isColliding r \<longrightarrow> penetrationDepth r = 0) \<and>
           (isColliding r \<longrightarrow> 0 < penetrationDepth r \<and>
              (mono rnd \<longrightarrow>
                 (\<forall>u\<in>set (testedAxesR rnd a b).
                    penetrationDepth r
                      \<le> rnd (pmax (projectOnAxisR rnd a u) - pmin (projectOnAxisR rnd a u)) \<and>
                    penetrationDepth r
                      \<le> rnd (pmax (projectOnAxisR rnd b u) - pmin (projectOnAxisR rnd b u)))))"
proof -
  from intersectsR_total[OF assms] obtain r where r: "intersectsR rnd a b = Inr r"
    "isColliding r \<longleftrightarrow> (\<forall>u\<in>set (testedAxesR rnd a b). 0 < overlapOnR rnd a b u)"
    "penetrationDepth r =
       (if isColliding r then Min (overlapOnR rnd a b ` set (testedAxesR rnd a b)) else 0)"
    by blast
  let ?S = "overlapOnR rnd a b ` set (testedAxesR rnd a b)"
  have fin: "finite ?S" by simp
  have ne: "?S \<noteq> {}" using assms by simp
  have col: "0 < penetrationDepth r \<and>
      (mono rnd \<longrightarrow>
         (\<forall>u\<in>set (testedAxesR rnd a b).
            penetrationDepth r
              \<le> rnd (pmax (projectOnAxisR rnd a u) - pmin (projectOnAxisR rnd a u)) \<and>
            penetrationDepth r
              \<le> rnd (pmax (projectOnAxisR rnd b u) - pmin (projectOnAxisR rnd b u))))"
    if c: "isColliding r"
  proof (intro conjI impI ballI)
    from c r(3) have d: "penetrationDepth r = Min ?S" by simp
    from c r(2) have "\<forall>x\<in>?S. 0 < x" by auto
    then have "0 < Min ?S" using fin ne by simp
    with d show "0 < penetrationDepth r" by simp
    fix u assume m: "mono rnd" and u: "u \<in> set (testedAxesR rnd a b)"
    from u have "Min ?S \<le> overlapOnR rnd a b u" using fin by simp
    with d overlapR_le_width[OF m, of a b u]
    show "penetrationDepth r
              \<le> rnd (pmax (projectOnAxisR rnd a u) - pmin (projectOnAxisR rnd a u))"
      "penetrationDepth r
              \<le> rnd (pmax (projectOnAxisR rnd b u) - pmin (projectOnAxisR rnd b u))"
      by linarith+
  qed
  show ?thesis
  proof (cases "isColliding r")
    case True
    with col r(1) show ?thesis by (intro exI[of _ r]) simp
  next
    case False
    with r(1) r(3) show ?thesis by (intro exI[of _ r]) simp
  qed
qed


subsection \<open>Evaluating double arithmetic\<close>

lemma rnd64_1 [simp]: "rnd64 1 = 1"
  by (subst rnd64_eval_large[where n = 0]) (simp_all add: roundEven_def Let_def)

lemma rnd64_2 [simp]: "rnd64 2 = 2"
  by (subst rnd64_eval_large[where n = 1]) (simp_all add: roundEven_def Let_def)

lemma rnd64_100 [simp]: "rnd64 100 = 100"
  by (subst rnd64_eval_large[where n = 6]) (simp_all add: roundEven_def Let_def)

lemma epsilon64: "epsilonR rnd64 = 4722366482869645 / 2 ^ 72"
  unfolding epsilonR_def epsilon_def
  by (subst rnd64_eval_small[where n = 20]) (simp_all add: roundEven_def Let_def)

lemma epsilon64_bounds [simp]: "0 < epsilonR rnd64" "epsilonR rnd64 < 1"
  by (simp_all add: epsilon64)

lemma decimals_pos [simp]: "0 < d01" "0 < d03" "0 < d02" "0 < d04" "0 < dhi" "d04 < 100" "d02 < 100"
  by (simp_all add: d01_def d03_def d02_def d04_def dhi_def)

lemma rnd64_d03 [simp]: "rnd64 d03 = d03"
  unfolding d03_def d01_def d04_def d02_def dhi_def
  by (subst rnd64_eval_small[where n = 2]) (simp_all add: roundEven_def Let_def)

lemma rnd64_d01 [simp]: "rnd64 d01 = d01"
  unfolding d03_def d01_def d04_def d02_def dhi_def
  by (subst rnd64_eval_small[where n = 4]) (simp_all add: roundEven_def Let_def)

lemma rnd64_d03_plus [simp]: "rnd64 (d03 + d01) = d04"
  unfolding d03_def d01_def d04_def d02_def dhi_def
  by (subst rnd64_eval_small[where n = 2]) (simp_all add: roundEven_def Let_def)

lemma rnd64_d03_minus [simp]: "rnd64 (d03 - d01) = d02"
  unfolding d03_def d01_def d04_def d02_def dhi_def
  by (subst rnd64_eval_small[where n = 3]) (simp_all add: roundEven_def Let_def)

lemma rnd64_d04_minus [simp]: "rnd64 (d04 - d02) = dhi"
  unfolding d03_def d01_def d04_def d02_def dhi_def
  by (subst rnd64_eval_small[where n = 3]) (simp_all add: roundEven_def Let_def)

lemma epsilon64_not [simp]: "\<not> epsilonR rnd64 < 0" "\<not> 1 < epsilonR rnd64"
  by (simp_all add: epsilon64)

lemma getAxesR_identity64:
  "orientation b = identity3 \<Longrightarrow> getAxesR rnd64 b = [Vector3 1 0 0, Vector3 0 1 0, Vector3 0 0 1]"
  by (simp add: getAxesR_def identity3_def)

lemma testedAxesR_identity64:
  assumes "orientation a = identity3" "orientation b = identity3"
  shows "testedAxesR rnd64 a b =
           [Vector3 1 0 0, Vector3 0 1 0, Vector3 0 0 1, Vector3 1 0 0, Vector3 0 1 0, Vector3 0 0 1,
            Vector3 0 0 1, Vector3 0 (-1) 0, Vector3 0 0 (-1), Vector3 1 0 0, Vector3 0 1 0,
            Vector3 (-1) 0 0]"
  by (simp add: testedAxesR_def allAxesR_def getAxesR_identity64[OF assms(1)]
      getAxesR_identity64[OF assms(2)] crossR_def lengthSqR_def normalizeR_def lengthR_def
      multiplyScalarR_def rnd64_minus Let_def)

lemma decimals_abs [simp]: "\<bar>d01\<bar> = d01"
  by (simp add: d01_def)

lemma decimals_rnd_neg [simp]: "rnd64 (d01 - d03) = - d02" "rnd64 (- d03 - d01) = - d04"
proof -
  have "rnd64 (d01 - d03) = rnd64 (- (d03 - d01))" by simp
  then show "rnd64 (d01 - d03) = - d02" by (simp only: rnd64_minus rnd64_d03_minus)
  have "rnd64 (- d03 - d01) = rnd64 (- (d03 + d01))" by simp
  then show "rnd64 (- d03 - d01) = - d04" by (simp only: rnd64_minus rnd64_d03_plus)
qed

lemma decimals_min_max [simp]:
  "min d04 100 = d04" "max d02 (- 100) = d02" "min (- d02) 100 = - d02" "max (- d04) (- 100) = - d04"
  by (simp_all add: d04_def d02_def)

lemma overlapR_decimal_boxes:
  "overlapOnR rnd64 smallBox bigBox (Vector3 1 0 0) = dhi"
  "overlapOnR rnd64 smallBox bigBox (Vector3 0 1 0) = dhi"
  "overlapOnR rnd64 smallBox bigBox (Vector3 0 0 1) = dhi"
  "overlapOnR rnd64 smallBox bigBox (Vector3 (-1) 0 0) = dhi"
  "overlapOnR rnd64 smallBox bigBox (Vector3 0 (-1) 0) = dhi"
  "overlapOnR rnd64 smallBox bigBox (Vector3 0 0 (-1)) = dhi"
  by (simp_all add: overlapOnR_def projectOnAxisR_def Let_def smallBox_def bigBox_def
      getAxesR_identity64 dotR_def rnd64_minus)

lemma decimal_boxes_overlaps:
  "overlapOnR rnd64 smallBox bigBox ` set (testedAxesR rnd64 smallBox bigBox) = {dhi}"
proof -
  have o: "orientation smallBox = identity3" "orientation bigBox = identity3"
    by (simp_all add: smallBox_def bigBox_def)
  show ?thesis
    unfolding testedAxesR_identity64[OF o] by (simp add: overlapR_decimal_boxes)
qed


subsection \<open>Signs in double arithmetic\<close>

lemma dotR_origin [simp]: "dotR rnd64 (Vector3 0 0 0) v = 0"
  by (simp add: dotR_def)

lemma overlapR_centred:
  assumes "center a = Vector3 0 0 0" "center b = Vector3 0 0 0"
  shows "0 < overlapOnR rnd64 a b v \<longleftrightarrow> 0 < extentOnR rnd64 a v \<and> 0 < extentOnR rnd64 b v"
proof -
  let ?A = "rnd64 (extentOnR rnd64 a v)" and ?B = "rnd64 (extentOnR rnd64 b v)"
  have m: "0 < min x y - max (- x) (- y) \<longleftrightarrow> 0 < x \<and> 0 < y" for x y :: real
    by (auto simp: min_def max_def)
  have "overlapOnR rnd64 a b v = rnd64 (min ?A ?B - max (- ?A) (- ?B))"
    by (simp add: overlapOnR_def Let_def projectOnAxisR_extent assms rnd64_minus)
  then have "0 < overlapOnR rnd64 a b v \<longleftrightarrow> 0 < min ?A ?B - max (- ?A) (- ?B)"
    by (simp only: rnd64_pos_iff)
  also have "\<dots> \<longleftrightarrow> 0 < ?A \<and> 0 < ?B" by (rule m)
  finally show ?thesis by (simp only: rnd64_pos_iff)
qed

lemma abs3_pos:
  "0 < rnd64 (rnd64 (\<bar>x\<bar> + \<bar>y\<bar>) + \<bar>z\<bar>) \<longleftrightarrow> x \<noteq> 0 \<or> y \<noteq> 0 \<or> z \<noteq> 0"
proof -
  have a: "0 \<le> rnd64 (\<bar>x\<bar> + \<bar>y\<bar>)"
    unfolding rnd64_nonneg_iff by linarith
  have "0 < \<bar>x\<bar> + \<bar>y\<bar> \<longleftrightarrow> x \<noteq> 0 \<or> y \<noteq> 0" by linarith
  then have b: "0 < rnd64 (\<bar>x\<bar> + \<bar>y\<bar>) \<longleftrightarrow> x \<noteq> 0 \<or> y \<noteq> 0"
    unfolding rnd64_pos_iff .
  have c: "0 < \<bar>z\<bar> \<longleftrightarrow> z \<noteq> 0" by simp
  have "0 < rnd64 (\<bar>x\<bar> + \<bar>y\<bar>) + \<bar>z\<bar> \<longleftrightarrow> 0 < rnd64 (\<bar>x\<bar> + \<bar>y\<bar>) \<or> 0 < \<bar>z\<bar>"
    using a by linarith
  then show ?thesis
    unfolding rnd64_pos_iff[of "rnd64 (\<bar>x\<bar> + \<bar>y\<bar>) + \<bar>z\<bar>"] b c by blast
qed

lemma extentOnR_pos_iff:
  "0 < extentOnR rnd64 b v \<longleftrightarrow>
     (dotR rnd64 (getAxesR rnd64 b ! 0) v \<noteq> 0 \<and> vx (halfExtents b) \<noteq> 0) \<or>
     (dotR rnd64 (getAxesR rnd64 b ! 1) v \<noteq> 0 \<and> vy (halfExtents b) \<noteq> 0) \<or>
     (dotR rnd64 (getAxesR rnd64 b ! 2) v \<noteq> 0 \<and> vz (halfExtents b) \<noteq> 0)"
  unfolding extentOnR_def abs3_pos by simp

lemma lengthSqR_nonneg: "0 \<le> lengthSqR rnd64 v"
proof -
  have "0 \<le> rnd64 (vx v * vx v)" "0 \<le> rnd64 (vy v * vy v)" "0 \<le> rnd64 (vz v * vz v)"
    by (simp_all only: rnd64_nonneg_iff zero_le_square)
  then have "0 \<le> rnd64 (rnd64 (vx v * vx v) + rnd64 (vy v * vy v)) + rnd64 (vz v * vz v)"
    by (simp only: rnd64_nonneg_iff add_nonneg_nonneg)
  then show ?thesis by (simp only: lengthSqR_def rnd64_nonneg_iff)
qed

lemma normalizeR_form:
  "\<exists>K>0. normalizeR rnd64 v = Vector3 (rnd64 (vx v * K)) (rnd64 (vy v * K)) (rnd64 (vz v * K))"
proof -
  let ?l = "lengthR rnd64 v"
  let ?K = "rnd64 (1 / (if ?l = 0 then 1 else ?l))"
  have "0 \<le> ?l" by (simp add: lengthR_def lengthSqR_nonneg)
  then have "0 < 1 / (if ?l = 0 then 1 else ?l)" by simp
  then have "0 < ?K" by (simp only: rnd64_pos_iff)
  moreover have "normalizeR rnd64 v = Vector3 (rnd64 (vx v * ?K)) (rnd64 (vy v * ?K)) (rnd64 (vz v * ?K))"
    by (simp add: normalizeR_def multiplyScalarR_def)
  ultimately show ?thesis by blast
qed

lemma rnd64_c64 [simp]: "rnd64 c64 = c64"
  unfolding c64_def
  by (subst rnd64_eval_small[where n = 1]) (simp_all add: roundEven_def Let_def)

lemma rnd64_s64 [simp]: "rnd64 s64 = s64"
  unfolding s64_def
  by (subst rnd64_eval_small[where n = 1]) (simp_all add: roundEven_def Let_def)

lemma c64_s64_pos [simp]: "0 < c64" "0 < s64"
  by (simp_all add: c64_def s64_def)

lemma c64_s64_nearest: "c64 = rnd64 (105 / 137)" "s64 = rnd64 (88 / 137)"
  unfolding c64_def s64_def
  by (subst rnd64_eval_small[where n = 1]; simp add: roundEven_def Let_def)+

lemma flat_own_axis_dot:
  "dotR rnd64 (Vector3 (- s64) c64 0) (normalizeR rnd64 (Vector3 c64 s64 0)) = - (1 / 2 ^ 54)"
proof -
  define cc :: real where "cc = 5290871745086015 / 2 ^ 53"
  define ss :: real where "ss = 58067617338359 / 2 ^ 47"
  define l2 :: real where "l2 = 9007199254740991 / 2 ^ 53"
  define k :: real where "k = 4503599627370497 / 2 ^ 52"
  define ck :: real where "ck = 6903327895969375 / 2 ^ 53"
  define sk :: real where "sk = 45200361223609 / 2 ^ 46"
  define p1 :: real where "p1 = 8868508829858467 / 2 ^ 54"
  define p2 :: real where "p2 = 4434254414929233 / 2 ^ 53"
  note defs = c64_def s64_def cc_def ss_def l2_def k_def ck_def sk_def p1_def p2_def
  have 1: "rnd64 (c64 * c64) = cc"
    unfolding defs by (subst rnd64_eval_small[where n = 1]) (simp_all add: roundEven_def Let_def)
  have 2: "rnd64 (s64 * s64) = ss"
    unfolding defs by (subst rnd64_eval_small[where n = 2]) (simp_all add: roundEven_def Let_def)
  have 3: "rnd64 (cc + ss) = l2"
    unfolding defs by (subst rnd64_eval_small[where n = 1]) (simp_all add: roundEven_def Let_def)
  have 4: "rnd64 l2 = l2"
    unfolding defs by (subst rnd64_eval_small[where n = 1]) (simp_all add: roundEven_def Let_def)
  have lo: "18014398509481981 / 2 ^ 54 < sqrt l2"
    by (rule real_less_rsqrt) (simp add: l2_def power2_eq_square)
  have hi: "sqrt l2 < 18014398509481983 / 2 ^ 54"
    by (rule real_less_lsqrt) (simp_all add: l2_def power2_eq_square)
  have l2b: "\<not> l2 < 0" "l2 < 1" "1 / 4 \<le> l2" by (simp_all add: l2_def)
  have 5: "rnd64 (sqrt l2) = l2"
  proof -
    have "rnd64 (sqrt l2) = of_int 9007199254740991 / 2 ^ (1 + 52)"
      by (rule rnd64_near_small) (use lo hi l2b in \<open>simp_all add: abs_if\<close>)
    then show ?thesis by (simp add: l2_def)
  qed
  have l2_nz: "l2 \<noteq> 0" by (simp add: l2_def)
  have 6: "rnd64 (1 / l2) = k"
    unfolding defs by (subst rnd64_eval_large[where n = 0]) (simp_all add: roundEven_def Let_def)
  have 7: "rnd64 (c64 * k) = ck"
    unfolding defs by (subst rnd64_eval_small[where n = 1]) (simp_all add: roundEven_def Let_def)
  have 8: "rnd64 (s64 * k) = sk"
    unfolding defs by (subst rnd64_eval_small[where n = 1]) (simp_all add: roundEven_def Let_def)
  have 9: "rnd64 (s64 * ck) = p1"
    unfolding defs by (subst rnd64_eval_small[where n = 2]) (simp_all add: roundEven_def Let_def)
  have 10: "rnd64 (c64 * sk) = p2"
    unfolding defs by (subst rnd64_eval_small[where n = 2]) (simp_all add: roundEven_def Let_def)
  have 11: "rnd64 (p2 - p1) = - (1 / 2 ^ 54)"
  proof -
    have "p2 - p1 = - (1 / 2 ^ 54)" by (simp add: p1_def p2_def)
    moreover have "rnd64 (1 / 2 ^ 54) = 1 / 2 ^ 54"
      by (subst rnd64_eval_small[where n = 54]) (simp_all add: roundEven_def Let_def)
    ultimately show ?thesis by (simp only: rnd64_minus)
  qed
  have 12: "rnd64 (1 / 2 ^ 54) = 1 / 2 ^ 54"
    by (subst rnd64_eval_small[where n = 54]) (simp_all add: roundEven_def Let_def)
  have n: "normalizeR rnd64 (Vector3 c64 s64 0) = Vector3 ck sk 0"
    by (simp add: normalizeR_def lengthR_def lengthSqR_def multiplyScalarR_def 1 2 3 4 5 6 7 8 l2_nz)
  have "dotR rnd64 (Vector3 (- s64) c64 0) (Vector3 ck sk 0) = rnd64 (rnd64 (p2 - p1))"
    by (simp add: dotR_def rnd64_minus 9 10)
  also have "\<dots> = - (1 / 2 ^ 54)" by (simp only: 11 rnd64_minus 12)
  finally show ?thesis by (simp only: n)
qed

lemma c64_s64_nonneg [simp]: "0 \<le> c64" "0 \<le> s64" "c64 \<noteq> 0" "s64 \<noteq> 0"
  by (simp_all add: c64_def s64_def)

lemma getAxesR_flatBox:
  "getAxesR rnd64 flatBox = [Vector3 c64 s64 0, Vector3 (- s64) c64 0, Vector3 0 0 1]"
  by (simp add: getAxesR_def flatBox_def rnd64_minus)

lemma getAxesR_unitCube:
  "getAxesR rnd64 unitCube = [Vector3 1 0 0, Vector3 0 1 0, Vector3 0 0 1]"
  by (simp add: unitCube_def getAxesR_identity64)

lemma boxes_fields [simp]:
  "center flatBox = Vector3 0 0 0" "halfExtents flatBox = Vector3 0 1 1"
  "center unitCube = Vector3 0 0 0" "halfExtents unitCube = Vector3 1 1 1"
  by (simp_all add: flatBox_def unitCube_def)

lemma cube_extent_pos:
  assumes "vx v \<noteq> 0 \<or> vy v \<noteq> 0 \<or> vz v \<noteq> 0"
  shows "0 < extentOnR rnd64 unitCube (normalizeR rnd64 v)"
proof -
  from normalizeR_form[of v] obtain K where K: "0 < K"
    and n: "normalizeR rnd64 v = Vector3 (rnd64 (vx v * K)) (rnd64 (vy v * K)) (rnd64 (vz v * K))"
    by blast
  from K assms show ?thesis
    unfolding extentOnR_pos_iff n getAxesR_unitCube by (simp add: dotR_def)
qed

lemma flat_extent_pos_z:
  assumes "vz v \<noteq> 0"
  shows "0 < extentOnR rnd64 flatBox (normalizeR rnd64 v)"
proof -
  from normalizeR_form[of v] obtain K where K: "0 < K"
    and n: "normalizeR rnd64 v = Vector3 (rnd64 (vx v * K)) (rnd64 (vy v * K)) (rnd64 (vz v * K))"
    by blast
  from K assms show ?thesis
    unfolding extentOnR_pos_iff n getAxesR_flatBox by (simp add: dotR_def)
qed

lemma rnd64_differ:
  assumes "x \<le> 0" "0 \<le> y" "x \<noteq> 0 \<or> y \<noteq> 0"
  shows "rnd64 y - rnd64 x \<noteq> 0"
proof -
  from assms(1,2) have "rnd64 x \<le> 0" "0 \<le> rnd64 y" by simp_all
  moreover from assms have "rnd64 x \<noteq> 0 \<or> rnd64 y \<noteq> 0" by simp
  ultimately show ?thesis by linarith
qed

lemma flat_extent_pos_xy:
  assumes "vx v * vy v \<le> 0" "vx v \<noteq> 0 \<or> vy v \<noteq> 0"
  shows "0 < extentOnR rnd64 flatBox (normalizeR rnd64 v)"
proof -
  from normalizeR_form[of v] obtain K where K: "0 < K"
    and n: "normalizeR rnd64 v = Vector3 (rnd64 (vx v * K)) (rnd64 (vy v * K)) (rnd64 (vz v * K))"
    by blast
  let ?nx = "rnd64 (vx v * K)" and ?ny = "rnd64 (vy v * K)"
  have d: "dotR rnd64 (Vector3 (- s64) c64 0) (Vector3 ?nx ?ny (rnd64 (vz v * K)))
             = rnd64 (rnd64 (rnd64 (c64 * ?ny) - rnd64 (s64 * ?nx)))"
    by (simp add: dotR_def rnd64_minus)
  from assms(1) consider "vx v \<le> 0" "0 \<le> vy v" | "0 \<le> vx v" "vy v \<le> 0"
    by (auto simp: mult_le_0_iff)
  then have "rnd64 (c64 * ?ny) - rnd64 (s64 * ?nx) \<noteq> 0"
  proof cases
    case 1
    with K have "s64 * ?nx \<le> 0" "0 \<le> c64 * ?ny"
      by (simp_all add: mult_le_0_iff zero_le_mult_iff)
    moreover from K assms(2) have "s64 * ?nx \<noteq> 0 \<or> c64 * ?ny \<noteq> 0" by auto
    ultimately show ?thesis by (rule rnd64_differ)
  next
    case 2
    with K have "c64 * ?ny \<le> 0" "0 \<le> s64 * ?nx"
      by (simp_all add: mult_le_0_iff zero_le_mult_iff)
    moreover from K assms(2) have "c64 * ?ny \<noteq> 0 \<or> s64 * ?nx \<noteq> 0" by auto
    ultimately have "rnd64 (s64 * ?nx) - rnd64 (c64 * ?ny) \<noteq> 0" by (rule rnd64_differ)
    then show ?thesis by simp
  qed
  then have "dotR rnd64 (Vector3 (- s64) c64 0) (Vector3 ?nx ?ny (rnd64 (vz v * K))) \<noteq> 0"
    unfolding d by simp
  then show ?thesis
    unfolding extentOnR_pos_iff n getAxesR_flatBox by simp
qed

lemma flat_extent_pos_own:
  "0 < extentOnR rnd64 flatBox (normalizeR rnd64 (Vector3 c64 s64 0))"
  unfolding extentOnR_pos_iff getAxesR_flatBox by (simp add: flat_own_axis_dot)

lemma set_crossInnerR:
  "set (crossInnerR rnd x ys)
     = {crossR rnd x y | y. y \<in> set ys \<and> lengthSqR rnd (crossR rnd x y) > epsilonR rnd}"
  by (induction ys) (auto simp: Let_def)

lemma set_getCrossProductAxesR:
  "set (getCrossProductAxesR rnd xs ys)
     = {crossR rnd x y | x y. x \<in> set xs \<and> y \<in> set ys \<and>
                              lengthSqR rnd (crossR rnd x y) > epsilonR rnd}"
  by (induction xs) (auto simp: set_crossInnerR)

lemma set_testedAxesR:
  "set (testedAxesR rnd a b) =
     normalizeR rnd ` {v \<in> set (allAxesR rnd a b). \<not> lengthSqR rnd v < epsilonR rnd}"
  by (simp add: testedAxesR_def testedR_def)

lemma flat_crosses:
  "crossR rnd64 (Vector3 c64 s64 0) (Vector3 1 0 0) = Vector3 0 0 (- s64)"
  "crossR rnd64 (Vector3 c64 s64 0) (Vector3 0 1 0) = Vector3 0 0 c64"
  "crossR rnd64 (Vector3 c64 s64 0) (Vector3 0 0 1) = Vector3 s64 (- c64) 0"
  "crossR rnd64 (Vector3 (- s64) c64 0) (Vector3 1 0 0) = Vector3 0 0 (- c64)"
  "crossR rnd64 (Vector3 (- s64) c64 0) (Vector3 0 1 0) = Vector3 0 0 (- s64)"
  "crossR rnd64 (Vector3 (- s64) c64 0) (Vector3 0 0 1) = Vector3 c64 s64 0"
  "crossR rnd64 (Vector3 0 0 1) (Vector3 1 0 0) = Vector3 0 1 0"
  "crossR rnd64 (Vector3 0 0 1) (Vector3 0 1 0) = Vector3 (- 1) 0 0"
  "crossR rnd64 (Vector3 0 0 1) (Vector3 0 0 1) = Vector3 0 0 0"
  by (simp_all add: crossR_def rnd64_minus)

lemma flat_candidates:
  assumes "v \<in> set (allAxesR rnd64 flatBox unitCube)"
  shows "v \<in> {Vector3 c64 s64 0, Vector3 (- s64) c64 0, Vector3 0 0 1, Vector3 1 0 0,
              Vector3 0 1 0, Vector3 0 0 (- s64), Vector3 0 0 c64, Vector3 s64 (- c64) 0,
              Vector3 0 0 (- c64), Vector3 (- 1) 0 0, Vector3 0 0 0}"
proof -
  from assms have "v \<in> set (getAxesR rnd64 flatBox) \<union> set (getAxesR rnd64 unitCube) \<union>
      {crossR rnd64 x y | x y. x \<in> set (getAxesR rnd64 flatBox) \<and> y \<in> set (getAxesR rnd64 unitCube)}"
    by (auto simp: allAxesR_def set_getCrossProductAxesR)
  then show ?thesis
    unfolding getAxesR_flatBox getAxesR_unitCube by (auto simp: flat_crosses)
qed

lemma flat_tested_extents:
  assumes "u \<in> set (testedAxesR rnd64 flatBox unitCube)"
  shows "0 < extentOnR rnd64 flatBox u \<and> 0 < extentOnR rnd64 unitCube u"
proof -
  from assms obtain v where u: "u = normalizeR rnd64 v"
    and v: "v \<in> set (allAxesR rnd64 flatBox unitCube)"
    and t: "\<not> lengthSqR rnd64 v < epsilonR rnd64"
    unfolding set_testedAxesR by blast
  have "lengthSqR rnd64 (Vector3 0 0 0) < epsilonR rnd64" by (simp add: lengthSqR_def)
  with t have nz: "v \<noteq> Vector3 0 0 0" by auto
  from flat_candidates[OF v] nz
  consider "v = Vector3 c64 s64 0" | "vz v \<noteq> 0"
    | "vx v * vy v \<le> 0 \<and> (vx v \<noteq> 0 \<or> vy v \<noteq> 0)"
    by (auto simp: mult_le_0_iff)
  then have "0 < extentOnR rnd64 flatBox (normalizeR rnd64 v)"
  proof cases
    case 1
    then show ?thesis by (simp only: flat_extent_pos_own)
  next
    case 2
    then show ?thesis by (rule flat_extent_pos_z)
  next
    case 3
    then show ?thesis using flat_extent_pos_xy[of v] by blast
  qed
  moreover from nz have "vx v \<noteq> 0 \<or> vy v \<noteq> 0 \<or> vz v \<noteq> 0" by (cases v) auto
  then have "0 < extentOnR rnd64 unitCube (normalizeR rnd64 v)" by (rule cube_extent_pos)
  ultimately show ?thesis unfolding u by blast
qed

lemma flat_tested_nonempty: "testedAxesR rnd64 flatBox unitCube \<noteq> []"
proof -
  have "Vector3 c64 s64 0 \<in> set (allAxesR rnd64 flatBox unitCube)"
    by (simp add: allAxesR_def getAxesR_flatBox)
  moreover have "Vector3 0 0 1 \<in> set (allAxesR rnd64 flatBox unitCube)"
    by (simp add: allAxesR_def getAxesR_flatBox)
  moreover have "\<not> lengthSqR rnd64 (Vector3 0 0 1) < epsilonR rnd64"
    by (simp add: lengthSqR_def)
  ultimately have "normalizeR rnd64 (Vector3 0 0 1) \<in> set (testedAxesR rnd64 flatBox unitCube)"
    unfolding set_testedAxesR by blast
  then show ?thesis by auto
qed


subsection \<open>Degenerate boxes in double arithmetic\<close>

lemma flat_witness_facts:
  "\<not> lengthSqR rnd64 (getAxesR rnd64 (axisAlignedBox (Vector3 0 0 0) (Vector3 1 1 0)) ! 2)
       < epsilonR rnd64"
  "\<forall>j<3. j \<noteq> 2 \<longrightarrow>
     dotR rnd64 (getAxesR rnd64 (axisAlignedBox (Vector3 0 0 0) (Vector3 1 1 0)) ! j)
       (normalizeR rnd64 (getAxesR rnd64 (axisAlignedBox (Vector3 0 0 0) (Vector3 1 1 0)) ! 2)) = 0"
proof -
  let ?a = "axisAlignedBox (Vector3 0 0 0) (Vector3 1 1 0)"
  have ax: "getAxesR rnd64 ?a = [Vector3 1 0 0, Vector3 0 1 0, Vector3 0 0 1]"
    by (simp add: getAxesR_identity64)
  show "\<not> lengthSqR rnd64 (getAxesR rnd64 ?a ! 2) < epsilonR rnd64"
    unfolding ax by (simp add: lengthSqR_def)
  have n: "normalizeR rnd64 (Vector3 0 0 1) = Vector3 0 0 1"
    by (simp add: normalizeR_def lengthR_def lengthSqR_def multiplyScalarR_def)
  show "\<forall>j<3. j \<noteq> 2 \<longrightarrow>
     dotR rnd64 (getAxesR rnd64 ?a ! j) (normalizeR rnd64 (getAxesR rnd64 ?a ! 2)) = 0"
  proof (intro allI impI)
    fix j :: nat assume "j < 3" "j \<noteq> 2"
    then have "j = 0 \<or> j = 1" by auto
    then show "dotR rnd64 (getAxesR rnd64 ?a ! j) (normalizeR rnd64 (getAxesR rnd64 ?a ! 2)) = 0"
      unfolding ax by (auto simp: n dotR_def)
  qed
qed

text \<open>
  The claim as stated fails in double arithmetic. The flat box has a half-extent 0 along its
  first axis and its orientation is an orthonormal matrix rounded to doubles, the unit cube
  contains it, and \<^verbatim>\<open>intersects\<close> reports a collision: on the box's own normalised first axis
  the computed dot product with its second axis is \<open>-2^-54\<close>, not 0, so the computed
  projection of the flat box has positive width.
\<close>

theorem flat_box_rounding_counterexample:
  "orthonormal (Matrix3 (105 / 137) (88 / 137) 0  (- (88 / 137)) (105 / 137) 0  0 0 1) \<and>
   orientation flatBox
     = Matrix3 (rnd64 (105 / 137)) (rnd64 (88 / 137)) 0
               (- rnd64 (88 / 137)) (rnd64 (105 / 137)) 0  0 0 1 \<and>
   vx (halfExtents flatBox) = 0 \<and> orthonormal (orientation unitCube) \<and>
   dotR rnd64 (getAxesR rnd64 flatBox ! 1) (normalizeR rnd64 (getAxesR rnd64 flatBox ! 0))
     = - (1 / 2 ^ 54) \<and>
   (case intersectsR rnd64 flatBox unitCube of Inl e \<Rightarrow> False | Inr res \<Rightarrow> isColliding res)"
proof -
  have pos: "\<forall>u\<in>set (testedAxesR rnd64 flatBox unitCube). 0 < overlapOnR rnd64 flatBox unitCube u"
    using flat_tested_extents by (simp add: overlapR_centred)
  from intersectsR_overlapping[OF flat_tested_nonempty pos]
  obtain res where "intersectsR rnd64 flatBox unitCube = Inr res" "isColliding res" by blast
  moreover have "orthonormal (Matrix3 (105 / 137) (88 / 137) 0  (- (88 / 137)) (105 / 137) 0  0 0 1)"
    by (simp add: orthonormal_def dot_def)
  moreover have "orientation flatBox
     = Matrix3 (rnd64 (105 / 137)) (rnd64 (88 / 137)) 0
               (- rnd64 (88 / 137)) (rnd64 (105 / 137)) 0  0 0 1"
    by (simp add: flatBox_def c64_s64_nearest[symmetric])
  ultimately show ?thesis
    by (simp add: unitCube_def orthonormal_identity3 getAxesR_flatBox flat_own_axis_dot)
qed

text \<open>
  Claim C4, amended. A box with a half-extent equal to zero along one of its axes is never
  reported colliding, whichever of the two boxes \<^verbatim>\<open>intersects\<close> is called on, provided that axis
  passes the length filter and the dot products of the normalised axis with the other two
  axes of the box, as the code computes them, are exactly zero. This holds for every rounding
  that maps 0 to 0 and non-positive numbers to non-positive numbers, hence in double
  arithmetic (for instance when the orientation is the identity), and with exact real
  arithmetic it covers every orthonormal orientation. In double arithmetic it cannot be
  extended to orientations that are orthonormal only up to rounding.
\<close>

theorem zero_extent_never_collides:
  "(rnd 0 = 0 \<and> (\<forall>x\<le>0. rnd x \<le> 0) \<and> i < 3 \<and> comp (halfExtents a) i = 0 \<and>
    \<not> lengthSqR rnd (getAxesR rnd a ! i) < epsilonR rnd \<and>
    (\<forall>j<3. j \<noteq> i \<longrightarrow>
       dotR rnd (getAxesR rnd a ! j) (normalizeR rnd (getAxesR rnd a ! i)) = 0)
      \<longrightarrow> (\<exists>r. intersectsR rnd a b = Inr r \<and> \<not> isColliding r) \<and>
          (\<exists>r. intersectsR rnd b a = Inr r \<and> \<not> isColliding r)) \<and>
   (orthonormal (orientation a) \<and> orthonormal (orientation b) \<and>
    (vx (halfExtents a) = 0 \<or> vy (halfExtents a) = 0 \<or> vz (halfExtents a) = 0)
      \<longrightarrow> (\<exists>r. intersects a b = Inr r \<and> \<not> isColliding r))"
proof (intro conjI impI)
  assume h: "rnd 0 = 0 \<and> (\<forall>x\<le>0. rnd x \<le> 0) \<and> i < 3 \<and> comp (halfExtents a) i = 0 \<and>
    \<not> lengthSqR rnd (getAxesR rnd a ! i) < epsilonR rnd \<and>
    (\<forall>j<3. j \<noteq> i \<longrightarrow>
       dotR rnd (getAxesR rnd a ! j) (normalizeR rnd (getAxesR rnd a ! i)) = 0)"
  then have 1: "rnd 0 = 0" and 2: "\<forall>x\<le>0. rnd x \<le> 0" and 3: "i < 3"
    and 4: "comp (halfExtents a) i = 0"
    and 5: "\<not> lengthSqR rnd (getAxesR rnd a ! i) < epsilonR rnd"
    and 6: "\<forall>j<3. j \<noteq> i \<longrightarrow>
       dotR rnd (getAxesR rnd a ! j) (normalizeR rnd (getAxesR rnd a ! i)) = 0"
    by blast+
  show "\<exists>r. intersectsR rnd a b = Inr r \<and> \<not> isColliding r"
    by (rule zero_extent_rounded(1)[OF 1 2 3 4 5 6])
  show "\<exists>r. intersectsR rnd b a = Inr r \<and> \<not> isColliding r"
    by (rule zero_extent_rounded(2)[OF 1 2 3 4 5 6])
next
  assume "orthonormal (orientation a) \<and> orthonormal (orientation b) \<and>
    (vx (halfExtents a) = 0 \<or> vy (halfExtents a) = 0 \<or> vz (halfExtents a) = 0)"
  then show "\<exists>r. intersects a b = Inr r \<and> \<not> isColliding r"
    using zero_extent_exact[of a b] by blast
qed

theorem zero_extent_never_collides_witness:
  "(\<exists>r. intersectsR rnd64 (axisAlignedBox (Vector3 0 0 0) (Vector3 1 1 0))
                          (axisAlignedBox (Vector3 0 0 0) (Vector3 1 1 1)) = Inr r \<and>
        \<not> isColliding r) \<and>
   (\<exists>r. intersectsR rnd64 (axisAlignedBox (Vector3 0 0 0) (Vector3 1 1 1))
                          (axisAlignedBox (Vector3 0 0 0) (Vector3 1 1 0)) = Inr r \<and>
        \<not> isColliding r) \<and>
   (\<exists>r. intersects (axisAlignedBox (Vector3 0 0 0) (Vector3 1 1 0))
                    (axisAlignedBox (Vector3 0 0 0) (Vector3 1 1 1)) = Inr r \<and> \<not> isColliding r)"
proof -
  let ?a = "axisAlignedBox (Vector3 0 0 0) (Vector3 1 1 0)"
  let ?b = "axisAlignedBox (Vector3 0 0 0) (Vector3 1 1 1)"
  have h1: "rnd64 0 = 0 \<and> (\<forall>x\<le>0. rnd64 x \<le> 0) \<and> (2::nat) < 3 \<and> comp (halfExtents ?a) 2 = 0 \<and>
    \<not> lengthSqR rnd64 (getAxesR rnd64 ?a ! 2) < epsilonR rnd64 \<and>
    (\<forall>j<3. j \<noteq> 2 \<longrightarrow>
       dotR rnd64 (getAxesR rnd64 ?a ! j) (normalizeR rnd64 (getAxesR rnd64 ?a ! 2)) = 0)"
    using flat_witness_facts by (simp add: comp_def)
  have h2: "orthonormal (orientation ?a) \<and> orthonormal (orientation ?b) \<and>
    (vx (halfExtents ?a) = 0 \<or> vy (halfExtents ?a) = 0 \<or> vz (halfExtents ?a) = 0)"
    by (simp add: orthonormal_identity3)
  note r = zero_extent_never_collides[of rnd64 2 ?a ?b]
  from r[THEN conjunct1] h1
  have "(\<exists>r. intersectsR rnd64 ?a ?b = Inr r \<and> \<not> isColliding r) \<and>
        (\<exists>r. intersectsR rnd64 ?b ?a = Inr r \<and> \<not> isColliding r)" by (rule mp)
  moreover from r[THEN conjunct2] h2
  have "\<exists>r. intersects ?a ?b = Inr r \<and> \<not> isColliding r" by (rule mp)
  ultimately show ?thesis by (intro conjI) blast+
qed

subsection \<open>The penetration depth of two boxes\<close>

lemma decimal_boxes_result:
  "\<exists>res. intersectsR rnd64 smallBox bigBox = Inr res \<and> isColliding res \<and>
         penetrationDepth res = dhi"
proof -
  have o: "orientation smallBox = identity3" "orientation bigBox = identity3"
    by (simp_all add: smallBox_def bigBox_def)
  have ne: "testedAxesR rnd64 smallBox bigBox \<noteq> []"
    unfolding testedAxesR_identity64[OF o] by simp
  have pos: "\<forall>u\<in>set (testedAxesR rnd64 smallBox bigBox). 0 < overlapOnR rnd64 smallBox bigBox u"
  proof
    fix u assume "u \<in> set (testedAxesR rnd64 smallBox bigBox)"
    then have "overlapOnR rnd64 smallBox bigBox u \<in> {dhi}"
      unfolding decimal_boxes_overlaps[symmetric] by (rule imageI)
    then show "0 < overlapOnR rnd64 smallBox bigBox u" by simp
  qed
  from intersectsR_overlapping[OF ne pos] show ?thesis
    by (auto simp: decimal_boxes_overlaps)
qed

text \<open>
  The claim as stated fails in double arithmetic: for the cube of half-extent \<^verbatim>\<open>0.1\<close> centred at
  \<^verbatim>\<open>(0.3, 0.3, 0.3)\<close> inside the cube of half-extent 100 the projections of the small cube are
  the intervals from \<^verbatim>\<open>0.3 - 0.1\<close> to \<^verbatim>\<open>0.3 + 0.1\<close>, whose computed width
  \<open>7205759403792795 / 2^55\<close> exceeds twice the half-extent \<open>3602879701896397 / 2^55\<close>, and that
  width is the reported penetration depth.
\<close>

theorem penetration_rounding_counterexample:
  "orthonormal (orientation smallBox) \<and> orthonormal (orientation bigBox) \<and>
   nonNegativeExtents smallBox \<and> nonNegativeExtents bigBox \<and>
   largestHalfExtent smallBox = 3602879701896397 / 2 ^ 55 \<and> largestHalfExtent bigBox = 100 \<and>
   (case intersectsR rnd64 smallBox bigBox of
      Inl e \<Rightarrow> False
    | Inr res \<Rightarrow> isColliding res \<and> penetrationDepth res = 7205759403792795 / 2 ^ 55 \<and>
        2 * min (largestHalfExtent smallBox) (largestHalfExtent bigBox) < penetrationDepth res)"
proof -
  have o: "orientation smallBox = identity3" "orientation bigBox = identity3"
    by (simp_all add: smallBox_def bigBox_def)
  from decimal_boxes_result obtain res where
    res: "intersectsR rnd64 smallBox bigBox = Inr res" "isColliding res" "penetrationDepth res = dhi"
    by blast
  have l: "largestHalfExtent smallBox = 3602879701896397 / 2 ^ 55" "largestHalfExtent bigBox = 100"
    by (simp_all add: largestHalfExtent_def smallBox_def bigBox_def d01_def)
  have n: "nonNegativeExtents smallBox" "nonNegativeExtents bigBox"
    by (simp_all add: nonNegativeExtents_def smallBox_def bigBox_def d01_def)
  from res l n o show ?thesis
    by (simp add: orthonormal_identity3 dhi_def)
qed

text \<open>
  Claim C5, amended. Whenever the loop tests at least one axis, \<^verbatim>\<open>intersects\<close> returns a result
  whose penetration depth is never negative: it is 0 when the boxes do not collide and
  strictly positive when they do; this holds for every rounding, hence in double arithmetic.
  In the colliding case, for every monotone rounding such as that of doubles, the depth is at
  most the computed width \<open>max - min\<close> of the projection of either box on each tested axis. With
  exact real arithmetic, orthonormal orientations and non-negative half-extents that width is
  twice a half-extent on the box's own axes, so the depth is at most twice the largest
  half-extent of either box, hence of the smaller one; in double arithmetic the computed
  width can exceed twice the half-extent.
\<close>

theorem penetration_bounds:
  "(testedAxesR rnd a b \<noteq> []
      \<longrightarrow> (\<exists>r. intersectsR rnd a b = Inr r \<and> 0 \<le> penetrationDepth r \<and>
             (\<not> isColliding r \<longrightarrow> penetrationDepth r = 0) \<and>
             (isColliding r \<longrightarrow> 0 < penetrationDepth r \<and>
                (mono rnd \<longrightarrow>
                   (\<forall>u\<in>set (testedAxesR rnd a b).
                      penetrationDepth r
                        \<le> rnd (pmax (projectOnAxisR rnd a u) - pmin (projectOnAxisR rnd a u)) \<and>
                      penetrationDepth r
                        \<le> rnd (pmax (projectOnAxisR rnd b u) - pmin (projectOnAxisR rnd b u))))))) \<and>
   (orthonormal (orientation a) \<and> orthonormal (orientation b) \<and>
    nonNegativeExtents a \<and> nonNegativeExtents b
      \<longrightarrow> (\<exists>r. intersects a b = Inr r \<and> 0 \<le> penetrationDepth r \<and>
             (\<not> isColliding r \<longrightarrow> penetrationDepth r = 0) \<and>
             (isColliding r \<longrightarrow> 0 < penetrationDepth r \<and>
                penetrationDepth r \<le> 2 * min (largestHalfExtent a) (largestHalfExtent b))))"
proof (intro conjI impI)
  assume "testedAxesR rnd a b \<noteq> []"
  then show "\<exists>r. intersectsR rnd a b = Inr r \<and> 0 \<le> penetrationDepth r \<and>
             (\<not> isColliding r \<longrightarrow> penetrationDepth r = 0) \<and>
             (isColliding r \<longrightarrow> 0 < penetrationDepth r \<and>
                (mono rnd \<longrightarrow>
                   (\<forall>u\<in>set (testedAxesR rnd a b).
                      penetrationDepth r
                        \<le> rnd (pmax (projectOnAxisR rnd a u) - pmin (projectOnAxisR rnd a u)) \<and>
                      penetrationDepth r
                        \<le> rnd (pmax (projectOnAxisR rnd b u) - pmin (projectOnAxisR rnd b u)))))"
    by (rule depth_rounded)
next
  assume "orthonormal (orientation a) \<and> orthonormal (orientation b) \<and>
    nonNegativeExtents a \<and> nonNegativeExtents b"
  then have "orthonormal (orientation a)" "orthonormal (orientation b)"
    "nonNegativeExtents a" "nonNegativeExtents b" by simp_all
  then show "\<exists>r. intersects a b = Inr r \<and> 0 \<le> penetrationDepth r \<and>
             (\<not> isColliding r \<longrightarrow> penetrationDepth r = 0) \<and>
             (isColliding r \<longrightarrow> 0 < penetrationDepth r \<and>
                penetrationDepth r \<le> 2 * min (largestHalfExtent a) (largestHalfExtent b))"
    by (rule penetration_bounds_exact)
qed

lemma decimal_boxes_width:
  "rnd64 (pmax (projectOnAxisR rnd64 smallBox (Vector3 1 0 0)) -
          pmin (projectOnAxisR rnd64 smallBox (Vector3 1 0 0))) = dhi"
  by (simp add: projectOnAxisR_def Let_def smallBox_def getAxesR_identity64 dotR_def)

theorem penetration_bounds_witness:
  "(\<exists>r. intersectsR rnd64 smallBox bigBox = Inr r \<and> isColliding r \<and> 0 < penetrationDepth r \<and>
        penetrationDepth r \<le> 7205759403792795 / 2 ^ 55) \<and>
   (\<exists>r. intersects smallBox bigBox = Inr r \<and> 0 \<le> penetrationDepth r \<and>
        (\<not> isColliding r \<longrightarrow> penetrationDepth r = 0) \<and>
        (isColliding r \<longrightarrow> 0 < penetrationDepth r \<and>
           penetrationDepth r \<le> 2 * (3602879701896397 / 2 ^ 55)))"
proof -
  have o: "orientation smallBox = identity3" "orientation bigBox = identity3"
    by (simp_all add: smallBox_def bigBox_def)
  have ne: "testedAxesR rnd64 smallBox bigBox \<noteq> []"
    unfolding testedAxesR_identity64[OF o] by simp
  have mem: "Vector3 1 0 0 \<in> set (testedAxesR rnd64 smallBox bigBox)"
    unfolding testedAxesR_identity64[OF o] by simp
  have h2: "orthonormal (orientation smallBox) \<and> orthonormal (orientation bigBox) \<and>
    nonNegativeExtents smallBox \<and> nonNegativeExtents bigBox"
    by (simp add: o orthonormal_identity3 nonNegativeExtents_def smallBox_def bigBox_def d01_def)
  have l: "2 * min (largestHalfExtent smallBox) (largestHalfExtent bigBox)
            = 2 * (3602879701896397 / 2 ^ 55)"
    by (simp add: largestHalfExtent_def smallBox_def bigBox_def d01_def)
  note t = penetration_bounds[of rnd64 smallBox bigBox]
  from t[THEN conjunct1] ne obtain r where r: "intersectsR rnd64 smallBox bigBox = Inr r"
    and c: "isColliding r \<longrightarrow> 0 < penetrationDepth r \<and>
                (mono rnd64 \<longrightarrow>
                   (\<forall>u\<in>set (testedAxesR rnd64 smallBox bigBox).
                      penetrationDepth r
                        \<le> rnd64 (pmax (projectOnAxisR rnd64 smallBox u) - pmin (projectOnAxisR rnd64 smallBox u)) \<and>
                      penetrationDepth r
                        \<le> rnd64 (pmax (projectOnAxisR rnd64 bigBox u) - pmin (projectOnAxisR rnd64 bigBox u))))"
    by blast
  from decimal_boxes_result r have col: "isColliding r" by auto
  with c rnd64_mono mem have "0 < penetrationDepth r"
    "penetrationDepth r \<le> rnd64 (pmax (projectOnAxisR rnd64 smallBox (Vector3 1 0 0)) -
          pmin (projectOnAxisR rnd64 smallBox (Vector3 1 0 0)))"
    by blast+
  with r col have 1: "\<exists>r. intersectsR rnd64 smallBox bigBox = Inr r \<and> isColliding r \<and>
        0 < penetrationDepth r \<and> penetrationDepth r \<le> 7205759403792795 / 2 ^ 55"
    unfolding decimal_boxes_width by (auto simp: dhi_def)
  from t[THEN conjunct2] h2
  have "\<exists>r. intersects smallBox bigBox = Inr r \<and> 0 \<le> penetrationDepth r \<and>
             (\<not> isColliding r \<longrightarrow> penetrationDepth r = 0) \<and>
             (isColliding r \<longrightarrow> 0 < penetrationDepth r \<and>
                penetrationDepth r \<le> 2 * min (largestHalfExtent smallBox) (largestHalfExtent bigBox))"
    by (rule mp)
  then have 2: "\<exists>r. intersects smallBox bigBox = Inr r \<and> 0 \<le> penetrationDepth r \<and>
        (\<not> isColliding r \<longrightarrow> penetrationDepth r = 0) \<and>
        (isColliding r \<longrightarrow> 0 < penetrationDepth r \<and>
           penetrationDepth r \<le> 2 * (3602879701896397 / 2 ^ 55))"
    unfolding l .
  from 1 2 show ?thesis by (rule conjI)
qed

end
